(* ===== verification/Prelude.thy ===== *)
theory Prelude
  imports Main "HOL-Library.Word"
begin

section \<open>Shared vocabulary of the development\<close>

text \<open>
  What every component of the model shares: the undefined behaviours of C as values, the
  error-or-value result of an operation with its sequencing function, the range of a C
  \<^verbatim>\<open>int\<close>, and the named collections of rules that the component theories extend.

  A C string is a \<^typ>\<open>string\<close> without its terminating NUL; a \<^verbatim>\<open>char *\<close> that may be
  \<^verbatim>\<open>NULL\<close> is a \<^typ>\<open>string option\<close>. Memory exhaustion (\<^verbatim>\<open>MEM_ASSERT\<close> aborts the process)
  is outside the model.
\<close>

named_theorems clib_simps \<open>rewrite rules for the C library functions\<close>
named_theorems cfg_simps \<open>rewrite rules for the configuration operations\<close>
named_theorems wf_intros \<open>introduction rules for well-formedness invariants\<close>

subsection \<open>Undefined behaviour and results\<close>

datatype ub = NullDeref | OutOfBounds | SignedOverflow | DivideByZero | Uninitialized

type_synonym 'a c_res = "ub + 'a"

fun ebind :: "'e + 'a \<Rightarrow> ('a \<Rightarrow> 'e + 'b) \<Rightarrow> 'e + 'b" where
  "ebind (Inl e) f = Inl e"
| "ebind (Inr x) f = f x"

lemma ebind_assoc: "ebind (ebind m f) g = ebind m (\<lambda>x. ebind (f x) g)"
  by (cases m) auto

lemma ebind_Inr_iff: "ebind m f = Inr y \<longleftrightarrow> (\<exists>x. m = Inr x \<and> f x = Inr y)"
  by (cases m) auto

lemma ebind_Inl_iff: "ebind m f = Inl e \<longleftrightarrow> m = Inl e \<or> (\<exists>x. m = Inr x \<and> f x = Inl e)"
  by (cases m) auto

lemma ebind_cong [fundef_cong]:
  "m = m' \<Longrightarrow> (\<And>x. m' = Inr x \<Longrightarrow> f x = g x) \<Longrightarrow> ebind m f = ebind m' g"
  by (cases m') auto

text \<open>Running an operation over a list of arguments, stopping at the first error.\<close>

fun efold :: "('x \<Rightarrow> 's \<Rightarrow> 'e + 's) \<Rightarrow> 'x list \<Rightarrow> 's \<Rightarrow> 'e + 's" where
  "efold f [] s = Inr s"
| "efold f (x # xs) s = ebind (f x s) (efold f xs)"

lemma efold_append: "efold f (xs @ ys) s = ebind (efold f xs s) (efold f ys)"
proof (induction xs arbitrary: s)
  case (Cons x xs)
  then show ?case by (cases "f x s") auto
qed simp

lemma efold_cong:
  "(\<And>x s. x \<in> set xs \<Longrightarrow> f x s = g x s) \<Longrightarrow> efold f xs s = efold g xs s"
proof (induction xs arbitrary: s)
  case (Cons x xs)
  then show ?case by (cases "g x s") auto
qed simp

lemma efold_map: "efold f (map h xs) s = efold (\<lambda>x. f (h x)) xs s"
proof (induction xs arbitrary: s)
  case (Cons x xs)
  then show ?case by (cases "f (h x) s") auto
qed simp

lemma efold_index:
  assumes "\<And>i. i < length xs \<Longrightarrow> g i = Inr (xs ! i)"
  shows "efold (\<lambda>i s. ebind (g i) (f s)) [0..<length xs] s = efold (\<lambda>x s. f s x) xs s"
proof -
  have "efold (\<lambda>i s. ebind (g i) (f s)) [0..<length xs] s
      = efold (\<lambda>i s. f s (xs ! i)) [0..<length xs] s"
    using assms by (intro efold_cong) auto
  also have "\<dots> = efold (\<lambda>x s. f s x) (map (\<lambda>i. xs ! i) [0..<length xs]) s"
    by (simp add: efold_map)
  finally show ?thesis by (simp add: map_nth)
qed

lemma efold_invariant:
  assumes "\<And>x s t. x \<in> set xs \<Longrightarrow> P s \<Longrightarrow> f x s = Inr t \<Longrightarrow> P t"
    and "P s" and "efold f xs s = Inr t"
  shows "P t"
  using assms by (induction xs arbitrary: s) (auto simp: ebind_Inr_iff)

subsection \<open>Integers of the C implementation\<close>

text \<open>The range of a 32-bit signed \<^verbatim>\<open>int\<close>.\<close>

definition int32 :: "int \<Rightarrow> bool" where
  "int32 i \<longleftrightarrow> - 2147483648 \<le> i \<and> i < 2147483648"

text \<open>A signed result: outside the range of \<^verbatim>\<open>int\<close> the behaviour is undefined.\<close>

definition c_int :: "int \<Rightarrow> int c_res" where
  "c_int i = (if int32 i then Inr i else Inl SignedOverflow)"

lemma c_int_Inr [simp]: "int32 i \<Longrightarrow> c_int i = Inr i"
  by (simp add: c_int_def)

lemma int32_small [simp]: "0 \<le> i \<Longrightarrow> i < 2147483648 \<Longrightarrow> int32 i"
  by (simp add: int32_def)

text \<open>Integer division of C truncates towards zero and is undefined for a zero divisor.\<close>

definition c_div :: "int \<Rightarrow> int \<Rightarrow> int c_res" where
  "c_div a b = (if b = 0 then Inl DivideByZero else Inr (sgn a * sgn b * (\<bar>a\<bar> div \<bar>b\<bar>)))"

lemma c_div_nonneg: "0 \<le> a \<Longrightarrow> 0 < b \<Longrightarrow> c_div a b = Inr (a div b)"
  by (auto simp: c_div_def sgn_if)

subsection \<open>Generic lemmas on lists and maps\<close>

lemma take_eq_take_append:
  "length xs = n \<Longrightarrow> take n (xs @ ys) = xs"
  by simp

lemma takeWhile_append_stop:
  "(\<And>x. x \<in> set xs \<Longrightarrow> P x) \<Longrightarrow> \<not> P y \<Longrightarrow> takeWhile P (xs @ y # ys) = xs"
  by (simp add: takeWhile_tail)

lemma dropWhile_append_stop:
  "(\<And>x. x \<in> set xs \<Longrightarrow> P x) \<Longrightarrow> \<not> P y \<Longrightarrow> dropWhile P (xs @ y # ys) = y # ys"
  by (induction xs) auto

lemma takeWhile_all: "(\<And>x. x \<in> set xs \<Longrightarrow> P x) \<Longrightarrow> takeWhile P xs = xs"
  by (simp add: takeWhile_eq_all_conv)

lemma upt_add_Suc: "[i..<i + Suc n] = i # [Suc i..<Suc i + n]"
  by (subst upt_conv_Cons) auto

lemma disjoint_imageI: "(\<And>k. k \<in> S \<Longrightarrow> f k \<notin> G) \<Longrightarrow> G \<inter> f ` S = {}"
  by auto

lemma diff_length_append_less:
  "cs \<noteq> [] \<Longrightarrow> length xs < n \<Longrightarrow> n - length (xs @ cs) < n - length xs"
  by (cases cs) auto

lemma nth_map_upt: "i < n \<Longrightarrow> map f [0..<n] ! i = f i"
  by simp

text \<open>The index of the first element that satisfies a test.\<close>

fun find_index :: "('a \<Rightarrow> bool) \<Rightarrow> 'a list \<Rightarrow> nat option" where
  "find_index P [] = None"
| "find_index P (x # xs) = (if P x then Some 0 else map_option Suc (find_index P xs))"

lemma find_index_Some:
  "find_index P xs = Some i \<Longrightarrow> i < length xs \<and> P (xs ! i) \<and> (\<forall>j < i. \<not> P (xs ! j))"
proof (induction xs arbitrary: i)
  case (Cons x xs)
  then show ?case
    by (auto split: if_splits simp: less_Suc_eq_0_disj)
qed simp

lemma find_index_None: "find_index P xs = None \<longleftrightarrow> (\<forall>x \<in> set xs. \<not> P x)"
  by (induction xs) auto

lemma find_index_cong:
  "(\<And>x. x \<in> set xs \<Longrightarrow> P x = Q x) \<Longrightarrow> find_index P xs = find_index Q xs"
  by (induction xs) auto

lemma find_index_take:
  "find_index P (take n xs) = Some i \<Longrightarrow> find_index P xs = Some i"
proof (induction xs arbitrary: n i)
  case (Cons x xs)
  then show ?case by (cases n) (auto split: if_splits)
qed simp

lemma find_index_take_Suc:
  "find_index P xs = Some i \<Longrightarrow> find_index P (take (Suc i) xs) = Some i"
proof (induction xs arbitrary: i)
  case (Cons x xs)
  then show ?case by (cases i) (auto split: if_splits)
qed simp

lemma find_index_append_left:
  "find_index P xs = Some i \<Longrightarrow> find_index P (xs @ ys) = Some i"
  by (induction xs arbitrary: i) (auto split: if_splits)

end
