(* ===== verification/CLib.thy ===== *)
theory CLib
  imports Prelude "HOL-Library.Char_ord"
begin

section \<open>The C library functions the program uses\<close>

text \<open>
  \<^verbatim>\<open>ctype.h\<close> in the C locale, the \<^verbatim>\<open>string.h\<close> searches, \<^verbatim>\<open>printf("%d")\<close> and
  \<^verbatim>\<open>sscanf\<close> with \<^verbatim>\<open>%d\<close> and \<^verbatim>\<open>%i\<close>. The numeric conversions carry the round-trip law that
  the environment, the boot map URIs and the menu selection rest on.
\<close>

subsection \<open>ctype.h\<close>

definition islower :: "char \<Rightarrow> bool" where
  "islower c \<longleftrightarrow> 97 \<le> (of_char c :: nat) \<and> (of_char c :: nat) \<le> 122"

definition isupper :: "char \<Rightarrow> bool" where
  "isupper c \<longleftrightarrow> 65 \<le> (of_char c :: nat) \<and> (of_char c :: nat) \<le> 90"

definition isdigit :: "char \<Rightarrow> bool" where
  "isdigit c \<longleftrightarrow> 48 \<le> (of_char c :: nat) \<and> (of_char c :: nat) \<le> 57"

definition isxdigit :: "char \<Rightarrow> bool" where
  "isxdigit c \<longleftrightarrow> isdigit c \<or> (97 \<le> (of_char c :: nat) \<and> (of_char c :: nat) \<le> 102)
     \<or> (65 \<le> (of_char c :: nat) \<and> (of_char c :: nat) \<le> 70)"

definition isprint :: "char \<Rightarrow> bool" where
  "isprint c \<longleftrightarrow> 32 \<le> (of_char c :: nat) \<and> (of_char c :: nat) \<le> 126"

definition isspace :: "char \<Rightarrow> bool" where
  "isspace c \<longleftrightarrow> (of_char c :: nat) = 32 \<or> (9 \<le> (of_char c :: nat) \<and> (of_char c :: nat) \<le> 13)"

definition tolower :: "char \<Rightarrow> char" where
  "tolower c = (if isupper c then char_of ((of_char c :: nat) + 32) else c)"

lemmas ctype_defs = islower_def isupper_def isdigit_def isxdigit_def isprint_def isspace_def

subsection \<open>string.h\<close>

definition strspn :: "string \<Rightarrow> string \<Rightarrow> nat" where
  "strspn s accept = length (takeWhile (\<lambda>c. c \<in> set accept) s)"

definition strcspn :: "string \<Rightarrow> string \<Rightarrow> nat" where
  "strcspn s reject = length (takeWhile (\<lambda>c. c \<notin> set reject) s)"

text \<open>The offset of the character found by \<^verbatim>\<open>strchr\<close>, None for a \<^verbatim>\<open>NULL\<close> result.\<close>

definition strchr :: "string \<Rightarrow> char \<Rightarrow> nat option" where
  "strchr s c = find_index (\<lambda>x. x = c) s"

text \<open>Whether \<^verbatim>\<open>strncmp (a, b, n)\<close> is 0: on strings without NUL the common prefix decides.\<close>

definition strncmp_eq :: "string \<Rightarrow> string \<Rightarrow> nat \<Rightarrow> bool" where
  "strncmp_eq a b n \<longleftrightarrow> take n a = take n b"

definition strcasecmp_eq :: "string \<Rightarrow> string \<Rightarrow> bool" where
  "strcasecmp_eq a b \<longleftrightarrow> map tolower a = map tolower b"

text \<open>Whether the search \<^verbatim>\<open>strstr (s, pat) == s\<close> succeeds at the start of \<open>s\<close>.\<close>

definition starts_with :: "string \<Rightarrow> string \<Rightarrow> bool" where
  "starts_with s pat \<longleftrightarrow> take (length pat) s = pat"

text \<open>\<^verbatim>\<open>strstr\<close>: the suffix of \<open>s\<close> that begins with the first occurrence of the pattern.\<close>

fun strstr :: "string \<Rightarrow> string \<Rightarrow> string option" where
  "strstr [] pat = (if pat = [] then Some [] else None)"
| "strstr (c # s) pat = (if starts_with (c # s) pat then Some (c # s) else strstr s pat)"

lemma strstr_suffix: "strstr s pat = Some t \<Longrightarrow> length t \<le> length s \<and> starts_with t pat"
  by (induction s) (auto simp: starts_with_def split: if_splits)

lemma strspn_all [clib_simps]: "strspn s accept = length s \<longleftrightarrow> set s \<subseteq> set accept"
  unfolding strspn_def
  by (metis (no_types, lifting) subsetI subset_eq takeWhile_eq_all_conv length_takeWhile_le
      takeWhile_eq_take take_all_iff order_refl)

lemma strchr_None [clib_simps]: "strchr s c = None \<longleftrightarrow> c \<notin> set s"
  by (auto simp: strchr_def find_index_None)

lemma strchr_append [clib_simps]: "c \<notin> set s \<Longrightarrow> strchr (s @ c # t) c = Some (length s)"
  by (induction s) (auto simp: strchr_def)

lemma starts_with_append [clib_simps]: "starts_with (pat @ t) pat"
  by (simp add: starts_with_def)

lemma starts_with_iff: "starts_with s pat \<longleftrightarrow> (\<exists>t. s = pat @ t)"
  unfolding starts_with_def by (metis append_eq_conv_conj append_take_drop_id)

subsection \<open>Decimal output\<close>

definition digit_char :: "nat \<Rightarrow> char" where
  "digit_char d = char_of (48 + d)"

definition digit_val :: "char \<Rightarrow> nat" where
  "digit_val c = of_char c - 48"

fun dec :: "nat \<Rightarrow> string" where
  "dec n = (if n < 10 then [digit_char n] else dec (n div 10) @ [digit_char (n mod 10)])"

declare dec.simps [simp del]

definition dec_val :: "string \<Rightarrow> nat" where
  "dec_val s = foldl (\<lambda>a c. 10 * a + digit_val c) 0 s"

text \<open>The output of \<^verbatim>\<open>printf("%d")\<close>.\<close>

definition printf_d :: "int \<Rightarrow> string" where
  "printf_d i = (if i < 0 then ''-'' @ dec (nat (- i)) else dec (nat i))"

lemma of_char_digit [simp]: "d < 10 \<Longrightarrow> (of_char (digit_char d) :: nat) = 48 + d"
  by (simp add: digit_char_def)

lemma digit_val_char [simp]: "d < 10 \<Longrightarrow> digit_val (digit_char d) = d"
  by (simp add: digit_val_def)

lemma isdigit_char [simp]: "d < 10 \<Longrightarrow> isdigit (digit_char d)"
  by (simp add: isdigit_def)

lemma dec_val_snoc: "dec_val (s @ [c]) = 10 * dec_val s + digit_val c"
  by (simp add: dec_val_def)

lemma dec_digits: "c \<in> set (dec n) \<Longrightarrow> isdigit c"
proof (induction n rule: dec.induct)
  case (1 n)
  then show ?case
    by (subst (asm) dec.simps) (auto split: if_splits)
qed

lemma dec_nonempty [simp]: "dec n \<noteq> []"
  by (subst dec.simps) simp

lemma dec_val_dec [clib_simps]: "dec_val (dec n) = n"
proof (induction n rule: dec.induct)
  case (1 n)
  show ?case
  proof (cases "n < 10")
    case True
    then show ?thesis by (subst dec.simps) (simp add: dec_val_def)
  next
    case False
    with 1 have "dec_val (dec (n div 10)) = n div 10" by simp
    with False show ?thesis
      by (subst dec.simps) (simp add: dec_val_snoc)
  qed
qed

lemma dec_inject [simp]: "dec m = dec n \<longleftrightarrow> m = n"
  by (metis dec_val_dec)

subsection \<open>Numeric input\<close>

text \<open>
  \<^verbatim>\<open>sscanf("%d")\<close>: leading white space, an optional sign, decimal digits. A matching
  failure is \<open>Inr None\<close>; a value outside \<^verbatim>\<open>int\<close> is undefined behaviour.
\<close>

definition scan_sign :: "string \<Rightarrow> int \<times> string" where
  "scan_sign s =
     (case s of [] \<Rightarrow> (1, [])
      | c # t \<Rightarrow> if c = CHR ''-'' then (-1, t) else if c = CHR ''+'' then (1, t) else (1, s))"

definition sscanf_d :: "string \<Rightarrow> int option c_res" where
  "sscanf_d s =
     (let (sg, t) = scan_sign (dropWhile isspace s);
          ds = takeWhile isdigit t
      in if ds = [] then Inr None
         else ebind (c_int (sg * int (dec_val ds))) (\<lambda>v. Inr (Some v)))"

lemma isdigit_not_space: "isdigit c \<Longrightarrow> \<not> isspace c"
  by (auto simp: ctype_defs)

lemma isdigit_not_sign: "isdigit c \<Longrightarrow> c \<noteq> CHR ''-'' \<and> c \<noteq> CHR ''+''"
  by (auto simp: isdigit_def)

lemma sscanf_d_digits:
  assumes "ds \<noteq> []" and "\<And>c. c \<in> set ds \<Longrightarrow> isdigit c"
    and "t = [] \<or> \<not> isdigit (hd t)" and "int32 (int (dec_val ds))"
  shows "sscanf_d (ds @ t) = Inr (Some (int (dec_val ds)))"
proof -
  obtain d ds' where ds: "ds = d # ds'" using assms(1) by (cases ds) auto
  have "isdigit d" using assms(2) ds by simp
  then have "scan_sign (dropWhile isspace (ds @ t)) = (1, ds @ t)"
    by (simp add: ds scan_sign_def isdigit_not_space isdigit_not_sign)
  moreover have "takeWhile isdigit (ds @ t) = ds"
    using assms(2,3) by (cases t) (auto simp: takeWhile_append_stop takeWhile_all)
  ultimately show ?thesis using assms(1,4) by (simp add: sscanf_d_def)
qed

lemma sscanf_d_neg_digits:
  assumes "ds \<noteq> []" and "\<And>c. c \<in> set ds \<Longrightarrow> isdigit c"
    and "t = [] \<or> \<not> isdigit (hd t)" and "int32 (- int (dec_val ds))"
  shows "sscanf_d (CHR ''-'' # ds @ t) = Inr (Some (- int (dec_val ds)))"
proof -
  have "takeWhile isdigit (ds @ t) = ds"
    using assms(2,3) by (cases t) (auto simp: takeWhile_append_stop takeWhile_all)
  with assms(1,4) show ?thesis
    by (simp add: sscanf_d_def scan_sign_def isspace_def)
qed

text \<open>Every \<^verbatim>\<open>int\<close> that \<^verbatim>\<open>printf("%d")\<close> writes is read back by \<^verbatim>\<open>sscanf("%d")\<close>.\<close>

lemma sscanf_printf_d [clib_simps]: "int32 i \<Longrightarrow> sscanf_d (printf_d i) = Inr (Some i)"
  using sscanf_d_digits [of "dec (nat i)" "[]"] sscanf_d_neg_digits [of "dec (nat (- i))" "[]"]
  by (auto simp: printf_d_def dec_val_dec dec_digits)

text \<open>
  \<^verbatim>\<open>sscanf("%i")\<close> also reads a base prefix: \<^verbatim>\<open>0x\<close> for hexadecimal, a leading
  \<^verbatim>\<open>0\<close> for octal.
\<close>

definition isoctal :: "char \<Rightarrow> bool" where
  "isoctal c \<longleftrightarrow> 48 \<le> (of_char c :: nat) \<and> (of_char c :: nat) \<le> 55"

definition xdigit_val :: "char \<Rightarrow> nat" where
  "xdigit_val c =
     (let n = of_char c in if n \<le> 57 then n - 48 else if n \<le> 70 then n - 55 else n - 87)"

definition base_val :: "nat \<Rightarrow> string \<Rightarrow> nat" where
  "base_val b s = foldl (\<lambda>a c. b * a + xdigit_val c) 0 s"

text \<open>The number at the start of a text and what follows it.\<close>

definition scan_i_digits :: "string \<Rightarrow> (nat \<times> string) option" where
  "scan_i_digits t =
     (case t of
        [] \<Rightarrow> None
      | c # u \<Rightarrow>
          if c = CHR ''0'' then
            (case u of
               [] \<Rightarrow> Some (0, [])
             | d # w \<Rightarrow>
                 if d = CHR ''x'' \<or> d = CHR ''X''
                 then Some (base_val 16 (takeWhile isxdigit w), dropWhile isxdigit w)
                 else Some (base_val 8 (takeWhile isoctal t), dropWhile isoctal t))
          else if isdigit c then Some (base_val 10 (takeWhile isdigit t), dropWhile isdigit t)
          else None)"

definition scan_i :: "string \<Rightarrow> (int \<times> string) option c_res" where
  "scan_i s =
     (let (sg, t) = scan_sign (dropWhile isspace s)
      in case scan_i_digits t of
           None \<Rightarrow> Inr None
         | Some (v, rest) \<Rightarrow> ebind (c_int (sg * int v)) (\<lambda>w. Inr (Some (w, rest))))"

definition sscanf_i :: "string \<Rightarrow> int option c_res" where
  "sscanf_i s = ebind (scan_i s) (\<lambda>r. Inr (map_option fst r))"

text \<open>
  \<^verbatim>\<open>sscanf\<close> with \<open>n\<close> conversions \<^verbatim>\<open>%i\<close> separated by colons: the numbers converted
  before the first mismatch.
\<close>

fun sscanf_is :: "nat \<Rightarrow> string \<Rightarrow> int list c_res" where
  "sscanf_is 0 s = Inr []"
| "sscanf_is (Suc n) s =
     ebind (scan_i s) (\<lambda>r.
       case r of
         None \<Rightarrow> Inr []
       | Some (v, t) \<Rightarrow>
           (case t of
              [] \<Rightarrow> Inr [v]
            | c # u \<Rightarrow> if c = CHR '':'' then ebind (sscanf_is n u) (\<lambda>vs. Inr (v # vs)) else Inr [v]))"

text \<open>\<^verbatim>\<open>%i\<close> reads a decimal number back unless it begins with a zero.\<close>

lemma xdigit_val_digit: "isdigit c \<Longrightarrow> xdigit_val c = digit_val c"
  by (simp add: xdigit_val_def digit_val_def isdigit_def)

lemma base_val_10: "(\<And>c. c \<in> set s \<Longrightarrow> isdigit c) \<Longrightarrow> base_val 10 s = dec_val s"
  unfolding base_val_def dec_val_def by (rule foldl_cong) (auto simp: xdigit_val_digit)

lemma dec_hd_zero: "n \<noteq> 0 \<Longrightarrow> hd (dec n) \<noteq> CHR ''0''"
proof (induction n rule: dec.induct)
  case (1 n)
  show ?case
  proof (cases "n < 10")
    case True
    have "digit_char n \<noteq> CHR ''0''"
    proof
      assume "digit_char n = CHR ''0''"
      then have "digit_val (digit_char n) = digit_val CHR ''0''" by (rule arg_cong)
      with True 1 show False by (simp add: digit_val_def)
    qed
    then show ?thesis using True by (subst dec.simps) simp
  next
    case False
    then have "n div 10 \<noteq> 0" by (simp add: div_eq_0_iff)
    with False 1 show ?thesis by (subst dec.simps) simp
  qed
qed

lemma scan_i_dec:
  assumes "t = [] \<or> \<not> isdigit (hd t)" and "int32 (int n)" and "n \<noteq> 0"
  shows "scan_i (dec n @ t) = Inr (Some (int n, t))"
proof -
  obtain d ds where ds: "dec n = d # ds" using dec_nonempty by (cases "dec n") auto
  have dd: "isdigit d" using dec_digits [of d n] ds by simp
  have nz: "d \<noteq> CHR ''0''" using dec_hd_zero [OF assms(3)] ds by simp
  have sg: "scan_sign (dropWhile isspace (dec n @ t)) = (1, dec n @ t)"
    using dd by (simp add: ds scan_sign_def isdigit_not_space isdigit_not_sign)
  have tw: "takeWhile isdigit (dec n @ t) = dec n" "dropWhile isdigit (dec n @ t) = t"
    using assms(1) dec_digits by (cases t; simp add: takeWhile_append_stop dropWhile_append_stop takeWhile_all dropWhile_eq_Nil_conv)+
  have "scan_i_digits (dec n @ t) = Some (base_val 10 (dec n), t)"
    using tw dd nz by (simp add: scan_i_digits_def ds)
  then show ?thesis
    using sg assms(2) by (simp add: scan_i_def base_val_10 dec_digits dec_val_dec)
qed

text \<open>\<^verbatim>\<open>atoi\<close>: 0 when there is no number.\<close>

definition atoi :: "string \<Rightarrow> int c_res" where
  "atoi s = ebind (sscanf_d s) (\<lambda>r. Inr (case r of None \<Rightarrow> 0 | Some i \<Rightarrow> i))"

end
