(* ===== verification/Config.thy ===== *)
theory Config
  imports CLib
begin

section \<open>Configuration data (config.c, config.h)\<close>

text \<open>
  The string helpers, the structures \<^verbatim>\<open>cfg_userinterface\<close>, \<^verbatim>\<open>cfg_bentry\<close> and
  \<^verbatim>\<open>cfg_toplevel\<close> and their init, destroy, copy and add operations. A \<^verbatim>\<open>char *\<close> member is
  a \<^typ>\<open>string option\<close>, so that reading a \<^verbatim>\<open>NULL\<close> member is visible as
  \<^const>\<open>NullDeref\<close>. The invariant \<open>cfg_wf\<close> (no \<^verbatim>\<open>NULL\<close> string, counts agree with the
  arrays) is kept by every operation, and under it no operation is undefined.
\<close>

type_synonym cptr = "string option"

subsection \<open>Dynamic strings\<close>

definition cfg_strinit :: cptr where
  "cfg_strinit = Some []"

definition cfg_strfree :: "cptr \<Rightarrow> cptr" where
  "cfg_strfree str = None"

definition cfg_strcpy :: "cptr \<Rightarrow> cptr \<Rightarrow> cptr c_res" where
  "cfg_strcpy dest src = (case src of None \<Rightarrow> Inl NullDeref | Some s \<Rightarrow> Inr (Some s))"

definition cfg_strcat :: "cptr \<Rightarrow> cptr \<Rightarrow> cptr c_res" where
  "cfg_strcat dest src =
     (case dest of None \<Rightarrow> Inl NullDeref
      | Some d \<Rightarrow> (case src of None \<Rightarrow> Inl NullDeref | Some s \<Rightarrow> Inr (Some (d @ s))))"

definition cfg_strncpy :: "cptr \<Rightarrow> cptr \<Rightarrow> nat \<Rightarrow> cptr c_res" where
  "cfg_strncpy dest src len =
     (case src of None \<Rightarrow> Inl NullDeref
      | Some s \<Rightarrow>
          (let slen = length s; len' = (if slen < len then slen else len)
           in Inr (Some (take len' s))))"

definition cfg_strinitcpy :: "cptr \<Rightarrow> cptr c_res" where
  "cfg_strinitcpy src = (case src of None \<Rightarrow> Inl NullDeref | Some s \<Rightarrow> Inr (Some s))"

lemma cfg_str_Some [cfg_simps]:
  "cfg_strcpy d (Some s) = Inr (Some s)"
  "cfg_strcat (Some d') (Some s) = Inr (Some (d' @ s))"
  "cfg_strncpy d (Some s) n = Inr (Some (take n s))"
  "cfg_strinitcpy (Some s) = Inr (Some s)"
  by (auto simp: cfg_strcpy_def cfg_strcat_def cfg_strncpy_def cfg_strinitcpy_def Let_def)

lemma cfg_str_NULL [cfg_simps]:
  "cfg_strcpy d None = Inl NullDeref"
  "cfg_strcat d None = Inl NullDeref"
  "cfg_strncpy d None n = Inl NullDeref"
  "cfg_strinitcpy None = Inl NullDeref"
  by (auto simp: cfg_strcpy_def cfg_strcat_def cfg_strncpy_def cfg_strinitcpy_def
      split: option.splits)

subsection \<open>User interface entries\<close>

record cfg_userinterface =
  ui_module :: cptr
  ui_cmdline :: cptr

definition cfg_userinterface_init :: cfg_userinterface where
  "cfg_userinterface_init = \<lparr>ui_module = cfg_strinit, ui_cmdline = cfg_strinit\<rparr>"

definition cfg_userinterface_new :: cfg_userinterface where
  "cfg_userinterface_new = cfg_userinterface_init"

definition cfg_userinterface_set :: "cptr \<Rightarrow> cptr \<Rightarrow> cfg_userinterface c_res" where
  "cfg_userinterface_set module_name cmd =
     ebind (cfg_strinitcpy module_name) (\<lambda>m.
     ebind (cfg_strinitcpy cmd) (\<lambda>c.
     Inr \<lparr>ui_module = m, ui_cmdline = c\<rparr>))"

definition cfg_userinterface_destroy :: "cfg_userinterface \<Rightarrow> cfg_userinterface" where
  "cfg_userinterface_destroy ui =
     ui\<lparr>ui_module := cfg_strfree (ui_module ui), ui_cmdline := cfg_strfree (ui_cmdline ui)\<rparr>"

definition cfg_userinterface_copy ::
  "cfg_userinterface \<Rightarrow> cfg_userinterface \<Rightarrow> cfg_userinterface c_res" where
  "cfg_userinterface_copy dest src =
     ebind (cfg_strcpy (ui_module dest) (ui_module src)) (\<lambda>m.
     ebind (cfg_strcpy (ui_cmdline dest) (ui_cmdline src)) (\<lambda>c.
     Inr (dest\<lparr>ui_module := m, ui_cmdline := c\<rparr>)))"

definition cfg_userinterface_initcopy :: "cfg_userinterface \<Rightarrow> cfg_userinterface c_res" where
  "cfg_userinterface_initcopy src = cfg_userinterface_copy cfg_userinterface_init src"

subsection \<open>Boot entries\<close>

text \<open>
  \<^verbatim>\<open>enum boot_action\<close>. The value is also read from the environment with a cast, so it may lie
  outside the enumeration (\<open>INVALID_ACTION\<close>).
\<close>

datatype boot_action =
  KERNEL_BOOT | INSFILE_BOOT | BOOTMAP_BOOT | REBOOT | HALT | SHELL | EXIT | INVALID_ACTION int

fun int_of_action :: "boot_action \<Rightarrow> int" where
  "int_of_action KERNEL_BOOT = 0"
| "int_of_action INSFILE_BOOT = 1"
| "int_of_action BOOTMAP_BOOT = 2"
| "int_of_action REBOOT = 3"
| "int_of_action HALT = 4"
| "int_of_action SHELL = 5"
| "int_of_action EXIT = 6"
| "int_of_action (INVALID_ACTION i) = i"

definition action_of_int :: "int \<Rightarrow> boot_action" where
  "action_of_int i =
     (if i = 0 then KERNEL_BOOT else if i = 1 then INSFILE_BOOT else if i = 2 then BOOTMAP_BOOT
      else if i = 3 then REBOOT else if i = 4 then HALT else if i = 5 then SHELL
      else if i = 6 then EXIT else INVALID_ACTION i)"

definition action_wf :: "boot_action \<Rightarrow> bool" where
  "action_wf a \<longleftrightarrow>
     (case a of INVALID_ACTION i \<Rightarrow> int32 i \<and> (i < 0 \<or> 6 < i) | _ \<Rightarrow> True)"

lemma action_of_int_of_action [cfg_simps]:
  "action_wf a \<Longrightarrow> action_of_int (int_of_action a) = a"
  by (cases a) (auto simp: action_wf_def action_of_int_def)

lemma int_of_action_of_int [cfg_simps]: "int_of_action (action_of_int i) = i"
  by (simp add: action_of_int_def)

lemma int32_int_of_action [cfg_simps]: "action_wf a \<Longrightarrow> int32 (int_of_action a)"
  by (cases a) (auto simp: action_wf_def)

lemma action_wf_of_int [wf_intros]: "int32 i \<Longrightarrow> action_wf (action_of_int i)"
  by (auto simp: action_wf_def action_of_int_def)

record cfg_bentry =
  title :: cptr
  label :: cptr
  root :: cptr
  kernel :: cptr
  initrd :: cptr
  cmdline :: cptr
  parmfile :: cptr
  insfile :: cptr
  bootmap :: cptr
  locked :: int
  pause :: cptr
  action :: boot_action

text \<open>\<^verbatim>\<open>memset\<close> to zero: every pointer \<^verbatim>\<open>NULL\<close>, the action \<^verbatim>\<open>KERNEL_BOOT\<close>.\<close>

definition bentry_zero :: cfg_bentry where
  "bentry_zero =
     \<lparr>title = None, label = None, root = None, kernel = None, initrd = None, cmdline = None,
      parmfile = None, insfile = None, bootmap = None, locked = 0, pause = None,
      action = KERNEL_BOOT\<rparr>"

definition cfg_bentry_init :: cfg_bentry where
  "cfg_bentry_init =
     bentry_zero\<lparr>title := cfg_strinit, label := cfg_strinit, root := cfg_strinit,
       kernel := cfg_strinit, initrd := cfg_strinit, cmdline := cfg_strinit,
       parmfile := cfg_strinit, insfile := cfg_strinit, bootmap := cfg_strinit,
       pause := cfg_strinit\<rparr>"

definition cfg_bentry_destroy :: "cfg_bentry \<Rightarrow> cfg_bentry" where
  "cfg_bentry_destroy b =
     b\<lparr>title := cfg_strfree (title b), label := cfg_strfree (label b),
       root := cfg_strfree (root b), kernel := cfg_strfree (kernel b),
       initrd := cfg_strfree (initrd b), cmdline := cfg_strfree (cmdline b),
       parmfile := cfg_strfree (parmfile b), insfile := cfg_strfree (insfile b),
       bootmap := cfg_strfree (bootmap b), pause := cfg_strfree (pause b)\<rparr>"

definition cfg_bentry_copy :: "cfg_bentry \<Rightarrow> cfg_bentry \<Rightarrow> cfg_bentry c_res" where
  "cfg_bentry_copy dest src =
     (let dest = dest\<lparr>locked := locked src, action := action src\<rparr> in
      ebind (cfg_strcpy (title dest) (title src)) (\<lambda>x. let dest = dest\<lparr>title := x\<rparr> in
      ebind (cfg_strcpy (label dest) (label src)) (\<lambda>x. let dest = dest\<lparr>label := x\<rparr> in
      ebind (cfg_strcpy (root dest) (root src)) (\<lambda>x. let dest = dest\<lparr>root := x\<rparr> in
      ebind (cfg_strcpy (kernel dest) (kernel src)) (\<lambda>x. let dest = dest\<lparr>kernel := x\<rparr> in
      ebind (cfg_strcpy (initrd dest) (initrd src)) (\<lambda>x. let dest = dest\<lparr>initrd := x\<rparr> in
      ebind (cfg_strcpy (cmdline dest) (cmdline src)) (\<lambda>x. let dest = dest\<lparr>cmdline := x\<rparr> in
      ebind (cfg_strcpy (parmfile dest) (parmfile src)) (\<lambda>x. let dest = dest\<lparr>parmfile := x\<rparr> in
      ebind (cfg_strcpy (insfile dest) (insfile src)) (\<lambda>x. let dest = dest\<lparr>insfile := x\<rparr> in
      ebind (cfg_strcpy (bootmap dest) (bootmap src)) (\<lambda>x. let dest = dest\<lparr>bootmap := x\<rparr> in
      ebind (cfg_strcpy (pause dest) (pause src)) (\<lambda>x. let dest = dest\<lparr>pause := x\<rparr> in
      Inr dest)))))))))))"

definition cfg_bentry_new :: cfg_bentry where
  "cfg_bentry_new = cfg_bentry_init"

text \<open>\<^verbatim>\<open>cfg_bentry_free\<close> on a pointer to a structure, which is NULL afterwards.\<close>

definition cfg_bentry_free :: "cfg_bentry option \<Rightarrow> cfg_bentry option" where
  "cfg_bentry_free bentry = (if bentry = None then bentry else None)"

definition cfg_bentry_initcopy :: "cfg_bentry \<Rightarrow> cfg_bentry c_res" where
  "cfg_bentry_initcopy src = cfg_bentry_copy cfg_bentry_init src"

subsection \<open>The toplevel structure\<close>

text \<open>
  The two dynamic arrays with their counts. The array is a list, the count a separate member
  as in the source.
\<close>

record cfg_toplevel =
  boot_default :: int
  timeout :: int
  password :: cptr
  ui_list :: "cfg_userinterface list"
  ui_count :: nat
  bentry_list :: "cfg_bentry list"
  bentry_count :: nat

definition cfg_init :: cfg_toplevel where
  "cfg_init =
     \<lparr>boot_default = 0, timeout = 0, password = cfg_strinit, ui_list = [], ui_count = 0,
      bentry_list = [], bentry_count = 0\<rparr>"

definition cfg_new :: cfg_toplevel where
  "cfg_new = cfg_init"

definition cfg_userinterface_list_destroy :: "cfg_toplevel \<Rightarrow> cfg_toplevel" where
  "cfg_userinterface_list_destroy config = config\<lparr>ui_list := [], ui_count := 0\<rparr>"

definition cfg_bentry_list_destroy :: "cfg_toplevel \<Rightarrow> cfg_toplevel" where
  "cfg_bentry_list_destroy config = config\<lparr>bentry_list := [], bentry_count := 0\<rparr>"

definition cfg_destroy :: "cfg_toplevel \<Rightarrow> cfg_toplevel" where
  "cfg_destroy config =
     (let config = cfg_bentry_list_destroy (cfg_userinterface_list_destroy config)
      in config\<lparr>password := cfg_strfree (password config)\<rparr>)"

text \<open>
  \<^verbatim>\<open>realloc\<close> to one more element keeps the first \<^verbatim>\<open>count\<close> elements; the copy goes to index
  \<^verbatim>\<open>count\<close>.
\<close>

definition cfg_add_userinterface ::
  "cfg_toplevel \<Rightarrow> cfg_userinterface \<Rightarrow> cfg_toplevel c_res" where
  "cfg_add_userinterface config ui =
     ebind (cfg_userinterface_initcopy ui) (\<lambda>u.
     Inr (config\<lparr>ui_list := take (ui_count config) (ui_list config) @ [u],
                 ui_count := ui_count config + 1\<rparr>))"

definition cfg_add_bentry :: "cfg_toplevel \<Rightarrow> cfg_bentry \<Rightarrow> cfg_toplevel c_res" where
  "cfg_add_bentry config bentry =
     ebind (cfg_bentry_initcopy bentry) (\<lambda>b.
     Inr (config\<lparr>bentry_list := take (bentry_count config) (bentry_list config) @ [b],
                 bentry_count := bentry_count config + 1\<rparr>))"

definition cfg_copy :: "cfg_toplevel \<Rightarrow> cfg_toplevel \<Rightarrow> cfg_toplevel c_res" where
  "cfg_copy dest src =
     (let dest = cfg_bentry_list_destroy (cfg_userinterface_list_destroy dest) in
      ebind (efold (\<lambda>u d. cfg_add_userinterface d u) (take (ui_count src) (ui_list src)) dest)
        (efold (\<lambda>b d. cfg_add_bentry d b) (take (bentry_count src) (bentry_list src))))"

definition cfg_initcopy :: "cfg_toplevel \<Rightarrow> cfg_toplevel c_res" where
  "cfg_initcopy src = cfg_copy cfg_init src"

subsection \<open>Printing a boot entry\<close>

definition nl :: char where
  "nl = CHR 10"

definition print_if_available :: "cptr \<Rightarrow> cptr \<Rightarrow> string" where
  "print_if_available ident v =
     (case ident of None \<Rightarrow> []
      | Some i \<Rightarrow> (case v of None \<Rightarrow> []
          | Some x \<Rightarrow> if length i = 0 \<or> length x = 0 then [] else i @ '' '' @ x @ [nl]))"

definition cfg_bentry_print :: "cfg_bentry \<Rightarrow> string" where
  "cfg_bentry_print bentry =
     ''boot_entry {'' @ [nl]
     @ print_if_available (Some ''title'') (title bentry)
     @ print_if_available (Some ''label'') (label bentry)
     @ (case action bentry of
          REBOOT \<Rightarrow> ''reboot'' @ [nl]
        | HALT \<Rightarrow> ''halt'' @ [nl]
        | SHELL \<Rightarrow> ''shell'' @ [nl]
        | EXIT \<Rightarrow> ''exit'' @ [nl]
        | _ \<Rightarrow>
            print_if_available (Some ''root'') (root bentry)
            @ print_if_available (Some ''kernel'') (kernel bentry)
            @ print_if_available (Some ''initrd'') (initrd bentry)
            @ print_if_available (Some ''cmdline'') (cmdline bentry)
            @ print_if_available (Some ''parmfile'') (parmfile bentry)
            @ print_if_available (Some ''insfile'') (insfile bentry)
            @ print_if_available (Some ''bootmap'') (bootmap bentry))
     @ ''}'' @ [nl]"

subsection \<open>Well-formedness\<close>

definition ui_wf :: "cfg_userinterface \<Rightarrow> bool" where
  "ui_wf u \<longleftrightarrow> ui_module u \<noteq> None \<and> ui_cmdline u \<noteq> None"

definition bentry_wf :: "cfg_bentry \<Rightarrow> bool" where
  "bentry_wf b \<longleftrightarrow>
     title b \<noteq> None \<and> label b \<noteq> None \<and> root b \<noteq> None \<and> kernel b \<noteq> None \<and> initrd b \<noteq> None
     \<and> cmdline b \<noteq> None \<and> parmfile b \<noteq> None \<and> insfile b \<noteq> None \<and> bootmap b \<noteq> None
     \<and> pause b \<noteq> None"

definition cfg_wf :: "cfg_toplevel \<Rightarrow> bool" where
  "cfg_wf c \<longleftrightarrow>
     password c \<noteq> None \<and> length (ui_list c) = ui_count c \<and> length (bentry_list c) = bentry_count c
     \<and> (\<forall>u \<in> set (ui_list c). ui_wf u) \<and> (\<forall>b \<in> set (bentry_list c). bentry_wf b)"

lemma cfg_wf_init [wf_intros, simp]: "cfg_wf cfg_init"
  by (simp add: cfg_wf_def cfg_init_def cfg_strinit_def)

lemma bentry_wf_init [wf_intros, simp]: "bentry_wf cfg_bentry_init"
  by (simp add: bentry_wf_def cfg_bentry_init_def cfg_strinit_def)

lemma ui_wf_init [wf_intros, simp]: "ui_wf cfg_userinterface_init"
  by (simp add: ui_wf_def cfg_userinterface_init_def cfg_strinit_def)

lemma cfg_wf_list_destroy [wf_intros]:
  "cfg_wf c \<Longrightarrow> cfg_wf (cfg_bentry_list_destroy (cfg_userinterface_list_destroy c))"
  by (simp add: cfg_wf_def cfg_bentry_list_destroy_def cfg_userinterface_list_destroy_def)

text \<open>
  A copy is complete when the source has no \<^verbatim>\<open>NULL\<close> string, and undefined otherwise: every
  member of the destination is overwritten, whatever it held before.
\<close>

lemma cfg_userinterface_copy_wf [cfg_simps]:
  "ui_wf src \<Longrightarrow> cfg_userinterface_copy dest src = Inr src"
  by (auto simp: ui_wf_def cfg_userinterface_copy_def cfg_simps)

lemma cfg_bentry_copy_wf [cfg_simps]: "bentry_wf src \<Longrightarrow> cfg_bentry_copy dest src = Inr src"
  by (auto simp: bentry_wf_def cfg_bentry_copy_def Let_def cfg_simps)

lemma cfg_bentry_copy_undefined [cfg_simps]:
  "\<not> bentry_wf src \<Longrightarrow> cfg_bentry_copy dest src = Inl NullDeref"
  unfolding bentry_wf_def cfg_bentry_copy_def Let_def cfg_strcpy_def
  by (auto split: option.splits)

lemma cfg_add_userinterface_wf [cfg_simps]:
  "cfg_wf c \<Longrightarrow> ui_wf u \<Longrightarrow>
   cfg_add_userinterface c u =
     Inr (c\<lparr>ui_list := ui_list c @ [u], ui_count := ui_count c + 1\<rparr>)"
  by (simp add: cfg_add_userinterface_def cfg_userinterface_initcopy_def cfg_simps cfg_wf_def)

lemma cfg_add_bentry_wf [cfg_simps]:
  "cfg_wf c \<Longrightarrow> bentry_wf b \<Longrightarrow>
   cfg_add_bentry c b =
     Inr (c\<lparr>bentry_list := bentry_list c @ [b], bentry_count := bentry_count c + 1\<rparr>)"
  by (simp add: cfg_add_bentry_def cfg_bentry_initcopy_def cfg_simps cfg_wf_def)

lemma cfg_add_bentry_NULL [cfg_simps]:
  "\<not> bentry_wf b \<Longrightarrow> cfg_add_bentry c b = Inl NullDeref"
  by (simp add: cfg_add_bentry_def cfg_bentry_initcopy_def cfg_simps)

subsection \<open>Arrays that grow by one element\<close>

text \<open>
  The two \<^verbatim>\<open>cfg_add\<close> operations share one contract: the new element goes last, the invariant
  is kept and everything outside the array (\<open>frame\<close>) is untouched. Their clients (\<^verbatim>\<open>cfg_copy\<close>,
  the reader of the environment) add many elements one by one.
\<close>

locale growable =
  fixes add :: "'s \<Rightarrow> 'x \<Rightarrow> 's c_res"
    and elems :: "'s \<Rightarrow> 'x list"
    and ok :: "'x \<Rightarrow> bool"
    and inv :: "'s \<Rightarrow> bool"
    and frame :: "'s \<Rightarrow> 'f"
  assumes add_defined: "inv s \<Longrightarrow> ok x \<Longrightarrow> \<exists>t. add s x = Inr t"
    and add_elems: "inv s \<Longrightarrow> ok x \<Longrightarrow> add s x = Inr t \<Longrightarrow> elems t = elems s @ [x]"
    and add_inv: "inv s \<Longrightarrow> ok x \<Longrightarrow> add s x = Inr t \<Longrightarrow> inv t"
    and add_frame: "inv s \<Longrightarrow> ok x \<Longrightarrow> add s x = Inr t \<Longrightarrow> frame t = frame s"
begin

lemma add_all:
  "inv s \<Longrightarrow> (\<And>x. x \<in> set xs \<Longrightarrow> ok x) \<Longrightarrow>
   \<exists>t. efold (\<lambda>x d. add d x) xs s = Inr t \<and> elems t = elems s @ xs \<and> inv t \<and> frame t = frame s"
proof (induction xs arbitrary: s)
  case Nil
  then show ?case by simp
next
  case (Cons x xs)
  then have "ok x" by simp
  with Cons.prems(1) obtain u where u: "add s x = Inr u" "elems u = elems s @ [x]" "inv u"
      "frame u = frame s"
    using add_defined add_elems add_inv add_frame by blast
  with Cons.IH [of u] Cons.prems(2) show ?case by auto
qed

end

definition ui_frame where
  "ui_frame c = (boot_default c, timeout c, password c, bentry_list c, bentry_count c)"

definition bentry_frame where
  "bentry_frame c = (boot_default c, timeout c, password c, ui_list c, ui_count c)"

interpretation uis: growable cfg_add_userinterface ui_list ui_wf cfg_wf ui_frame
  by unfold_locales (auto simp: cfg_simps ui_frame_def, auto simp: cfg_wf_def)

interpretation entries: growable cfg_add_bentry bentry_list bentry_wf cfg_wf bentry_frame
  by unfold_locales (auto simp: cfg_simps bentry_frame_def, auto simp: cfg_wf_def)

text \<open>
  \<^verbatim>\<open>cfg_copy\<close> transfers the two arrays and nothing else: the default entry, the timeout and the
  password of the destination stay what they were.
\<close>

lemma cfg_copy_lists:
  assumes "cfg_wf dest" and "cfg_wf src"
  shows "cfg_copy dest src =
    Inr (dest\<lparr>ui_list := ui_list src, ui_count := ui_count src,
              bentry_list := bentry_list src, bentry_count := bentry_count src\<rparr>)"
proof -
  let ?d = "cfg_bentry_list_destroy (cfg_userinterface_list_destroy dest)"
  have d: "cfg_wf ?d" using assms(1) by (rule cfg_wf_list_destroy)
  from assms(2) have oks: "\<And>u. u \<in> set (ui_list src) \<Longrightarrow> ui_wf u"
      "\<And>b. b \<in> set (bentry_list src) \<Longrightarrow> bentry_wf b"
    by (auto simp: cfg_wf_def)
  obtain t where t: "efold (\<lambda>u d. cfg_add_userinterface d u) (ui_list src) ?d = Inr t"
      "ui_list t = ui_list ?d @ ui_list src" "cfg_wf t" "ui_frame t = ui_frame ?d"
    using uis.add_all [OF d oks(1)] by blast
  obtain v where v: "efold (\<lambda>b d. cfg_add_bentry d b) (bentry_list src) t = Inr v"
      "bentry_list v = bentry_list t @ bentry_list src" "cfg_wf v" "bentry_frame v = bentry_frame t"
    using entries.add_all [OF t(3) oks(2)] by blast
  from assms(2) have takes: "take (ui_count src) (ui_list src) = ui_list src"
      "take (bentry_count src) (bentry_list src) = bentry_list src"
    by (auto simp: cfg_wf_def)
  have "cfg_copy dest src = Inr v"
    using t(1) v(1) by (simp add: cfg_copy_def takes Let_def)
  moreover have "v = dest\<lparr>ui_list := ui_list src, ui_count := ui_count src,
      bentry_list := bentry_list src, bentry_count := bentry_count src\<rparr>"
    using t v assms
    by (auto simp: ui_frame_def bentry_frame_def cfg_bentry_list_destroy_def
        cfg_userinterface_list_destroy_def cfg_wf_def intro!: cfg_toplevel.equality)
  ultimately show ?thesis by simp
qed

end
