(* ===== verification/ByteIO.thy ===== *)
theory ByteIO
  imports Config
begin

section \<open>Reading from file descriptors\<close>

text \<open>
  Three loops of the program read with \<^verbatim>\<open>read(2)\<close> until a buffer is full: \<^verbatim>\<open>cfg_read\<close>
  (config.c), which stops at the end of the file, and the loops of \<^verbatim>\<open>disk_read_phy_blocks\<close>
  (bootmap\_common.c) and \<^verbatim>\<open>compose_commandline\<close> (loader.c), which do not. What they rely on is
  the contract of \<^verbatim>\<open>read(2)\<close>: it delivers a non-empty piece of what is left, at most as long as
  asked for, an empty one only at the end, or fails.
\<close>

datatype 'b rd = RdErr string | RdOk "'b list"

subsection \<open>read(2)\<close>

text \<open>
  An open file: its contents, the position, an upper bound for one transfer (a read may be
  short) and the position from which the device reports an error, if any.
\<close>

record 'b fd =
  fd_data :: "'b list"
  fd_pos :: nat
  fd_max :: nat
  fd_bad :: "nat option"

definition EIO :: string where
  "EIO = ''Input/output error''"

definition posix_read :: "'b fd \<Rightarrow> nat \<Rightarrow> 'b rd \<times> 'b fd" where
  "posix_read f n =
     (if (case fd_bad f of None \<Rightarrow> False | Some k \<Rightarrow> k \<le> fd_pos f) then (RdErr EIO, f)
      else let bs = take (min n (Suc (fd_max f))) (drop (fd_pos f) (fd_data f))
           in (RdOk bs, f\<lparr>fd_pos := fd_pos f + length bs\<rparr>))"

definition posix_lseek :: "'b fd \<Rightarrow> nat \<Rightarrow> 'b fd" where
  "posix_lseek f pos = f\<lparr>fd_pos := pos\<rparr>"

definition fd_rest :: "'b fd \<Rightarrow> 'b list" where
  "fd_rest f = drop (fd_pos f) (fd_data f)"

lemma fd_rest_lseek [simp]: "fd_rest (posix_lseek f pos) = drop pos (fd_data f)"
  by (simp add: fd_rest_def posix_lseek_def)

text \<open>An open file on which no read fails.\<close>

definition fd_good :: "'b fd \<Rightarrow> bool" where
  "fd_good f \<longleftrightarrow> fd_bad f = None"

subsection \<open>The loops\<close>

function cfg_read_loop ::
  "('s \<Rightarrow> nat \<Rightarrow> 'b rd \<times> 's) \<Rightarrow> 's \<Rightarrow> 'b list \<Rightarrow> nat \<Rightarrow> 'b rd \<times> 's" where
  "cfg_read_loop rd s filled count =
     (case rd s (count - length filled) of
        (RdErr e, t) \<Rightarrow> (RdErr e, t)
      | (RdOk bs, t) \<Rightarrow>
          if bs = [] then (RdOk filled, t)
          else if length (filled @ bs) < count then cfg_read_loop rd t (filled @ bs) count
          else (RdOk (filled @ bs), t))"
  by pat_completeness auto
termination
  by (relation "measure (\<lambda>(rd, s, filled, count). count - length filled)")
     (auto intro: diff_length_append_less [simplified])

declare cfg_read_loop.simps [simp del]

definition cfg_read :: "('s \<Rightarrow> nat \<Rightarrow> 'b rd \<times> 's) \<Rightarrow> 's \<Rightarrow> nat \<Rightarrow> 'b rd \<times> 's" where
  "cfg_read rd s count = cfg_read_loop rd s [] count"

text \<open>
  The loop without a test for the end of the file; None is a run that never ends.
\<close>

partial_function (option) read_full ::
  "('s \<Rightarrow> nat \<Rightarrow> 'b rd \<times> 's) \<Rightarrow> 's \<Rightarrow> 'b list \<Rightarrow> nat \<Rightarrow> ('b rd \<times> 's) option" where
  "read_full rd s buf want =
     (if length buf < want
      then (case rd s (want - length buf) of
              (r, t) \<Rightarrow> (case r of RdErr e \<Rightarrow> Some (RdErr e, t)
                         | RdOk bs \<Rightarrow> read_full rd t (buf @ bs) want))
      else Some (RdOk buf, s))"

subsection \<open>The contract and what the loops achieve under it\<close>

locale byte_source =
  fixes rd :: "'s \<Rightarrow> nat \<Rightarrow> 'b rd \<times> 's"
    and rest :: "'s \<Rightarrow> 'b list"
  assumes rd_prefix: "rd s n = (RdOk bs, t) \<Longrightarrow> rest s = bs @ rest t"
    and rd_bound: "rd s n = (RdOk bs, t) \<Longrightarrow> length bs \<le> n"
    and rd_progress: "rd s n = (RdOk [], t) \<Longrightarrow> n = 0 \<or> rest s = []"
begin

lemma cfg_read_loop_takes:
  "cfg_read_loop rd s filled count = (RdOk bs, t) \<Longrightarrow> length filled \<le> count \<Longrightarrow>
   bs @ rest t = filled @ rest s \<and> bs = take count (filled @ rest s)"
proof (induction "count - length filled" arbitrary: s filled rule: less_induct)
  case less
  obtain r u where r: "rd s (count - length filled) = (r, u)" by fastforce
  with less.prems(1) obtain cs where cs: "r = RdOk cs"
    by (subst (asm) cfg_read_loop.simps) (auto split: rd.splits)
  note step = r [unfolded cs]
  have pre: "rest s = cs @ rest u" and len: "length cs \<le> count - length filled"
    using rd_prefix [OF step] rd_bound [OF step] .
  show ?case
  proof (cases "cs = []")
    case True
    with less.prems(1) step have "bs = filled" "t = u"
      by (subst (asm) cfg_read_loop.simps, simp)+
    with True pre rd_progress [of s "count - length filled" u] step less.prems(2)
    show ?thesis by auto
  next
    case False
    show ?thesis
    proof (cases "length (filled @ cs) < count")
      case True
      with less.prems(1) step False have "cfg_read_loop rd u (filled @ cs) count = (RdOk bs, t)"
        by (subst (asm) cfg_read_loop.simps) simp
      moreover have "count - length (filled @ cs) < count - length filled"
        using False True by (intro diff_length_append_less) auto
      moreover have "length (filled @ cs) \<le> count" using True by simp
      ultimately have "bs @ rest t = (filled @ cs) @ rest u \<and> bs = take count ((filled @ cs) @ rest u)"
        using less.hyps [of "filled @ cs" u] by blast
      then show ?thesis unfolding pre append_assoc .
    next
      case full: False
      with less.prems(1) step False have "bs = filled @ cs" "t = u"
        by (subst (asm) cfg_read_loop.simps, simp)+
      with pre len full less.prems(2) show ?thesis by simp
    qed
  qed
qed

text \<open>\<^verbatim>\<open>cfg_read\<close> delivers what is left of the file, up to \<open>count\<close> bytes.\<close>

lemma cfg_read_takes:
  "cfg_read rd s count = (RdOk bs, t) \<Longrightarrow> bs = take count (rest s) \<and> rest t = drop count (rest s)"
  using cfg_read_loop_takes [of s "[]" count bs t]
  by (auto simp: cfg_read_def) (metis append_take_drop_id same_append_eq)

lemma read_full_takes:
  assumes "read_full rd s buf want = Some (RdOk bs, t)"
  shows "length buf \<le> want \<Longrightarrow>
    want \<le> length buf + length (rest s) \<and> bs = buf @ take (want - length buf) (rest s)
    \<and> rest t = drop (want - length buf) (rest s)"
proof -
  let ?P = "\<lambda>rd' s buf want res. rd' = rd \<longrightarrow> (\<forall>bs t. res = (RdOk bs, t) \<longrightarrow> length buf \<le> want \<longrightarrow>
    want \<le> length buf + length (rest s) \<and> bs = buf @ take (want - length buf) (rest s)
    \<and> rest t = drop (want - length buf) (rest s))"
  have "?P rd s buf want (RdOk bs, t)"
  proof (rule read_full.raw_induct [of ?P, OF _ assms])
    fix rf :: "('s \<Rightarrow> nat \<Rightarrow> 'b rd \<times> 's) \<Rightarrow> 's \<Rightarrow> 'b list \<Rightarrow> nat \<Rightarrow> ('b rd \<times> 's) option"
    fix rd' s buf want res
    assume IH: "\<And>rd' s buf want res. rf rd' s buf want = Some res \<Longrightarrow> ?P rd' s buf want res"
      and eq: "(if length buf < want
        then case rd' s (want - length buf) of
            (r, t) \<Rightarrow> (case r of RdErr e \<Rightarrow> Some (RdErr e, t) | RdOk bs \<Rightarrow> rf rd' t (buf @ bs) want)
        else Some (RdOk buf, s)) = Some res"
    show "?P rd' s buf want res"
    proof (intro impI allI)
      fix bs t
      assume rd': "rd' = rd" and res: "res = (RdOk bs, t)" and le: "length buf \<le> want"
      show "want \<le> length buf + length (rest s) \<and> bs = buf @ take (want - length buf) (rest s)
        \<and> rest t = drop (want - length buf) (rest s)"
      proof (cases "length buf < want")
        case False
        with eq res le show ?thesis by simp
      next
        case True
        obtain cs u where cs: "rd s (want - length buf) = (RdOk cs, u)"
            and rec: "rf rd u (buf @ cs) want = Some (RdOk bs, t)"
          using True eq rd' res by (auto split: prod.splits rd.splits)
        from rd_bound [OF cs] le have "length (buf @ cs) \<le> want" by simp
        with IH [OF rec] have "want \<le> length (buf @ cs) + length (rest u)
            \<and> bs = (buf @ cs) @ take (want - length (buf @ cs)) (rest u)
            \<and> rest t = drop (want - length (buf @ cs)) (rest u)" by blast
        with rd_prefix [OF cs] rd_bound [OF cs] show ?thesis by simp
      qed
    qed
  qed
  then show "length buf \<le> want \<Longrightarrow> ?thesis" by blast
qed

text \<open>With enough bytes left the loop ends.\<close>

lemma read_full_returns:
  "want \<le> length buf + length (rest s) \<Longrightarrow> \<exists>r. read_full rd s buf want = Some r"
proof (induction "want - length buf" arbitrary: s buf rule: less_induct)
  case less
  show ?case
  proof (cases "length buf < want")
    case False
    then show ?thesis by (subst read_full.simps) simp
  next
    case True
    obtain r u where r: "rd s (want - length buf) = (r, u)" by fastforce
    show ?thesis
    proof (cases r)
      case (RdErr e)
      with True r show ?thesis by (subst read_full.simps) simp
    next
      case (RdOk cs)
      note step = r [unfolded RdOk]
      have "cs \<noteq> []" using rd_progress [of s "want - length buf" u] step True less.prems by auto
      with less.hyps [OF diff_length_append_less [OF _ True], of cs u] rd_prefix [OF step] less.prems
      have "\<exists>r. read_full rd u (buf @ cs) want = Some r" by auto
      with True step show ?thesis by (subst read_full.simps) simp
    qed
  qed
qed

text \<open>Past the end it delivers nothing: it spins, or a read fails.\<close>

lemma read_full_past_end:
  assumes "length buf \<le> want" and "length buf + length (rest s) < want"
  shows "read_full rd s buf want = None \<or> (\<exists>e t. read_full rd s buf want = Some (RdErr e, t))"
proof (cases "read_full rd s buf want")
  case (Some res)
  then show ?thesis
    using read_full_takes [of s buf want] assms by (cases res, cases "fst res") auto
qed simp

end

lemma posix_read_RdOk:
  assumes "posix_read f n = (RdOk bs, t)"
  shows "bs = take (min n (Suc (fd_max f))) (fd_rest f)" "fd_rest t = drop (length bs) (fd_rest f)"
  using assms
  by (auto simp: posix_read_def fd_rest_def Let_def add.commute split: if_splits)

interpretation fds: byte_source posix_read fd_rest
proof
  fix f t :: "'b fd" and n bs
  assume read: "posix_read f n = (RdOk bs, t)"
  note r = posix_read_RdOk [OF read]
  have "take (length bs) (fd_rest f) = bs" 
    using r(1) by (metis append_eq_conv_conj append_take_drop_id)
  then show "fd_rest f = bs @ fd_rest t" using r(2) append_take_drop_id by metis
  show "length bs \<le> n" using r(1) by simp
next
  fix f t :: "'b fd" and n
  assume "posix_read f n = (RdOk [], t)"
  from posix_read_RdOk(1) [OF this] show "n = 0 \<or> fd_rest f = []" by (auto dest: sym)
qed

lemma posix_read_good:
  "fd_good f \<Longrightarrow> \<exists>bs t. posix_read f n = (RdOk bs, t) \<and> fd_good t"
  by (auto simp: fd_good_def posix_read_def Let_def)

lemma cfg_read_loop_good:
  "fd_good f \<Longrightarrow> \<exists>bs t. cfg_read_loop posix_read f filled count = (RdOk bs, t) \<and> fd_good t"
proof (induction "count - length filled" arbitrary: f filled rule: less_induct)
  case less
  obtain cs u where r: "posix_read f (count - length filled) = (RdOk cs, u)" "fd_good u"
    using posix_read_good [OF less.prems] by blast
  show ?case
  proof (cases "cs = [] \<or> count \<le> length (filled @ cs)")
    case True
    with r show ?thesis by (subst cfg_read_loop.simps) auto
  next
    case False
    then have "count - length (filled @ cs) < count - length filled"
      by (intro diff_length_append_less) auto
    from less.hyps [OF this r(2)] False r(1) show ?thesis
      by (subst cfg_read_loop.simps) auto
  qed
qed

lemma cfg_read_good: "fd_good f \<Longrightarrow> \<exists>bs t. cfg_read posix_read f count = (RdOk bs, t) \<and> fd_good t"
  using cfg_read_loop_good [of f "[]" count] by (simp add: cfg_read_def)

text \<open>On a file without read errors the loop never ends with an error.\<close>

lemma read_full_good:
  assumes "read_full posix_read f buf want = Some (r, t)" and "fd_good f"
  shows "\<exists>bs. r = RdOk bs"
proof -
  let ?P = "\<lambda>rd' s (buf :: 'b list) (want :: nat) res.
    rd' = (posix_read :: 'b fd \<Rightarrow> nat \<Rightarrow> 'b rd \<times> 'b fd) \<longrightarrow> fd_good s \<longrightarrow> (\<exists>bs. fst res = RdOk bs)"
  have "?P posix_read f buf want (r, t)"
  proof (rule read_full.raw_induct [of ?P, OF _ assms(1)])
    fix rf :: "('b fd \<Rightarrow> nat \<Rightarrow> 'b rd \<times> 'b fd) \<Rightarrow> 'b fd \<Rightarrow> 'b list \<Rightarrow> nat \<Rightarrow> ('b rd \<times> 'b fd) option"
    fix rd' :: "'b fd \<Rightarrow> nat \<Rightarrow> 'b rd \<times> 'b fd"
    fix s :: "'b fd" and buf :: "'b list" and want res
    assume IH: "\<And>rd' s buf want res. rf rd' s buf want = Some res \<Longrightarrow> ?P rd' s buf want res"
      and eq: "(if length buf < want
        then case rd' s (want - length buf) of
            (r, t) \<Rightarrow> (case r of RdErr e \<Rightarrow> Some (RdErr e, t) | RdOk bs \<Rightarrow> rf rd' t (buf @ bs) want)
        else Some (RdOk buf, s)) = Some res"
    show "?P rd' s buf want res"
    proof (intro impI)
      assume rd': "rd' = posix_read" and good: "fd_good s"
      obtain cs u where "posix_read s (want - length buf) = (RdOk cs, u)" "fd_good u"
        using posix_read_good [OF good] by blast
      with eq rd' IH [of posix_read u "buf @ cs" want res]
      show "\<exists>bs. fst res = RdOk bs" by (auto split: if_splits)
    qed
  qed
  with assms(2) show ?thesis by simp
qed

lemma fd_good_lseek [simp]: "fd_good (posix_lseek f pos) = fd_good f"
  by (simp add: fd_good_def posix_lseek_def)

end
