(* ===== verification/Blockptr.thy ===== *)
theory Blockptr
  imports ByteIO
begin

section \<open>Disks and block pointers (bootmap.h, bootmap\_common.c)\<close>

text \<open>
  The boot map that \<^verbatim>\<open>zipl\<close> writes on a disk links its tables by block pointers, packed in one
  of three layouts. This theory holds the disk structure, the unpacked pointer and the
  operations on it: unpacking, the null test, the validity check.

  The boot map only exists on s390, so multi-byte fields are big-endian. The unpacked
  \<^verbatim>\<open>disk_blockptr_t\<close> is a union of two structures; its memory is modelled as the five 32-bit
  words they share, and both views read it, because the null test looks at raw bytes.
\<close>

type_synonym byte = "8 word"

datatype disk_type =
  disk_type_scsi | disk_type_fba | disk_type_diag | disk_type_eckd_classic
| disk_type_eckd_compatible | disk_type_unknown

record hd_geometry =
  heads :: nat
  sectors :: nat
  cylinders :: nat

subsection \<open>The union of pointer layouts\<close>

record disk_blockptr =
  bp0 :: "32 word"
  bp1 :: "32 word"
  bp2 :: "32 word"
  bp3 :: "32 word"
  bp4 :: "32 word"

definition blockptr_zero :: disk_blockptr where
  "blockptr_zero = \<lparr>bp0 = 0, bp1 = 0, bp2 = 0, bp3 = 0, bp4 = 0\<rparr>"

text \<open>Reading the union as \<^verbatim>\<open>struct disk_blockptr_chs\<close>: five \<^verbatim>\<open>int\<close> members.\<close>

definition chs_cyl :: "disk_blockptr \<Rightarrow> int" where "chs_cyl p = sint (bp0 p)"
definition chs_head :: "disk_blockptr \<Rightarrow> int" where "chs_head p = sint (bp1 p)"
definition chs_sec :: "disk_blockptr \<Rightarrow> int" where "chs_sec p = sint (bp2 p)"
definition chs_size :: "disk_blockptr \<Rightarrow> int" where "chs_size p = sint (bp3 p)"
definition chs_blockct :: "disk_blockptr \<Rightarrow> int" where "chs_blockct p = sint (bp4 p)"

text \<open>
  Reading it as \<^verbatim>\<open>struct disk_blockptr_linear\<close>: a 64-bit block number (two words, the high
  one first) and two \<^verbatim>\<open>int\<close> members.
\<close>

definition linear_block :: "disk_blockptr \<Rightarrow> nat" where
  "linear_block p = unat (bp0 p) * 4294967296 + unat (bp1 p)"

definition linear_size :: "disk_blockptr \<Rightarrow> int" where "linear_size p = sint (bp2 p)"
definition linear_blockct :: "disk_blockptr \<Rightarrow> int" where "linear_blockct p = sint (bp3 p)"

definition mk_chs :: "int \<Rightarrow> int \<Rightarrow> int \<Rightarrow> int \<Rightarrow> int \<Rightarrow> disk_blockptr" where
  "mk_chs c h s sz ct =
     \<lparr>bp0 = word_of_int c, bp1 = word_of_int h, bp2 = word_of_int s, bp3 = word_of_int sz,
      bp4 = word_of_int ct\<rparr>"

definition mk_linear :: "nat \<Rightarrow> int \<Rightarrow> int \<Rightarrow> disk_blockptr" where
  "mk_linear blk sz ct =
     \<lparr>bp0 = of_nat (blk div 4294967296), bp1 = of_nat (blk mod 4294967296),
      bp2 = word_of_int sz, bp3 = word_of_int ct, bp4 = 0\<rparr>"

named_theorems blockptr_simps \<open>members of block pointers\<close>

lemma sint_word_of_int32: "int32 i \<Longrightarrow> sint (word_of_int i :: 32 word) = i"
  by (simp add: int32_def int_word_sint)

lemma chs_members [blockptr_simps]:
  "int32 c \<Longrightarrow> chs_cyl (mk_chs c h s sz ct) = c"
  "int32 h \<Longrightarrow> chs_head (mk_chs c h s sz ct) = h"
  "int32 s \<Longrightarrow> chs_sec (mk_chs c h s sz ct) = s"
  "int32 sz \<Longrightarrow> chs_size (mk_chs c h s sz ct) = sz"
  "int32 ct \<Longrightarrow> chs_blockct (mk_chs c h s sz ct) = ct"
  by (simp_all add: chs_cyl_def chs_head_def chs_sec_def chs_size_def chs_blockct_def mk_chs_def
      sint_word_of_int32)

lemma linear_members [blockptr_simps]:
  "blk < 18446744073709551616 \<Longrightarrow> linear_block (mk_linear blk sz ct) = blk"
  "int32 sz \<Longrightarrow> linear_size (mk_linear blk sz ct) = sz"
  "int32 ct \<Longrightarrow> linear_blockct (mk_linear blk sz ct) = ct"
  by (simp_all add: linear_block_def linear_size_def linear_blockct_def mk_linear_def
      sint_word_of_int32 unat_of_nat take_bit_nat_def div_less_iff_less_mult)

record disk =
  disk_fd :: "byte fd"
  disk_type :: disk_type
  phy_block_size :: int
  phy_blocks :: nat
  geo :: hd_geometry
  program_table_ptr :: disk_blockptr

subsection \<open>Packed pointers\<close>

definition be_nat :: "byte list \<Rightarrow> nat" where
  "be_nat bs = foldl (\<lambda>a b. 256 * a + unat b) 0 bs"

definition field :: "nat \<Rightarrow> nat \<Rightarrow> byte list \<Rightarrow> nat" where
  "field off n bs = be_nat (take n (drop off bs))"

lemma be_nat_snoc: "be_nat (bs @ [b]) = 256 * be_nat bs + unat b"
  by (simp add: be_nat_def)

lemma be_nat_bound: "be_nat bs < 256 ^ length bs"
proof (induction bs rule: rev_induct)
  case Nil
  then show ?case by (simp add: be_nat_def)
next
  case (snoc b bs)
  have "unat b < 256" using unsigned_less [of b, where ?'a = nat] by simp
  with snoc show ?case by (simp add: be_nat_snoc)
qed

lemma field_bound: "field off n bs < 256 ^ n"
proof -
  have "field off n bs < 256 ^ length (take n (drop off bs))"
    unfolding field_def by (rule be_nat_bound)
  also have "\<dots> \<le> 256 ^ n" by (rule power_increasing) auto
  finally show ?thesis .
qed

lemma field_bounds: "field off 1 bs < 256" "field off 2 bs < 65536" "field off 4 bs < 4294967296"
    "field off 8 bs < 18446744073709551616"
  using field_bound [of off 1 bs] field_bound [of off 2 bs] field_bound [of off 4 bs]
    field_bound [of off 8 bs] by simp_all

text \<open>The sizes of the packed structures.\<close>

fun blockptr_size :: "disk_type \<Rightarrow> int" where
  "blockptr_size disk_type_scsi = 16"
| "blockptr_size disk_type_fba = 8"
| "blockptr_size disk_type_eckd_classic = 8"
| "blockptr_size disk_type_eckd_compatible = 8"
| "blockptr_size disk_type_diag = 0"
| "blockptr_size disk_type_unknown = 0"

definition get_blockptr_size :: "disk \<Rightarrow> int" where
  "get_blockptr_size disk = blockptr_size (disk_type disk)"

definition get_blockptr_blockct :: "disk \<Rightarrow> disk_blockptr \<Rightarrow> int" where
  "get_blockptr_blockct disk ptr =
     (case disk_type disk of
        disk_type_scsi \<Rightarrow> linear_blockct ptr
      | disk_type_fba \<Rightarrow> linear_blockct ptr
      | disk_type_eckd_classic \<Rightarrow> chs_blockct ptr
      | disk_type_eckd_compatible \<Rightarrow> chs_blockct ptr
      | disk_type_diag \<Rightarrow> 0
      | disk_type_unknown \<Rightarrow> 0)"

text \<open>
  Unpacking reads as many bytes of the buffer as the packed structure has; a shorter buffer is
  read out of bounds.
\<close>

definition read_packed_blockptr :: "disk \<Rightarrow> byte list \<Rightarrow> disk_blockptr c_res" where
  "read_packed_blockptr disk buffer =
     (if length buffer < nat (get_blockptr_size disk) then Inl OutOfBounds
      else Inr (case disk_type disk of
        disk_type_scsi \<Rightarrow>
          mk_linear (field 0 8 buffer) (int (field 8 2 buffer)) (int (field 10 2 buffer))
      | disk_type_eckd_classic \<Rightarrow>
          mk_chs (int (field 0 2 buffer)) (int (field 2 2 buffer)) (int (field 4 1 buffer))
            (int (field 5 2 buffer)) (int (field 7 1 buffer))
      | disk_type_eckd_compatible \<Rightarrow>
          mk_chs (int (field 0 2 buffer)) (int (field 2 2 buffer)) (int (field 4 1 buffer))
            (int (field 5 2 buffer)) (int (field 7 1 buffer))
      | disk_type_fba \<Rightarrow>
          mk_linear (field 0 4 buffer) (int (field 4 2 buffer)) (int (field 6 2 buffer))
      | disk_type_diag \<Rightarrow> blockptr_zero
      | disk_type_unknown \<Rightarrow> blockptr_zero))"

subsection \<open>The null test\<close>

text \<open>The four bytes of a word in memory, the most significant one first.\<close>

definition word_bytes :: "32 word \<Rightarrow> nat list" where
  "word_bytes w = map (\<lambda>k. unat w div 256 ^ k mod 256) [3, 2, 1, 0]"

definition blockptr_bytes :: "disk_blockptr \<Rightarrow> nat list" where
  "blockptr_bytes p = concat (map word_bytes [bp0 p, bp1 p, bp2 p, bp3 p, bp4 p])"

text \<open>
  The test runs over the first \<^verbatim>\<open>get_blockptr_size\<close> bytes of the \<^emph>\<open>unpacked\<close> pointer; the
  size is that of the packed layout.
\<close>

definition blockptr_is_null :: "disk \<Rightarrow> disk_blockptr \<Rightarrow> bool" where
  "blockptr_is_null disk blockptr \<longleftrightarrow>
     (\<forall>b \<in> set (take (nat (get_blockptr_size disk)) (blockptr_bytes blockptr)). b = 0)"

lemma byte_zero_less:
  fixes n m :: nat
  assumes "n div m mod 256 = 0" and "n < 256 * m"
  shows "n < m"
proof -
  have "n div m < 256" using assms(2) by (simp add: less_mult_imp_div_less)
  with assms(1) have "n div m = 0" by simp
  with assms(2) show ?thesis by (auto simp: div_eq_0_iff)
qed

lemma word_bytes_zero: "(\<forall>b \<in> set (word_bytes w). b = 0) \<longleftrightarrow> w = 0"
proof
  assume "\<forall>b \<in> set (word_bytes w). b = 0"
  then have z: "unat w div 256 ^ 3 mod 256 = 0" "unat w div 256 ^ 2 mod 256 = 0"
      "unat w div 256 ^ 1 mod 256 = 0" "unat w div 256 ^ 0 mod 256 = 0"
    by (simp_all add: word_bytes_def)
  have "unat w < 256 * 256 ^ 3" using unsigned_less [of w, where ?'a = nat] by simp
  from byte_zero_less [OF z(1) this] have "unat w < 256 * 256 ^ 2" by simp
  from byte_zero_less [OF z(2) this] have "unat w < 256 * 256 ^ 1" by simp
  from byte_zero_less [OF z(3) this] have "unat w < 256 * 256 ^ 0" by simp
  from byte_zero_less [OF z(4) this] show "w = 0" by (simp add: unat_eq_0)
qed (simp add: word_bytes_def)

lemma length_word_bytes [simp]: "length (word_bytes w) = 4"
  by (simp add: word_bytes_def)

lemma take_blockptr_bytes:
  "take 16 (blockptr_bytes p) = concat (map word_bytes [bp0 p, bp1 p, bp2 p, bp3 p])"
  "take 8 (blockptr_bytes p) = concat (map word_bytes [bp0 p, bp1 p])"
  by (simp_all add: blockptr_bytes_def)

lemma blockptr_is_null_iff:
  "blockptr_is_null disk p \<longleftrightarrow>
     (case disk_type disk of
        disk_type_scsi \<Rightarrow> bp0 p = 0 \<and> bp1 p = 0 \<and> bp2 p = 0 \<and> bp3 p = 0
      | disk_type_fba \<Rightarrow> bp0 p = 0 \<and> bp1 p = 0
      | disk_type_eckd_classic \<Rightarrow> bp0 p = 0 \<and> bp1 p = 0
      | disk_type_eckd_compatible \<Rightarrow> bp0 p = 0 \<and> bp1 p = 0
      | _ \<Rightarrow> True)"
proof -
  have s: "(\<forall>b \<in> set (take (nat (blockptr_size t)) (blockptr_bytes p)). b = 0) \<longleftrightarrow>
     (case t of
        disk_type_scsi \<Rightarrow> bp0 p = 0 \<and> bp1 p = 0 \<and> bp2 p = 0 \<and> bp3 p = 0
      | disk_type_fba \<Rightarrow> bp0 p = 0 \<and> bp1 p = 0
      | disk_type_eckd_classic \<Rightarrow> bp0 p = 0 \<and> bp1 p = 0
      | disk_type_eckd_compatible \<Rightarrow> bp0 p = 0 \<and> bp1 p = 0
      | _ \<Rightarrow> True)" for t
    by (cases t) (simp_all add: take_blockptr_bytes ball_Un word_bytes_zero)
  show ?thesis unfolding blockptr_is_null_def get_blockptr_size_def by (rule s)
qed

subsection \<open>The validity check\<close>

definition check_blockptr :: "disk \<Rightarrow> disk_blockptr \<Rightarrow> int" where
  "check_blockptr disk blockptr =
     (case disk_type disk of
        disk_type_scsi \<Rightarrow>
          if linear_blockct blockptr < 0 \<or> linear_size blockptr \<noteq> phy_block_size disk
             \<or> phy_blocks disk \<le> linear_block blockptr then -1 else 0
      | disk_type_fba \<Rightarrow>
          if linear_blockct blockptr < 0 \<or> linear_size blockptr \<noteq> phy_block_size disk
             \<or> phy_blocks disk \<le> linear_block blockptr then -1 else 0
      | disk_type_eckd_classic \<Rightarrow>
          if chs_blockct blockptr < 0 \<or> chs_size blockptr \<noteq> phy_block_size disk
             \<or> chs_cyl blockptr < 0 \<or> int (cylinders (geo disk)) \<le> chs_cyl blockptr
             \<or> chs_head blockptr < 0 \<or> int (heads (geo disk)) \<le> chs_head blockptr
             \<or> chs_sec blockptr < 1 \<or> int (sectors (geo disk)) < chs_sec blockptr then -1 else 0
      | disk_type_eckd_compatible \<Rightarrow>
          if chs_blockct blockptr < 0 \<or> chs_size blockptr \<noteq> phy_block_size disk
             \<or> chs_cyl blockptr < 0 \<or> int (cylinders (geo disk)) \<le> chs_cyl blockptr
             \<or> chs_head blockptr < 0 \<or> int (heads (geo disk)) \<le> chs_head blockptr
             \<or> chs_sec blockptr < 1 \<or> int (sectors (geo disk)) < chs_sec blockptr then -1 else 0
      | disk_type_diag \<Rightarrow> 0
      | disk_type_unknown \<Rightarrow> 0)"

end
