(* ===== verification/Disk.thy ===== *)
theory Disk
  imports Blockptr
begin

section \<open>Opening a disk and reading blocks (bootmap\_common.c, bootmap\_dasd.c, bootmap\_fcp.c)\<close>

text \<open>
  Functions that return an error message or \<^verbatim>\<open>NULL\<close> and deliver their output through
  pointers have a result of type \<open>run\<close>: None is a call that never returns, \<open>Some (Inl e)\<close> an
  error message or undefined behaviour, \<open>Some (Inr x)\<close> the output of a successful call. Every read
  starts with an absolute \<^verbatim>\<open>lseek\<close>, so the file position is not part of the disk state.
\<close>

datatype cerr = Errmsg string | Undef ub

type_synonym 'a run = "(cerr + 'a) option"

fun lift_c :: "'a c_res \<Rightarrow> cerr + 'a" where
  "lift_c (Inl u) = Inl (Undef u)"
| "lift_c (Inr x) = Inr x"

definition rbind :: "'a run \<Rightarrow> ('a \<Rightarrow> 'b run) \<Rightarrow> 'b run" where
  "rbind m f = (case m of None \<Rightarrow> None | Some (Inl e) \<Rightarrow> Some (Inl e) | Some (Inr x) \<Rightarrow> f x)"

definition ret :: "'a \<Rightarrow> 'a run" where
  "ret x = Some (Inr x)"

definition fail :: "string \<Rightarrow> 'a run" where
  "fail msg = Some (Inl (Errmsg msg))"

definition liftc :: "'a c_res \<Rightarrow> 'a run" where
  "liftc m = Some (lift_c m)"

named_theorems run_simps \<open>rewrite rules for results of calls\<close>

lemma rbind_simps [run_simps, simp]:
  "rbind None f = None"
  "rbind (Some (Inl e)) f = Some (Inl e)"
  "rbind (Some (Inr x)) f = f x"
  "rbind (ret x) f = f x"
  "rbind (fail msg) f = fail msg"
  "rbind (liftc (Inr x)) f = f x"
  "rbind (liftc (Inl u)) f = Some (Inl (Undef u))"
  by (simp_all add: rbind_def ret_def fail_def liftc_def)

lemma liftc_Inr [run_simps, simp]: "liftc (Inr x) = ret x"
  by (simp add: liftc_def ret_def)

lemma rbind_ret_iff:
  "rbind m f = Some (Inr y) \<longleftrightarrow> (\<exists>x. m = Some (Inr x) \<and> f x = Some (Inr y))"
  by (auto simp: rbind_def split: option.splits sum.splits)

subsection \<open>Reading physical blocks\<close>

definition msg_invalid_blockptr :: string where
  "msg_invalid_blockptr = ''Error reading block from disk - invalid block pointer''"

text \<open>The block number a pointer denotes, computed in \<^verbatim>\<open>int\<close> for the CHS layout.\<close>

definition chs_offset :: "disk \<Rightarrow> disk_blockptr \<Rightarrow> int c_res" where
  "chs_offset disk p =
     ebind (c_int (chs_cyl p * int (heads (geo disk)))) (\<lambda>a.
     ebind (c_int (chs_head p + a)) (\<lambda>b.
     ebind (c_int (int (sectors (geo disk)) * b)) (\<lambda>c.
     ebind (c_int (chs_sec p + c)) (\<lambda>d. c_int (d - 1)))))"

definition block_extent :: "disk \<Rightarrow> disk_blockptr \<Rightarrow> (int \<times> int) run" where
  "block_extent disk p =
     (if disk_type disk \<in> {disk_type_scsi, disk_type_fba, disk_type_diag} then
        rbind (liftc (c_int (linear_blockct p + 1))) (\<lambda>n.
        rbind (liftc (c_int (phy_block_size disk * n))) (\<lambda>read_total.
        ret (int (linear_block p), read_total)))
      else if disk_type disk \<in> {disk_type_eckd_classic, disk_type_eckd_compatible} then
        rbind (liftc (chs_offset disk p)) (\<lambda>offset.
        rbind (liftc (c_int (chs_blockct p + 1))) (\<lambda>n.
        rbind (liftc (c_int (phy_block_size disk * n))) (\<lambda>read_total.
        ret (offset, read_total))))
      else fail ''Invalid disk type for physical block read'')"

text \<open>
  \<^verbatim>\<open>lseek\<close> on a block device refuses a position behind its end (\<^verbatim>\<open>EINVAL\<close>).
\<close>

definition disk_read_phy_blocks :: "disk \<Rightarrow> disk_blockptr \<Rightarrow> byte list run" where
  "disk_read_phy_blocks disk blockptr =
     (if check_blockptr disk blockptr \<noteq> 0 then fail msg_invalid_blockptr
      else rbind (block_extent disk blockptr) (\<lambda>(block, read_total).
        let offset = block * phy_block_size disk in
        if offset < 0 \<or> int (length (fd_data (disk_fd disk))) < offset
        then fail ''Error seeking physical block - Invalid argument''
        else (case read_full posix_read (posix_lseek (disk_fd disk) (nat offset)) [] (nat read_total) of
                None \<Rightarrow> None
              | Some (RdErr e, _) \<Rightarrow> fail (''Error reading data from disk - '' @ e)
              | Some (RdOk buffer, _) \<Rightarrow> ret buffer)))"

subsection \<open>The boot record\<close>

definition MAGIC :: "byte list" where
  "MAGIC = [122, 73, 80, 76]"  \<comment> \<open>zIPL\<close>

definition MAGIC_LENGTH :: nat where
  "MAGIC_LENGTH = 4"

definition disk_read_dasd_boot_record :: "disk \<Rightarrow> disk run" where
  "disk_read_dasd_boot_record disk =
     (let blockptr = mk_chs 0 0 2 (phy_block_size disk) 0 in
      rbind (disk_read_phy_blocks disk blockptr) (\<lambda>bootrecord.
      rbind (liftc (read_packed_blockptr disk (drop 4 bootrecord))) (\<lambda>p.
      ret (disk\<lparr>program_table_ptr := p\<rparr>))))"

definition disk_read_scsi_mbr :: "disk \<Rightarrow> disk run" where
  "disk_read_scsi_mbr disk =
     (let blockptr = mk_linear 0 (phy_block_size disk) 0 in
      rbind (disk_read_phy_blocks disk blockptr) (\<lambda>bootrecord.
      if length bootrecord < 512 then liftc (Inl OutOfBounds)
      else if bootrecord ! 510 \<noteq> 85 \<or> bootrecord ! 511 \<noteq> 170
      then fail ''Unsupported SCSI disk layout.''
      else if take MAGIC_LENGTH bootrecord \<noteq> MAGIC
      then fail ''Missing boot signature on SCSI disk.''
      else rbind (liftc (read_packed_blockptr disk (drop 16 bootrecord))) (\<lambda>p.
           ret (disk\<lparr>program_table_ptr := p\<rparr>))))"

subsection \<open>Opening\<close>

text \<open>
  What the kernel answers for a block device: the contents, the answers of the four
  \<^verbatim>\<open>ioctl\<close> calls (None: the call fails; a failing \<^verbatim>\<open>BIODASDINFO\<close> means the device is no DASD) and
  the text of \<^verbatim>\<open>errno\<close>.
\<close>

record device =
  dev_fd :: "byte fd"
  dev_geo :: "hd_geometry option"
  dev_dasd :: "(string \<times> nat) option"
  dev_blksz :: "int option"
  dev_size :: "int option"
  dev_errno :: string

definition dasd_disk_type :: "(string \<times> nat) option \<Rightarrow> disk_type" where
  "dasd_disk_type info =
     (case info of
        Some (ty, FBA_layout) \<Rightarrow>
          if strncmp_eq ty ''FBA '' 4 then disk_type_fba
          else if strncmp_eq ty ''DIAG'' 4 then disk_type_diag
          else if strncmp_eq ty ''ECKD'' 4 then
            (if FBA_layout \<noteq> 0 then disk_type_eckd_classic else disk_type_eckd_compatible)
          else disk_type_unknown
      | None \<Rightarrow> disk_type_scsi)"

definition read_boot_record :: "disk \<Rightarrow> disk run" where
  "read_boot_record disk =
     (case disk_type disk of
        disk_type_scsi \<Rightarrow> disk_read_scsi_mbr disk
      | disk_type_fba \<Rightarrow> disk_read_scsi_mbr disk
      | disk_type_eckd_classic \<Rightarrow> disk_read_dasd_boot_record disk
      | disk_type_eckd_compatible \<Rightarrow> disk_read_dasd_boot_record disk
      | disk_type_diag \<Rightarrow> fail ''Unsupported disk type.''
      | disk_type_unknown \<Rightarrow> fail ''Unsupported disk type.'')"

definition disk_open :: "(string + device) \<Rightarrow> disk run" where
  "disk_open opened =
     (case opened of
        Inl err \<Rightarrow> fail (''Error opening disk - '' @ err)
      | Inr d \<Rightarrow>
        (case dev_geo d of
           None \<Rightarrow> fail (''Error getting disk geometry - '' @ dev_errno d)
         | Some g \<Rightarrow>
        (case dev_blksz d of
           None \<Rightarrow> fail (''Error getting blocksize - '' @ dev_errno d)
         | Some bs \<Rightarrow>
        (case dev_size d of
           None \<Rightarrow> fail (''Error getting device size - '' @ dev_errno d)
         | Some devsize \<Rightarrow>
             rbind (liftc (ebind (c_div bs 512) (c_div devsize))) (\<lambda>blocks.
             rbind (read_boot_record
                \<lparr>disk_fd = dev_fd d, disk_type = dasd_disk_type (dev_dasd d), phy_block_size = bs,
                 phy_blocks = nat blocks, geo = g, program_table_ptr = blockptr_zero\<rparr>) (\<lambda>disk.
             if check_blockptr disk (program_table_ptr disk) \<noteq> 0
             then fail ''Error - invalid program table pointer in boot record''
             else if get_blockptr_blockct disk (program_table_ptr disk) \<noteq> 0
             then fail ''Error - invalid program table pointer in boot record''
             else ret disk))))))"

subsection \<open>What a read delivers\<close>

text \<open>
  The block number and the number of blocks of a pointer, read off its layout without machine
  arithmetic.
\<close>

definition ptr_block :: "disk \<Rightarrow> disk_blockptr \<Rightarrow> nat" where
  "ptr_block disk p =
     (if disk_type disk \<in> {disk_type_eckd_classic, disk_type_eckd_compatible}
      then nat (chs_sec p) - 1
           + sectors (geo disk) * (nat (chs_head p) + nat (chs_cyl p) * heads (geo disk))
      else linear_block p)"

definition ptr_count :: "disk \<Rightarrow> disk_blockptr \<Rightarrow> nat" where
  "ptr_count disk p = nat (get_blockptr_blockct disk p) + 1"

definition ptr_content :: "disk \<Rightarrow> disk_blockptr \<Rightarrow> byte list" where
  "ptr_content disk p =
     take (ptr_count disk p * nat (phy_block_size disk))
       (drop (ptr_block disk p * nat (phy_block_size disk)) (fd_data (disk_fd disk)))"

text \<open>
  A disk as \<^verbatim>\<open>disk_open\<close> leaves it: a supported type, a block size of at least 512 bytes, a geometry
  whose sector count is an \<^verbatim>\<open>int\<close>.
\<close>

definition disk_ok :: "disk \<Rightarrow> bool" where
  "disk_ok disk \<longleftrightarrow>
     disk_type disk \<notin> {disk_type_diag, disk_type_unknown}
     \<and> 512 \<le> phy_block_size disk \<and> phy_block_size disk \<le> 32767
     \<and> cylinders (geo disk) * heads (geo disk) * sectors (geo disk) < 2147483648
     \<and> cylinders (geo disk) < 65536 \<and> heads (geo disk) < 256 \<and> sectors (geo disk) < 256"

text \<open>A pointer whose members have the ranges of the packed fields.\<close>

definition ptr_ok :: "disk \<Rightarrow> disk_blockptr \<Rightarrow> bool" where
  "ptr_ok disk p \<longleftrightarrow> 0 \<le> get_blockptr_blockct disk p \<and> get_blockptr_blockct disk p < 65536"

lemma chs_offset_defined:
  assumes "disk_type disk \<in> {disk_type_eckd_classic, disk_type_eckd_compatible}"
    and ok: "disk_ok disk" and valid: "check_blockptr disk p = 0"
  shows "chs_offset disk p = Inr (int (ptr_block disk p))"
proof -
  let ?h = "heads (geo disk)" and ?s = "sectors (geo disk)" and ?c = "cylinders (geo disk)"
  from assms(1) valid have v: "0 \<le> chs_cyl p" "chs_cyl p < int ?c" "0 \<le> chs_head p"
      "chs_head p < int ?h" "1 \<le> chs_sec p" "chs_sec p \<le> int ?s"
    by (auto simp: check_blockptr_def split: if_splits)
  define c h s where "c = nat (chs_cyl p)" and "h = nat (chs_head p)" and "s = nat (chs_sec p)"
  have chs: "chs_cyl p = int c" "chs_head p = int h" "chs_sec p = int s"
    using v by (simp_all add: c_def h_def s_def)
  have lt: "c < ?c" "h < ?h" "1 \<le> s" "s \<le> ?s" using v chs by auto
  have "c * ?h + ?h \<le> ?c * ?h" using mult_le_mono1 [of "Suc c" ?c ?h] lt by simp
  then have track: "c * ?h + h < ?c * ?h" using lt by linarith
  have "?s * Suc (c * ?h + h) \<le> ?s * (?c * ?h)" using track by (intro mult_le_mono2) simp
  then have sec: "?s * (h + c * ?h) + s \<le> ?c * ?h * ?s" using lt by (simp add: algebra_simps)
  have total: "?c * ?h * ?s < 2147483648" using ok by (simp add: disk_ok_def)
  have "?c * ?h \<le> 65535 * 255" using ok by (intro mult_le_mono) (auto simp: disk_ok_def)
  then have small: "c * ?h < 2147483648" "h + c * ?h < 2147483648" using track by auto
  have i1: "int32 (int c * int ?h)" "int32 (int h + int c * int ?h)"
      "int32 (int ?s * (int h + int c * int ?h))" "int32 (int s + int ?s * (int h + int c * int ?h))"
      "int32 (int s + int ?s * (int h + int c * int ?h) - 1)"
    using small sec total lt
    by (simp_all add: int32_def flip: of_nat_mult of_nat_add)
  have "int (ptr_block disk p) = int s + int ?s * (int h + int c * int ?h) - 1"
    using assms(1) lt by (simp add: ptr_block_def chs of_nat_diff algebra_simps)
  with i1 show ?thesis by (simp add: chs_offset_def chs)
qed

lemma block_extent_defined:
  assumes ok: "disk_ok disk" and valid: "check_blockptr disk p = 0" and p: "ptr_ok disk p"
  shows "block_extent disk p
    = ret (int (ptr_block disk p), phy_block_size disk * int (ptr_count disk p))"
proof -
  have pbs: "512 \<le> phy_block_size disk" "phy_block_size disk \<le> 32767"
    using ok by (auto simp: disk_ok_def)
  define n where "n = get_blockptr_blockct disk p"
  have n: "0 \<le> n" "n < 65536" using p by (auto simp: ptr_ok_def n_def)
  have "phy_block_size disk * (n + 1) \<le> 32767 * 65536"
    using pbs n by (intro mult_mono) auto
  moreover have "0 \<le> phy_block_size disk * (n + 1)" using pbs n by simp
  ultimately have i: "int32 (n + 1)" "int32 (phy_block_size disk * (n + 1))"
    using n by (auto simp: int32_def)
  have cnt: "int (ptr_count disk p) = n + 1" using n by (simp add: ptr_count_def n_def)
  show ?thesis
  proof (cases "disk_type disk \<in> {disk_type_eckd_classic, disk_type_eckd_compatible}")
    case True
    then have "chs_blockct p = n" by (auto simp: n_def get_blockptr_blockct_def)
    with True i cnt chs_offset_defined [OF True ok valid] show ?thesis
      by (auto simp: block_extent_def)
  next
    case False
    with ok have t: "disk_type disk \<in> {disk_type_scsi, disk_type_fba}"
      by (cases "disk_type disk") (auto simp: disk_ok_def)
    then have "linear_blockct p = n" by (auto simp: n_def get_blockptr_blockct_def)
    with t i cnt show ?thesis
      by (auto simp: block_extent_def ptr_block_def)
  qed
qed

lemma disk_read_unfold:
  assumes "disk_ok disk" and "check_blockptr disk p = 0" and "ptr_ok disk p"
    and "ptr_block disk p * nat (phy_block_size disk) \<le> length (fd_data (disk_fd disk))"
  shows "disk_read_phy_blocks disk p =
    (case read_full posix_read
       (posix_lseek (disk_fd disk) (ptr_block disk p * nat (phy_block_size disk))) []
       (ptr_count disk p * nat (phy_block_size disk)) of
       None \<Rightarrow> None
     | Some (RdErr e, _) \<Rightarrow> fail (''Error reading data from disk - '' @ e)
     | Some (RdOk buffer, _) \<Rightarrow> ret buffer)"
proof -
  from assms(1) obtain k where k: "phy_block_size disk = int k"
    by (metis disk_ok_def order_trans zero_le_imp_eq_int zero_le_numeral)
  with assms(4) show ?thesis
    using block_extent_defined [OF assms(1-3)] assms(2)
    by (simp add: disk_read_phy_blocks_def mult.commute nat_mult_distrib flip: of_nat_mult)
qed

text \<open>
  A valid pointer whose blocks lie on the device is read completely: the result is exactly the
  addressed bytes, however the kernel splits the transfer.
\<close>

lemma disk_read_delivers:
  assumes "disk_ok disk" and "check_blockptr disk p = 0" and "ptr_ok disk p"
    and "fd_good (disk_fd disk)"
    and fits: "(ptr_block disk p + ptr_count disk p) * nat (phy_block_size disk)
      \<le> length (fd_data (disk_fd disk))"
  shows "disk_read_phy_blocks disk p = ret (ptr_content disk p)"
proof -
  let ?k = "nat (phy_block_size disk)"
  let ?f = "posix_lseek (disk_fd disk) (ptr_block disk p * ?k)"
  have le: "ptr_block disk p * ?k + ptr_count disk p * ?k \<le> length (fd_data (disk_fd disk))"
    using fits by (simp add: add_mult_distrib)
  then have "ptr_count disk p * ?k \<le> length ([] :: byte list) + length (fd_rest ?f)"
    by simp
  from fds.read_full_returns [OF this]
  obtain r t where r: "read_full posix_read ?f [] (ptr_count disk p * ?k) = Some (r, t)"
    by auto
  with assms(4) obtain bs where bs: "r = RdOk bs" using read_full_good [OF r] by auto
  have "bs = ptr_content disk p"
    using fds.read_full_takes [OF r [unfolded bs]] by (simp add: ptr_content_def)
  with r bs le show ?thesis
    using disk_read_unfold [OF assms(1-3)] by simp
qed

text \<open>
  The check looks at the first block only. When the following blocks run past the end of the
  device, the loop that waits for the missing bytes never ends.
\<close>

lemma disk_read_spins:
  assumes "disk_ok disk" and "check_blockptr disk p = 0" and "ptr_ok disk p"
    and "fd_good (disk_fd disk)"
    and start: "ptr_block disk p * nat (phy_block_size disk) \<le> length (fd_data (disk_fd disk))"
    and past: "length (fd_data (disk_fd disk))
      < (ptr_block disk p + ptr_count disk p) * nat (phy_block_size disk)"
  shows "disk_read_phy_blocks disk p = None"
proof -
  let ?k = "nat (phy_block_size disk)"
  let ?f = "posix_lseek (disk_fd disk) (ptr_block disk p * ?k)"
  have "length (fd_rest ?f) < ptr_count disk p * ?k"
    using start past by (simp add: add_mult_distrib)
  then have "read_full posix_read ?f [] (ptr_count disk p * ?k) = None
      \<or> (\<exists>e t. read_full posix_read ?f [] (ptr_count disk p * ?k) = Some (RdErr e, t))"
    by (intro fds.read_full_past_end) auto
  then have "read_full posix_read ?f [] (ptr_count disk p * ?k) = None"
    using read_full_good [of ?f "[]" "ptr_count disk p * ?k"] assms(4) by fastforce
  then show ?thesis using disk_read_unfold [OF assms(1-3) start] by simp
qed

end
