(* ===== verification/BootTables.thy ===== *)
theory BootTables
  imports Disk
begin

section \<open>The tables of the boot map (bootmap\_common.c)\<close>

text \<open>
  The program table, the component table of a program, and the segment tables of a component.
  The component table is converted with a count computed from the size of a block pointer,
  although its entries have 32 bytes: the conversion reads past the block it has loaded. What
  lies there is a parameter (\<open>heap\<close>, the bytes that follow the buffer). The converted entries are
  written into a heap block that has been allocated for block pointers; an entry that does not fit
  into it is undefined behaviour, the value \<open>OutOfBounds\<close>.
\<close>

subsection \<open>The program table\<close>

definition get_program_table_size :: "disk \<Rightarrow> int c_res" where
  "get_program_table_size disk =
     ebind (c_div 512 (get_blockptr_size disk)) (\<lambda>n. Inr (n - 1))"

text \<open>Converting \<open>n\<close> entries from offset \<open>off\<close> on.\<close>

fun read_entries :: "disk \<Rightarrow> byte list \<Rightarrow> nat \<Rightarrow> disk_blockptr list c_res" where
  "read_entries disk buffer 0 = Inr []"
| "read_entries disk buffer (Suc n) =
     ebind (read_packed_blockptr disk buffer) (\<lambda>p.
     ebind (read_entries disk (drop (nat (get_blockptr_size disk)) buffer) n) (\<lambda>ps.
     Inr (p # ps)))"

definition get_program_table :: "disk \<Rightarrow> disk_blockptr list run" where
  "get_program_table disk =
     (if get_blockptr_blockct disk (program_table_ptr disk) \<noteq> 0
      then fail ''Error - invalid program table pointer''
      else rbind (disk_read_phy_blocks disk (program_table_ptr disk)) (\<lambda>buffer.
        if take MAGIC_LENGTH buffer \<noteq> MAGIC
        then fail ''Error - invalid magic number in program table''
        else rbind (liftc (get_program_table_size disk)) (\<lambda>table_size.
             liftc (read_entries disk (drop (nat (get_blockptr_size disk)) buffer)
               (nat table_size)))))"

subsection \<open>The component table\<close>

record component =
  segment_ptr :: disk_blockptr
  comp_type :: nat
  address :: nat

definition component_execute :: nat where
  "component_execute = 1"

definition component_entry_size :: nat where
  "component_entry_size = 32"

definition get_component_table_size :: "disk \<Rightarrow> int c_res" where
  "get_component_table_size disk =
     ebind (c_div (phy_block_size disk) (get_blockptr_size disk)) (\<lambda>n. Inr (n - 1))"

text \<open>The byte at offset \<open>i\<close> from the start of a buffer, inside it or behind it.\<close>

definition heap_byte :: "byte list \<Rightarrow> (nat \<Rightarrow> byte) \<Rightarrow> nat \<Rightarrow> byte" where
  "heap_byte buffer heap i =
     (if i < length buffer then buffer ! i else heap (i - length buffer))"

definition component_entry :: "byte list \<Rightarrow> (nat \<Rightarrow> byte) \<Rightarrow> nat \<Rightarrow> byte list" where
  "component_entry buffer heap n =
     map (heap_byte buffer heap)
       [n * component_entry_size..<n * component_entry_size + component_entry_size]"

definition unpack_component :: "disk \<Rightarrow> byte list \<Rightarrow> component c_res" where
  "unpack_component disk e =
     ebind (read_packed_blockptr disk e) (\<lambda>p.
     Inr \<lparr>segment_ptr = p, comp_type = field 23 1 e, address = field 24 8 e\<rparr>)"

text \<open>The sizes of the C types \<^verbatim>\<open>disk_blockptr_t\<close> and \<^verbatim>\<open>struct component\<close>.\<close>

definition sizeof_blockptr :: int where "sizeof_blockptr = 24"
definition sizeof_component :: int where "sizeof_component = 40"

text \<open>The bytes allocated for the converted table and those its entries take.\<close>

definition component_table_allocated :: "disk \<Rightarrow> int c_res" where
  "component_table_allocated disk =
     ebind (get_component_table_size disk) (\<lambda>n. Inr (sizeof_blockptr * n))"

definition component_table_needed :: "disk \<Rightarrow> int c_res" where
  "component_table_needed disk =
     ebind (get_component_table_size disk) (\<lambda>n. Inr (sizeof_component * n))"

text \<open>
  The loop over the entries \<open>ns\<close>: entry \<open>n\<close> of the result takes the bytes up to
  \<open>sizeof_component * (n + 1)\<close> of a heap block of \<open>room\<close> bytes.
\<close>

fun convert_components ::
  "(nat \<Rightarrow> byte) \<Rightarrow> disk \<Rightarrow> byte list \<Rightarrow> int \<Rightarrow> nat list \<Rightarrow> component list c_res" where
  "convert_components heap disk buffer room [] = Inr []"
| "convert_components heap disk buffer room (n # ns) =
     ebind (unpack_component disk (component_entry buffer heap (n + 1))) (\<lambda>c.
     if room < sizeof_component * int (n + 1) then Inl OutOfBounds
     else ebind (convert_components heap disk buffer room ns) (\<lambda>cs. Inr (c # cs)))"

definition get_component_table ::
  "(nat \<Rightarrow> byte) \<Rightarrow> disk \<Rightarrow> disk_blockptr \<Rightarrow> (component list \<times> nat) run" where
  "get_component_table heap disk table_ptr =
     (if get_blockptr_blockct disk table_ptr \<noteq> 0
      then fail ''Error - invalid component table pointer''
      else rbind (disk_read_phy_blocks disk table_ptr) (\<lambda>buffer.
        if take MAGIC_LENGTH buffer \<noteq> MAGIC
        then fail ''Error - invalid magic number in component table''
        else if length buffer < 5 then liftc (Inl OutOfBounds)
        else rbind (liftc (get_component_table_size disk)) (\<lambda>table_size.
             rbind (liftc (component_table_allocated disk)) (\<lambda>room.
             rbind (liftc (convert_components heap disk buffer room [0..<nat table_size])) (\<lambda>component_table.
             ret (component_table, unat (buffer ! 4)))))))"

subsection \<open>Loading a component\<close>

definition table_pointers :: "disk \<Rightarrow> disk_blockptr \<Rightarrow> int c_res" where
  "table_pointers disk p =
     ebind (c_int (phy_block_size disk * (get_blockptr_blockct disk p + 1))) (\<lambda>n.
     c_div n (get_blockptr_size disk))"

definition segment_entry :: "disk \<Rightarrow> byte list \<Rightarrow> nat \<Rightarrow> disk_blockptr c_res" where
  "segment_entry disk segment_table entry =
     read_packed_blockptr disk (drop (entry * nat (get_blockptr_size disk)) segment_table)"

text \<open>
  One turn of the loop: load the code segment, advance to the next entry, follow the link to the
  next segment table when the last entry of the current one is not null. The result is the state
  of the next turn, \<open>Inl\<close> the finished buffer.
\<close>

type_synonym copy_state = "byte list \<times> int \<times> nat \<times> disk_blockptr \<times> byte list"

definition copy_step :: "disk \<Rightarrow> copy_state \<Rightarrow> (byte list + copy_state) run" where
  "copy_step disk st =
     (let (segment_table, pointers, entry, code_ptr, buffer) = st in
      rbind (liftc (ebind (c_int (phy_block_size disk * (get_blockptr_blockct disk code_ptr + 1)))
         (\<lambda>n. c_int (int (length buffer) + n)))) (\<lambda>buffer_size.
      rbind (disk_read_phy_blocks disk code_ptr) (\<lambda>code.
      let buffer = buffer @ code; entry = entry + 1 in
      rbind (liftc (segment_entry disk segment_table entry)) (\<lambda>code_ptr.
      if int entry = pointers - 1 \<and> \<not> blockptr_is_null disk code_ptr then
        rbind (disk_read_phy_blocks disk code_ptr) (\<lambda>segment_table.
        rbind (liftc (table_pointers disk code_ptr)) (\<lambda>pointers.
        rbind (liftc (segment_entry disk segment_table 0)) (\<lambda>code_ptr.
        if blockptr_is_null disk code_ptr then ret (Inl buffer)
        else ret (Inr (segment_table, pointers, 0, code_ptr, buffer)))))
      else if blockptr_is_null disk code_ptr then ret (Inl buffer)
      else ret (Inr (segment_table, pointers, entry, code_ptr, buffer))))))"

partial_function (option) copy_loop :: "disk \<Rightarrow> copy_state \<Rightarrow> byte list run" where
  "copy_loop disk st =
     (case copy_step disk st of
        None \<Rightarrow> None
      | Some r \<Rightarrow>
          (case r of Inl e \<Rightarrow> Some (Inl e)
           | Inr s \<Rightarrow> (case s of Inl buffer \<Rightarrow> Some (Inr buffer)
                       | Inr st' \<Rightarrow> copy_loop disk st')))"

definition copy_component_to_memory :: "disk \<Rightarrow> disk_blockptr \<Rightarrow> byte list run" where
  "copy_component_to_memory disk component_ptr =
     rbind (disk_read_phy_blocks disk component_ptr) (\<lambda>segment_table.
     rbind (liftc (table_pointers disk component_ptr)) (\<lambda>pointers.
     rbind (liftc (segment_entry disk segment_table 0)) (\<lambda>code_ptr.
     copy_loop disk (segment_table, pointers, 0, code_ptr, []))))"

subsection \<open>Identifying the boot objects\<close>

definition PSW_ADDRESS_MASK :: nat where "PSW_ADDRESS_MASK = 2147483647"
definition PSW_DISABLED_WAIT :: nat where "PSW_DISABLED_WAIT = 2814749767106560"

record boot_objects =
  bo_kernel :: disk_blockptr
  bo_initrd :: disk_blockptr
  bo_initrd_len :: int
  bo_parmfile :: disk_blockptr

definition no_objects :: boot_objects where
  "no_objects = \<lparr>bo_kernel = blockptr_zero, bo_initrd = blockptr_zero, bo_initrd_len = 0,
     bo_parmfile = blockptr_zero\<rparr>"

definition find_address :: "component list \<Rightarrow> nat \<Rightarrow> nat \<Rightarrow> nat option" where
  "find_address ct comp_num a = find_index (\<lambda>c. address c = a) (take comp_num ct)"

text \<open>
  The outputs are delivered together with the message: they are what the caller sees also when the
  call fails. Assigning the 64-bit length to an \<^verbatim>\<open>int\<close> keeps its low 32 bits.
\<close>

definition identify_boot_objects ::
  "disk \<Rightarrow> component list \<Rightarrow> (string option \<times> boot_objects) run" where
  "identify_boot_objects disk ct =
     (case find_index (\<lambda>c. comp_type c = component_execute) ct of
        None \<Rightarrow> ret (Some ''Error - invalid component table found'', no_objects)
      | Some 0 \<Rightarrow> ret (Some ''Error - invalid component table found'', no_objects)
      | Some (Suc k) \<Rightarrow>
          if address (ct ! Suc k) = PSW_DISABLED_WAIT
          then ret (Some ''Error - data segment load is not supported'', no_objects)
          else (case copy_component_to_memory disk (segment_ptr (ct ! k)) of
            None \<Rightarrow> None
          | Some (Inl (Errmsg m)) \<Rightarrow> ret (Some m, no_objects)
          | Some (Inl (Undef u)) \<Rightarrow> Some (Inl (Undef u))
          | Some (Inr buffer) \<Rightarrow>
              if length buffer < 32 then liftc (Inl OutOfBounds)
              else (case find_address ct (Suc k) (field 24 8 buffer mod (PSW_ADDRESS_MASK + 1)) of
                  None \<Rightarrow> ret (Some ''Error - invalid component table found'', no_objects)
                | Some n \<Rightarrow>
                    let bo = no_objects\<lparr>bo_kernel := segment_ptr (ct ! n)\<rparr>;
                        bo = (case find_address ct (Suc k) (field 8 8 buffer) of
                            None \<Rightarrow> bo
                          | Some i \<Rightarrow> bo\<lparr>bo_initrd := segment_ptr (ct ! i),
                              bo_initrd_len := sint (word_of_int (int (field 16 8 buffer)) :: 32 word)\<rparr>);
                        bo = (case find_address ct (Suc k) (field 0 8 buffer) of
                            None \<Rightarrow> bo
                          | Some i \<Rightarrow> bo\<lparr>bo_parmfile := segment_ptr (ct ! i)\<rparr>)
                    in ret (None, bo))))"

subsection \<open>Unpacking inside and outside the buffer\<close>

lemma get_blockptr_size_bounds:
  "disk_ok disk \<Longrightarrow> 8 \<le> get_blockptr_size disk \<and> get_blockptr_size disk \<le> 16"
  by (cases "disk_type disk") (simp_all add: disk_ok_def get_blockptr_size_def)

lemma read_packed_blockptr_in:
  "nat (get_blockptr_size disk) \<le> length buffer \<Longrightarrow> \<exists>q. read_packed_blockptr disk buffer = Inr q"
  by (simp add: read_packed_blockptr_def)

lemma read_packed_blockptr_ptr_ok:
  assumes "read_packed_blockptr disk buffer = Inr q"
  shows "ptr_ok disk q"
proof -
  have b: "int (field 7 1 buffer) < 65536" "int (field 10 2 buffer) < 65536"
      "int (field 6 2 buffer) < 65536"
    using field_bounds [of 7 buffer] field_bounds [of 10 buffer] field_bounds [of 6 buffer]
    by simp_all
  then have i: "int32 (int (field 7 1 buffer))" "int32 (int (field 10 2 buffer))"
      "int32 (int (field 6 2 buffer))"
    by simp_all
  show ?thesis
    using assms b by (cases "disk_type disk")
      (auto simp: read_packed_blockptr_def ptr_ok_def get_blockptr_blockct_def blockptr_simps i
        split: if_splits)
qed

lemma read_entries_defined:
  "n * nat (get_blockptr_size disk) \<le> length buffer \<Longrightarrow>
   \<exists>ps. read_entries disk buffer n = Inr ps \<and> length ps = n \<and> (\<forall>p \<in> set ps. ptr_ok disk p)"
proof (induction n arbitrary: buffer)
  case (Suc n)
  then obtain p where p: "read_packed_blockptr disk buffer = Inr p"
    using read_packed_blockptr_in [of disk buffer] by auto
  from Suc.prems have "n * nat (get_blockptr_size disk)
      \<le> length (drop (nat (get_blockptr_size disk)) buffer)" by simp
  from Suc.IH [OF this] p read_packed_blockptr_ptr_ok [OF p] show ?case by auto
qed simp

text \<open>A disk that can be read at a pointer: valid, and all its blocks on the device.\<close>

definition readable :: "disk \<Rightarrow> disk_blockptr \<Rightarrow> bool" where
  "readable disk p \<longleftrightarrow> check_blockptr disk p = 0 \<and> ptr_ok disk p
     \<and> (ptr_block disk p + ptr_count disk p) * nat (phy_block_size disk)
        \<le> length (fd_data (disk_fd disk))"

definition disk_good :: "disk \<Rightarrow> bool" where
  "disk_good disk \<longleftrightarrow> disk_ok disk \<and> fd_good (disk_fd disk)"

lemma disk_read_readable:
  "disk_good disk \<Longrightarrow> readable disk p \<Longrightarrow> disk_read_phy_blocks disk p = ret (ptr_content disk p)"
  by (auto simp: disk_good_def readable_def intro: disk_read_delivers)

lemma length_ptr_content:
  "readable disk p \<Longrightarrow> length (ptr_content disk p) = ptr_count disk p * nat (phy_block_size disk)"
  by (auto simp: readable_def ptr_content_def add_mult_distrib)

lemma ptr_count_pos [simp]: "0 < ptr_count disk p"
  by (simp add: ptr_count_def)

lemma content_size_int32:
  assumes "disk_ok disk" and "ptr_ok disk p"
  shows "phy_block_size disk * (get_blockptr_blockct disk p + 1)
      = int (ptr_count disk p * nat (phy_block_size disk))"
    and "int32 (phy_block_size disk * (get_blockptr_blockct disk p + 1))"
proof -
  let ?b = "phy_block_size disk" and ?n = "get_blockptr_blockct disk p"
  have b: "0 \<le> ?b" "?b \<le> 32767" and n: "0 \<le> ?n" "?n < 65536"
    using assms by (auto simp: disk_ok_def ptr_ok_def)
  then show "?b * (?n + 1) = int (ptr_count disk p * nat ?b)"
    by (simp add: ptr_count_def distrib_left mult.commute)
  have "?b * (?n + 1) \<le> 32767 * 65536" by (rule mult_mono) (use b n in auto)
  then show "int32 (?b * (?n + 1))" using b n by simp
qed

subsection \<open>Segment tables as linked lists\<close>

text \<open>
  The pointers a segment table holds, and the list of code segments that a chain of segment tables
  stores: the pointers before the first null one; the last entry of a full table links to the
  next table.
\<close>

definition seg_entry :: "disk \<Rightarrow> byte list \<Rightarrow> nat \<Rightarrow> disk_blockptr" where
  "seg_entry disk t k =
     (case segment_entry disk t k of Inl _ \<Rightarrow> blockptr_zero | Inr q \<Rightarrow> q)"

definition seg_slots :: "disk \<Rightarrow> disk_blockptr \<Rightarrow> nat" where
  "seg_slots disk p = ptr_count disk p * nat (phy_block_size disk) div nat (get_blockptr_size disk)"

definition seg_table :: "disk \<Rightarrow> disk_blockptr \<Rightarrow> disk_blockptr list" where
  "seg_table disk p = map (seg_entry disk (ptr_content disk p)) [0..<seg_slots disk p]"

inductive stores :: "disk \<Rightarrow> disk_blockptr \<Rightarrow> disk_blockptr list \<Rightarrow> bool" for disk where
  stores_end: "\<lbrakk>readable disk p; seg_table disk p = ps @ q # rest;
     \<forall>r \<in> set ps. \<not> blockptr_is_null disk r; blockptr_is_null disk q\<rbrakk> \<Longrightarrow> stores disk p ps"
| stores_link: "\<lbrakk>readable disk p; seg_table disk p = ps @ [q];
     \<forall>r \<in> set ps. \<not> blockptr_is_null disk r; \<not> blockptr_is_null disk q; stores disk q qs\<rbrakk>
     \<Longrightarrow> stores disk p (ps @ qs)"

lemma seg_slots_fit: "seg_slots disk p * nat (get_blockptr_size disk)
    \<le> ptr_count disk p * nat (phy_block_size disk)"
  by (simp add: seg_slots_def)

lemma seg_slots_two:
  assumes "disk_ok disk"
  shows "2 \<le> seg_slots disk p"
proof -
  have s: "0 < nat (get_blockptr_size disk)" "nat (get_blockptr_size disk) \<le> 16"
    using get_blockptr_size_bounds [OF assms] by auto
  have "512 \<le> nat (phy_block_size disk)" using assms by (auto simp: disk_ok_def)
  then have "1 * 512 \<le> ptr_count disk p * nat (phy_block_size disk)"
    by (intro mult_le_mono) (simp_all add: Suc_leI)
  moreover have "2 * nat (get_blockptr_size disk) \<le> 512" using s by simp
  ultimately have "2 * nat (get_blockptr_size disk) \<le> ptr_count disk p * nat (phy_block_size disk)"
    by linarith
  then show ?thesis using s by (simp add: seg_slots_def less_eq_div_iff_mult_less_eq)
qed

lemma table_pointers_defined:
  assumes "disk_ok disk" and "ptr_ok disk p"
  shows "table_pointers disk p = Inr (int (seg_slots disk p))"
  using get_blockptr_size_bounds [OF assms(1)] content_size_int32 [OF assms]
  by (simp add: table_pointers_def c_div_nonneg seg_slots_def zdiv_int)

lemma segment_entry_defined:
  assumes "readable disk p" and "k < seg_slots disk p"
  shows "segment_entry disk (ptr_content disk p) k = Inr (seg_table disk p ! k)"
    and "ptr_ok disk (seg_table disk p ! k)"
proof -
  let ?s = "nat (get_blockptr_size disk)"
  have "(k + 1) * ?s \<le> seg_slots disk p * ?s" using assms(2) by (intro mult_le_mono1) simp
  also have "\<dots> \<le> length (ptr_content disk p)"
    using seg_slots_fit by (simp add: length_ptr_content [OF assms(1)])
  finally have "?s \<le> length (drop (k * ?s) (ptr_content disk p))" by simp
  from read_packed_blockptr_in [OF this]
  obtain q where q: "segment_entry disk (ptr_content disk p) k = Inr q"
    by (auto simp: segment_entry_def)
  then have "seg_table disk p ! k = q" using assms(2) by (simp add: seg_table_def seg_entry_def)
  with q show "segment_entry disk (ptr_content disk p) k = Inr (seg_table disk p ! k)"
    and "ptr_ok disk (seg_table disk p ! k)"
    using read_packed_blockptr_ptr_ok by (auto simp: segment_entry_def)
qed

lemma length_seg_table [simp]: "length (seg_table disk p) = seg_slots disk p"
  by (simp add: seg_table_def)

subsection \<open>Following the chain\<close>

definition segment_bytes :: "disk \<Rightarrow> disk_blockptr list \<Rightarrow> byte list" where
  "segment_bytes disk ps = concat (map (ptr_content disk) ps)"

lemma segment_bytes_simps [simp]:
  "segment_bytes disk [] = []"
  "segment_bytes disk (p # ps) = ptr_content disk p @ segment_bytes disk ps"
  by (simp_all add: segment_bytes_def)

definition table_state :: "disk \<Rightarrow> disk_blockptr \<Rightarrow> nat \<Rightarrow> byte list \<Rightarrow> copy_state" where
  "table_state disk p k buf =
     (ptr_content disk p, int (seg_slots disk p), k, seg_table disk p ! k, buf)"

lemma copy_step_readable:
  assumes "disk_good disk" and "readable disk p" and "readable disk (seg_table disk p ! k)"
    and k: "k + 1 < seg_slots disk p"
    and len: "length buf + length (ptr_content disk (seg_table disk p ! k)) < 2147483648"
  defines "buf' \<equiv> buf @ ptr_content disk (seg_table disk p ! k)"
    and "q \<equiv> seg_table disk p ! (k + 1)"
  shows "copy_step disk (table_state disk p k buf) =
     (if blockptr_is_null disk q then ret (Inl buf')
      else if k + 2 = seg_slots disk p then
        rbind (disk_read_phy_blocks disk q) (\<lambda>t.
        rbind (liftc (table_pointers disk q)) (\<lambda>n.
        rbind (liftc (segment_entry disk t 0)) (\<lambda>c.
        if blockptr_is_null disk c then ret (Inl buf') else ret (Inr (t, n, 0, c, buf')))))
      else ret (Inr (table_state disk p (k + 1) buf')))"
proof -
  let ?c = "seg_table disk p ! k"
  have ok: "disk_ok disk" "ptr_ok disk ?c"
    using assms by (auto simp: disk_good_def readable_def)
  note sz = content_size_int32 [OF ok]
  have l: "int (ptr_count disk ?c * nat (phy_block_size disk)) = int (length (ptr_content disk ?c))"
    by (simp add: length_ptr_content [OF assms(3)])
  have "int32 (int (length buf) + int (length (ptr_content disk ?c)))"
    using len by (intro int32_small) auto
  then have size: "ebind (c_int (phy_block_size disk * (get_blockptr_blockct disk ?c + 1)))
      (\<lambda>n. c_int (int (length buf) + n)) = Inr (int (length buf) + int (length (ptr_content disk ?c)))"
    using sz l by simp
  have q: "segment_entry disk (ptr_content disk p) (Suc k) = Inr q"
    using segment_entry_defined [OF assms(2), of "k + 1"] k by (simp add: q_def)
  have e: "int k + 1 = int (seg_slots disk p) - 1 \<longleftrightarrow> k + 2 = seg_slots disk p" by linarith
  show ?thesis
    using size disk_read_readable [OF assms(1,3)] q e
    by (simp add: copy_step_def table_state_def buf'_def q_def Let_def cong: if_cong)
qed

lemma copy_loop_step:
  "copy_step disk st = ret (Inl buffer) \<Longrightarrow> copy_loop disk st = ret buffer"
  "copy_step disk st = ret (Inr st') \<Longrightarrow> copy_loop disk st = copy_loop disk st'"
  by (subst copy_loop.simps, simp add: ret_def)+

lemma copy_step_link:
  assumes "disk_good disk" and "readable disk q"
  shows "rbind (disk_read_phy_blocks disk q) (\<lambda>t.
        rbind (liftc (table_pointers disk q)) (\<lambda>n.
        rbind (liftc (segment_entry disk t 0)) (\<lambda>c.
        if blockptr_is_null disk c then ret (Inl buf') else ret (Inr (t, n, 0, c, buf')))))
    = (if blockptr_is_null disk (seg_table disk q ! 0) then ret (Inl buf')
       else ret (Inr (table_state disk q 0 buf')))"
proof -
  have "disk_ok disk" "ptr_ok disk q" using assms by (auto simp: disk_good_def readable_def)
  moreover from this have "0 < seg_slots disk q" using seg_slots_two [of disk q] by simp
  ultimately show ?thesis
    using segment_entry_defined(1) [OF assms(2)] table_pointers_defined
    by (simp add: disk_read_readable [OF assms] table_state_def)
qed

lemma stores_readable: "stores disk p ps \<Longrightarrow> readable disk p"
  by (induction rule: stores.induct)

lemma stores_head:
  assumes "stores disk p ps" and "disk_ok disk"
  shows "(ps = [] \<longleftrightarrow> blockptr_is_null disk (seg_table disk p ! 0))
    \<and> (ps \<noteq> [] \<longrightarrow> seg_table disk p ! 0 = hd ps)"
  using assms(1)
proof cases
  case (stores_end q rest)
  then show ?thesis by (cases ps) auto
next
  case (stores_link qs q rs)
  have "2 \<le> length (qs @ [q])" using seg_slots_two [OF assms(2), of p] stores_link(3)
    by (metis length_seg_table)
  then have "qs \<noteq> []" by auto
  with stores_link show ?thesis by (cases qs) auto
qed

text \<open>
  From entry \<open>k\<close> of the current table on, the loop appends the contents of exactly the segments
  that the chain still stores, and ends.
\<close>

lemma copy_loop_stores:
  assumes "stores disk p ps" and good: "disk_good disk"
    and "k < length ps" and "k + 1 < seg_slots disk p"
    and "\<forall>r \<in> set ps. readable disk r"
    and "length buf + length (segment_bytes disk (drop k ps)) < 2147483648"
  shows "copy_loop disk (table_state disk p k buf) = ret (buf @ segment_bytes disk (drop k ps))"
  using assms(1,3-)
proof (induction arbitrary: k buf rule: stores.induct)
  case (stores_end p ps q rest)
  show ?case using stores_end.prems
  proof (induction "length ps - k" arbitrary: k buf)
    case (Suc n)
    let ?c = "seg_table disk p ! k" and ?q = "seg_table disk p ! (k + 1)"
    have c: "?c = ps ! k" using Suc.prems(1) stores_end(2) by (simp add: nth_append)
    have d: "drop k ps = ps ! k # drop (Suc k) ps" using Suc.prems(1) by (simp add: Cons_nth_drop_Suc)
    have len: "length ps < seg_slots disk p"
      by (metis stores_end(2) length_seg_table length_append length_Cons less_add_Suc1
          add_Suc_right)
    note step = copy_step_readable [OF good stores_end(1), of k buf]
    show ?case
    proof (cases "k + 1 = length ps")
      case True
      then have "?q = q" using stores_end(2) by (simp add: nth_append)
      then have "copy_step disk (table_state disk p k buf) = ret (Inl (buf @ ptr_content disk (ps ! k)))"
        using Suc.prems d stores_end(4) by (subst step) (simp_all add: c)
      from copy_loop_step(1) [OF this] show ?thesis using d True by simp
    next
      case False
      then have k1: "k + 1 < length ps" using Suc.prems(1) by simp
      then have "?q \<in> set ps" using stores_end(2) by (simp add: nth_append)
      then have "copy_step disk (table_state disk p k buf)
          = ret (Inr (table_state disk p (k + 1) (buf @ ptr_content disk (ps ! k))))"
        using Suc.prems d stores_end(3) k1 len by (subst step) (simp_all add: c)
      from copy_loop_step(2) [OF this] show ?thesis
        using Suc.hyps(1) [of "k + 1" "buf @ ptr_content disk (ps ! k)"] Suc.hyps(2) Suc.prems d k1 len
        by simp
    qed
  qed simp
next
  case (stores_link p ps q qs)
  have len: "seg_slots disk p = length ps + 1"
    by (metis stores_link.hyps(2) length_seg_table length_append_singleton Suc_eq_plus1)
  have two: "2 \<le> seg_slots disk q" using good seg_slots_two by (simp add: disk_good_def)
  have "k < length ps" using stores_link.prems(2) len by simp
  then show ?case using stores_link.prems
  proof (induction "length ps - k" arbitrary: k buf)
    case (Suc n)
    let ?c = "seg_table disk p ! k" and ?q = "seg_table disk p ! (k + 1)"
    let ?buf = "buf @ ptr_content disk (ps ! k)"
    have c: "?c = ps ! k" using Suc.prems(1) stores_link.hyps(2) by (simp add: nth_append)
    have d: "drop k (ps @ qs) = ps ! k # drop (Suc k) (ps @ qs)"
      using Suc.prems(1) by (simp add: Cons_nth_drop_Suc)
    have nn: "\<not> blockptr_is_null disk ?q"
      using stores_link.hyps Suc.prems(1) by (auto simp: nth_append)
    have "ps ! k \<in> set ps" using Suc.prems(1) by simp
    then have step: "copy_step disk (table_state disk p k buf) =
      (if k + 2 = seg_slots disk p then
        rbind (disk_read_phy_blocks disk ?q) (\<lambda>t.
        rbind (liftc (table_pointers disk ?q)) (\<lambda>n.
        rbind (liftc (segment_entry disk t 0)) (\<lambda>c.
        if blockptr_is_null disk c then ret (Inl ?buf) else ret (Inr (t, n, 0, c, ?buf)))))
      else ret (Inr (table_state disk p (k + 1) ?buf)))"
      using copy_step_readable [OF good stores_link.hyps(1), of k buf] nn Suc.prems d
      by (simp add: c cong: if_cong)
    show ?case
    proof (cases "k + 1 = length ps")
      case True
      then have "?q = q" using stores_link.hyps(2) by (simp add: nth_append)
      with True step copy_step_link [OF good stores_readable [OF stores_link.hyps(5)]]
      have s: "copy_step disk (table_state disk p k buf) =
         (if blockptr_is_null disk (seg_table disk q ! 0) then ret (Inl ?buf)
          else ret (Inr (table_state disk q 0 ?buf)))" by (simp add: len)
      show ?thesis
      proof (cases "qs = []")
        case True
        then have "copy_step disk (table_state disk p k buf) = ret (Inl ?buf)"
          using s stores_head [OF stores_link.hyps(5)] good by (simp add: disk_good_def)
        from copy_loop_step(1) [OF this] show ?thesis using d True \<open>k + 1 = length ps\<close> by simp
      next
        case False
        then have "copy_step disk (table_state disk p k buf) = ret (Inr (table_state disk q 0 ?buf))"
          using s stores_head [OF stores_link.hyps(5)] good by (auto simp: disk_good_def)
        from copy_loop_step(2) [OF this] show ?thesis
          using stores_link.IH [of 0 ?buf] False two Suc.prems d \<open>k + 1 = length ps\<close> by simp
      qed
    next
      case False
      then have k1: "k + 1 < length ps" using Suc.prems(1) by simp
      then have "copy_step disk (table_state disk p k buf) = ret (Inr (table_state disk p (k + 1) ?buf))"
        using step len by simp
      from copy_loop_step(2) [OF this] show ?thesis
        using Suc.hyps(1) [of "k + 1" ?buf] Suc.hyps(2) Suc.prems d k1 len by simp
    qed
  qed simp
qed

text \<open>
  The component a chain of segment tables stores is loaded completely: the call returns, and its
  buffer is the concatenation of the contents of the code segments.
\<close>

lemma copy_component_stores:
  assumes "stores disk p ps" and "ps \<noteq> []" and good: "disk_good disk"
    and "\<forall>r \<in> set ps. readable disk r"
    and "length (segment_bytes disk ps) < 2147483648"
  shows "copy_component_to_memory disk p = ret (segment_bytes disk ps)"
proof -
  have r: "readable disk p" by (rule stores_readable) (rule assms(1))
  then have ok: "disk_ok disk" "ptr_ok disk p" using good by (auto simp: disk_good_def readable_def)
  have two: "2 \<le> seg_slots disk p" by (rule seg_slots_two) (rule ok(1))
  have "copy_component_to_memory disk p = copy_loop disk (table_state disk p 0 [])"
    using two segment_entry_defined(1) [OF r, of 0] table_pointers_defined [OF ok]
    by (simp add: copy_component_to_memory_def disk_read_readable [OF good r] table_state_def)
  also have "\<dots> = ret (segment_bytes disk ps)"
    using copy_loop_stores [OF assms(1) good, of 0 "[]"] assms two by simp
  finally show ?thesis .
qed

subsection \<open>The program table is read inside its block\<close>

lemma get_program_table_size_defined:
  assumes "disk_ok disk"
  shows "\<exists>n. get_program_table_size disk = Inr n
    \<and> (n + 1) * get_blockptr_size disk = 512"
  using assms by (cases "disk_type disk")
    (simp_all add: disk_ok_def get_program_table_size_def get_blockptr_size_def c_div_def)

lemma get_program_table_readable:
  assumes good: "disk_good disk" and r: "readable disk (program_table_ptr disk)"
  shows "get_program_table disk =
    (if get_blockptr_blockct disk (program_table_ptr disk) \<noteq> 0
     then fail ''Error - invalid program table pointer''
     else if take MAGIC_LENGTH (ptr_content disk (program_table_ptr disk)) \<noteq> MAGIC
     then fail ''Error - invalid magic number in program table''
     else ret (map (seg_entry disk (ptr_content disk (program_table_ptr disk)))
            [1..<nat (512 div get_blockptr_size disk)]))"
    (is "_ = (if ?bad then _ else if ?magic then _ else ret ?tab)")
proof (cases "?bad \<or> ?magic")
  case True
  then show ?thesis by (auto simp: get_program_table_def disk_read_readable [OF good r])
next
  case False
  let ?s = "nat (get_blockptr_size disk)" and ?b = "ptr_content disk (program_table_ptr disk)"
  have ok: "disk_ok disk" using good by (simp add: disk_good_def)
  from get_program_table_size_defined [OF ok] obtain n
    where n: "get_program_table_size disk = Inr n" "(n + 1) * get_blockptr_size disk = 512"
    by auto
  have s: "0 < get_blockptr_size disk" using get_blockptr_size_bounds [OF ok] by simp
  with n(2) have "0 < n + 1" by (metis zero_less_mult_pos2 zero_less_numeral)
  then obtain m where m: "n = int m" by (metis zle_add1_eq_le zero_le_imp_eq_int add.commute)
  have msz: "(m + 1) * ?s = 512"
  proof -
    have "nat ((n + 1) * get_blockptr_size disk) = 512" using n(2) by simp
    then show ?thesis using m s by (simp add: nat_mult_distrib nat_add_distrib)
  qed
  have ct: "512 \<le> length ?b"
  proof -
    have "1 * 512 \<le> ptr_count disk (program_table_ptr disk) * nat (phy_block_size disk)"
      using ok by (intro mult_le_mono) (auto simp: disk_ok_def Suc_leI)
    then show ?thesis by (simp add: length_ptr_content [OF r])
  qed
  have entries: "read_entries disk (drop (k * ?s) ?b) j = Inr (map (seg_entry disk ?b) [k..<k + j])"
    if "(k + j) * ?s \<le> length ?b" for k j
    using that
  proof (induction j arbitrary: k)
    case (Suc j)
    have "(k + 1) * ?s \<le> (k + Suc j) * ?s" by (intro mult_le_mono1) simp
    then have "k * ?s + ?s \<le> length ?b"
      using le_trans [OF _ Suc.prems] by (metis add_mult_distrib nat_mult_1)
    then have "?s \<le> length (drop (k * ?s) ?b)" by simp
    then obtain q where q: "read_packed_blockptr disk (drop (k * ?s) ?b) = Inr q"
      using read_packed_blockptr_in by blast
    have "read_entries disk (drop (Suc k * ?s) ?b) j
        = Inr (map (seg_entry disk ?b) [Suc k..<Suc k + j])"
      by (rule Suc.IH) (use Suc.prems in simp)
    moreover have "seg_entry disk ?b k = q" using q by (simp add: seg_entry_def segment_entry_def)
    ultimately show ?case using q
      by (simp only: read_entries.simps upt_add_Suc ebind.simps drop_drop list.map mult_Suc)
  qed simp
  have "512 div get_blockptr_size disk = n + 1" using n(2) s by (simp flip: n(2))
  then have d: "nat (512 div get_blockptr_size disk) = 1 + m" using m by simp
  have "read_entries disk (drop (1 * ?s) ?b) m = Inr (map (seg_entry disk ?b) [1..<1 + m])"
    by (rule entries) (use msz ct in simp)
  with False n(1) d show ?thesis
    by (simp add: get_program_table_def disk_read_readable [OF good r] m del: upt_Suc)
qed

subsection \<open>The component table is not\<close>

lemma get_component_table_size_bounds:
  assumes "disk_ok disk"
  obtains n where "get_component_table_size disk = Inr (int n)" and "31 \<le> n"
    and "phy_block_size disk \<le> 16 * int n + 31"
proof -
  let ?s = "get_blockptr_size disk" and ?b = "phy_block_size disk"
  have s: "8 \<le> ?s" "?s \<le> 16" using get_blockptr_size_bounds [OF assms] by auto
  have b: "512 \<le> ?b" using assms by (simp add: disk_ok_def)
  obtain q where q: "q = ?b div ?s" by simp
  have "32 * ?s \<le> ?b" using s b by linarith
  then have "(32 * ?s) div ?s \<le> q" unfolding q using s by (intro zdiv_mono1) auto
  then have "32 \<le> q" using s by simp
  moreover have "?b div 16 \<le> q" unfolding q using s b by (intro zdiv_mono2) auto
  moreover have "?b < 16 * (?b div 16) + 16" by presburger
  moreover have "get_component_table_size disk = Inr (q - 1)"
    using s b by (simp add: get_component_table_size_def c_div_nonneg q)
  ultimately show ?thesis using that [of "nat (q - 1)"] by simp
qed

text \<open>
  Entry \<open>n\<close> lies in the buffer exactly when \<open>32 * (n + 2)\<close> is at most the block size.
\<close>

lemma component_entry_in:
  assumes "(n + 1) * component_entry_size \<le> length buffer"
  shows "component_entry buffer heap n
    = take component_entry_size (drop (n * component_entry_size) buffer)"
  using assms
  by (intro nth_equalityI) (auto simp: component_entry_def heap_byte_def component_entry_size_def)

lemma length_component_entry [simp]: "length (component_entry buffer heap n) = component_entry_size"
  by (simp add: component_entry_def)

lemma unpack_component_defined:
  assumes "disk_ok disk"
  shows "\<exists>c. unpack_component disk (component_entry buffer heap n) = Inr c"
  using get_blockptr_size_bounds [OF assms]
  by (auto simp: unpack_component_def read_packed_blockptr_def component_entry_size_def)

definition decode_component :: "disk \<Rightarrow> byte list \<Rightarrow> component" where
  "decode_component disk e =
     \<lparr>segment_ptr = seg_entry disk e 0, comp_type = field 23 1 e, address = field 24 8 e\<rparr>"

lemma unpack_component_decode:
  assumes "disk_ok disk"
  shows "unpack_component disk (component_entry buffer heap n)
    = Inr (decode_component disk (component_entry buffer heap n))"
  using unpack_component_defined [OF assms, of buffer heap n]
  by (auto simp: unpack_component_def decode_component_def seg_entry_def segment_entry_def
      ebind_Inr_iff)

text \<open>
  The conversion is defined exactly when the entries fit into the heap block. They never do: the
  block has been allocated for entries of a smaller type.
\<close>

lemma convert_components_eq:
  assumes "disk_ok disk"
  shows "convert_components heap disk buffer room ns =
    (if \<exists>n \<in> set ns. room < sizeof_component * int (n + 1) then Inl OutOfBounds
     else Inr (map (\<lambda>n. decode_component disk (component_entry buffer heap (n + 1))) ns))"
  by (induction ns) (simp_all add: unpack_component_decode [OF assms])

lemma component_table_overrun:
  assumes "disk_ok disk"
  obtains n where "get_component_table_size disk = Inr (int n)"
    and "component_table_allocated disk = Inr (sizeof_blockptr * int n)"
    and "convert_components heap disk buffer (sizeof_blockptr * int n) [0..<n] = Inl OutOfBounds"
proof -
  obtain n where n: "get_component_table_size disk = Inr (int n)" "31 \<le> n"
    using get_component_table_size_bounds [OF assms] by blast
  have "n - 1 \<in> set [0..<n] \<and> sizeof_blockptr * int n < sizeof_component * int (n - 1 + 1)"
    using n(2) by (simp add: sizeof_blockptr_def sizeof_component_def)
  then have "convert_components heap disk buffer (sizeof_blockptr * int n) [0..<n] = Inl OutOfBounds"
    unfolding convert_components_eq [OF assms] by (metis (no_types, lifting))
  with n(1) show ?thesis by (intro that) (simp_all add: component_table_allocated_def)
qed

lemma get_component_table_overrun:
  assumes good: "disk_good disk" and r: "readable disk p"
    and "get_blockptr_blockct disk p = 0" and "take MAGIC_LENGTH (ptr_content disk p) = MAGIC"
  shows "get_component_table heap disk p = liftc (Inl OutOfBounds)"
proof -
  have ok: "disk_ok disk" using good by (simp add: disk_good_def)
  have "1 * 512 \<le> ptr_count disk p * nat (phy_block_size disk)"
    using ok by (intro mult_le_mono) (auto simp: disk_ok_def Suc_leI)
  then have "5 \<le> length (ptr_content disk p)" by (simp add: length_ptr_content [OF r])
  moreover obtain n where "get_component_table_size disk = Inr (int n)"
    "component_table_allocated disk = Inr (sizeof_blockptr * int n)"
    "convert_components heap disk (ptr_content disk p) (sizeof_blockptr * int n) [0..<n] = Inl OutOfBounds"
    by (rule component_table_overrun [OF ok])
  ultimately show ?thesis
    using assms(3,4) by (simp add: get_component_table_def disk_read_readable [OF good r] liftc_def)
qed

subsection \<open>What the identification looks at\<close>

lemma find_address_take:
  "k \<le> m \<Longrightarrow> find_address (take m ct) k a = find_address ct k a"
  by (simp add: find_address_def min_absorb1)

lemma find_address_Some:
  "find_address ct k a = Some n \<Longrightarrow> n < k \<and> n < length ct \<and> address (ct ! n) = a"
  unfolding find_address_def by (drule find_index_Some) auto

text \<open>
  Only the entries up to the first executable one matter: when it lies within the first \<open>m\<close>
  entries the others can be anything.
\<close>

lemma identify_boot_objects_prefix:
  assumes "find_index (\<lambda>c. comp_type c = component_execute) (take m ct) = Some j"
  shows "identify_boot_objects disk ct = identify_boot_objects disk (take m ct)"
proof (cases j)
  case 0
  with assms find_index_take [OF assms] show ?thesis by (simp add: identify_boot_objects_def)
next
  case (Suc k)
  have j: "j < m" "j < length ct" using find_index_Some [OF assms] by auto
  have nth: "take m ct ! n = ct ! n" if "n \<le> j" for n using that j by simp
  have addr: "find_address (take m ct) j a = find_address ct j a" for a
    using j by (intro find_address_take) simp
  have seg: "take m ct ! n = ct ! n" if "find_address ct j a = Some n" for n a
    using find_address_Some [OF that] by (intro nth) simp
  show ?thesis
    unfolding identify_boot_objects_def assms find_index_take [OF assms] Suc option.case nat.case
    using Suc j nth [of k] nth [of "Suc k"] addr seg
    by (simp add: Let_def split: option.splits sum.splits cerr.splits)
qed

end
