(* ===== verification/Environment.thy ===== *)
theory Environment
  imports Config
begin

section \<open>Passing the configuration through the environment (config.c)\<close>

text \<open>
  \<^verbatim>\<open>sysload\<close> writes its configuration into environment variables \<^verbatim>\<open>SYSLOAD_...\<close> before it
  starts the user interface processes; each of them rebuilds the configuration from there.
  \<^verbatim>\<open>putenv\<close> and \<^verbatim>\<open>getenv\<close> work on the process environment as the C library keeps it, a
  list of \<^verbatim>\<open>NAME=value\<close> strings.
\<close>

type_synonym environ = "string list"

definition env_name :: "string \<Rightarrow> string" where
  "env_name s = takeWhile (\<lambda>c. c \<noteq> CHR ''='') s"

fun env_replace :: "string \<Rightarrow> environ \<Rightarrow> environ" where
  "env_replace s [] = [s]"
| "env_replace s (e # es) = (if env_name e = env_name s then s # es else e # env_replace s es)"

definition putenv :: "string \<Rightarrow> environ \<Rightarrow> environ" where
  "putenv s env =
     (if CHR ''='' \<in> set s then env_replace s env
      else filter (\<lambda>e. env_name e \<noteq> s) env)"

fun getenv :: "string \<Rightarrow> environ \<Rightarrow> string option" where
  "getenv name [] = None"
| "getenv name (e # es) =
     (if starts_with e (name @ ''='') then Some (drop (length name + 1) e) else getenv name es)"

lemma env_name_assign: "CHR ''='' \<notin> set n \<Longrightarrow> env_name (n @ CHR ''='' # v) = n"
  unfolding env_name_def by (rule takeWhile_append_stop) auto

lemma starts_with_env_name:
  assumes "CHR ''='' \<notin> set n" and "starts_with e (n @ ''='')"
  shows "env_name e = n"
  using assms by (auto simp: starts_with_iff env_name_assign)

lemma getenv_replace_same:
  assumes "CHR ''='' \<notin> set n"
  shows "getenv n (env_replace (n @ CHR ''='' # v) es) = Some v"
proof (induction es)
  case Nil
  then show ?case by (simp add: starts_with_def)
next
  case (Cons e es)
  then show ?case
    using starts_with_env_name [OF assms]
    by (auto simp: env_name_assign [OF assms] starts_with_def)
qed

lemma getenv_replace_other:
  assumes "CHR ''='' \<notin> set n" and "CHR ''='' \<notin> set m" and "m \<noteq> n"
  shows "getenv m (env_replace (n @ CHR ''='' # v) es) = getenv m es"
proof (induction es)
  case Nil
  then show ?case
    using starts_with_env_name [OF assms(2), of "n @ CHR ''='' # v"] assms(3)
    by (auto simp: env_name_assign [OF assms(1)])
next
  case (Cons e es)
  have "\<not> starts_with (n @ CHR ''='' # v) (m @ ''='')"
    using starts_with_env_name [OF assms(2), of "n @ CHR ''='' # v"] assms(3)
    by (auto simp: env_name_assign [OF assms(1)])
  moreover have "env_name e = n \<Longrightarrow> \<not> starts_with e (m @ ''='')"
    using starts_with_env_name [OF assms(2)] assms(3) by auto
  ultimately show ?case using Cons by (auto simp: env_name_assign [OF assms(1)])
qed

subsection \<open>Reading and writing one variable\<close>

definition CFG_PREFIX :: string where "CFG_PREFIX = ''SYSLOAD''"
definition CFG_STARTUP_MSG :: string where "CFG_STARTUP_MSG = ''STARTUP_MESSAGE''"
definition CFG_VERSION :: string where "CFG_VERSION = ''VERSION''"
definition CFG_CONFIG_VERSION :: string where "CFG_CONFIG_VERSION = ''1.0''"
definition CFG_DEFAULT :: string where "CFG_DEFAULT = ''DEFAULT''"
definition CFG_TIMEOUT :: string where "CFG_TIMEOUT = ''TIMEOUT''"
definition CFG_PASSWORD :: string where "CFG_PASSWORD = ''PASSWORD''"
definition CFG_BENTRY_COUNT :: string where "CFG_BENTRY_COUNT = ''BENTRY_COUNT''"
definition CFG_TITLE :: string where "CFG_TITLE = ''TITLE''"
definition CFG_LABEL :: string where "CFG_LABEL = ''LABEL''"
definition CFG_ROOT :: string where "CFG_ROOT = ''ROOT''"
definition CFG_KERNEL :: string where "CFG_KERNEL = ''KERNEL''"
definition CFG_INITRD :: string where "CFG_INITRD = ''INITRD''"
definition CFG_CMDLINE :: string where "CFG_CMDLINE = ''CMDLINE''"
definition CFG_PARMFILE :: string where "CFG_PARMFILE = ''PARMFILE''"
definition CFG_INSFILE :: string where "CFG_INSFILE = ''INSFILE''"
definition CFG_BOOTMAP :: string where "CFG_BOOTMAP = ''BOOTMAP''"
definition CFG_LOCKED :: string where "CFG_LOCKED = ''LOCKED''"
definition CFG_PAUSE :: string where "CFG_PAUSE = ''PAUSE''"
definition CFG_ACTION :: string where "CFG_ACTION = ''ACTION''"
definition CFG_PATH :: string where "CFG_PATH = ''PATH''"
definition CFG_DEFAULTPATH :: string where "CFG_DEFAULTPATH = ''/usr/sysload''"

lemmas cfg_names = CFG_PREFIX_def CFG_STARTUP_MSG_def CFG_VERSION_def CFG_CONFIG_VERSION_def
  CFG_DEFAULT_def CFG_TIMEOUT_def CFG_PASSWORD_def CFG_BENTRY_COUNT_def CFG_TITLE_def
  CFG_LABEL_def CFG_ROOT_def CFG_KERNEL_def CFG_INITRD_def CFG_CMDLINE_def CFG_PARMFILE_def
  CFG_INSFILE_def CFG_BOOTMAP_def CFG_LOCKED_def CFG_PAUSE_def CFG_ACTION_def CFG_PATH_def

definition cfg_set_env_str :: "string \<Rightarrow> cptr \<Rightarrow> environ \<Rightarrow> environ c_res" where
  "cfg_set_env_str variable v env =
     (case v of None \<Rightarrow> Inl NullDeref
      | Some x \<Rightarrow> Inr (putenv (CFG_PREFIX @ ''_'' @ variable @ ''='' @ x) env))"

definition cfg_get_env_str :: "string \<Rightarrow> cptr \<Rightarrow> environ \<Rightarrow> cptr c_res" where
  "cfg_get_env_str variable v env =
     (case getenv (CFG_PREFIX @ ''_'' @ variable) env of
        None \<Rightarrow> Inr v
      | Some outstr \<Rightarrow> cfg_strcpy v (Some outstr))"

definition cfg_set_env_int :: "string \<Rightarrow> int \<Rightarrow> environ \<Rightarrow> environ c_res" where
  "cfg_set_env_int variable v env =
     Inr (putenv (CFG_PREFIX @ ''_'' @ variable @ ''='' @ printf_d v) env)"

definition cfg_get_env_int :: "string \<Rightarrow> int \<Rightarrow> environ \<Rightarrow> int c_res" where
  "cfg_get_env_int variable v env =
     (case getenv (CFG_PREFIX @ ''_'' @ variable) env of
        None \<Rightarrow> Inr v
      | Some outstr \<Rightarrow>
          ebind (sscanf_d outstr) (\<lambda>r. Inr (case r of None \<Rightarrow> v | Some i \<Rightarrow> i)))"

text \<open>The variable name \<^verbatim>\<open>B%d_%s\<close> of a member of boot entry number \<open>index\<close>.\<close>

definition index_name :: "string \<Rightarrow> nat \<Rightarrow> string" where
  "index_name variable index = ''B'' @ printf_d (int index) @ ''_'' @ variable"

definition cfg_set_env_str_i :: "string \<Rightarrow> nat \<Rightarrow> cptr \<Rightarrow> environ \<Rightarrow> environ c_res" where
  "cfg_set_env_str_i variable index v env = cfg_set_env_str (index_name variable index) v env"

definition cfg_set_env_int_i :: "string \<Rightarrow> nat \<Rightarrow> int \<Rightarrow> environ \<Rightarrow> environ c_res" where
  "cfg_set_env_int_i variable index v env = cfg_set_env_int (index_name variable index) v env"

definition cfg_get_env_str_i :: "string \<Rightarrow> nat \<Rightarrow> cptr \<Rightarrow> environ \<Rightarrow> cptr c_res" where
  "cfg_get_env_str_i variable index v env = cfg_get_env_str (index_name variable index) v env"

definition cfg_get_env_int_i :: "string \<Rightarrow> nat \<Rightarrow> int \<Rightarrow> environ \<Rightarrow> int c_res" where
  "cfg_get_env_int_i variable index v env = cfg_get_env_int (index_name variable index) v env"

definition cfg_get_defaultpath :: "cptr \<Rightarrow> environ \<Rightarrow> cptr c_res" where
  "cfg_get_defaultpath defpath env =
     ebind (cfg_get_env_str CFG_PATH defpath env) (\<lambda>p.
       case p of None \<Rightarrow> Inl NullDeref
       | Some s \<Rightarrow> if length s = 0 then cfg_strcpy p (Some CFG_DEFAULTPATH) else Inr p)"

subsection \<open>Writing and reading a whole configuration\<close>

definition set_env_bentry :: "cfg_bentry \<times> nat \<Rightarrow> environ \<Rightarrow> environ c_res" where
  "set_env_bentry bi env =
     (let (b, i) = bi in
      ebind (cfg_set_env_str_i CFG_TITLE i (title b) env) (\<lambda>env.
      ebind (cfg_set_env_str_i CFG_LABEL i (label b) env) (\<lambda>env.
      ebind (cfg_set_env_str_i CFG_ROOT i (root b) env) (\<lambda>env.
      ebind (cfg_set_env_str_i CFG_KERNEL i (kernel b) env) (\<lambda>env.
      ebind (cfg_set_env_str_i CFG_INITRD i (initrd b) env) (\<lambda>env.
      ebind (cfg_set_env_str_i CFG_CMDLINE i (cmdline b) env) (\<lambda>env.
      ebind (cfg_set_env_str_i CFG_PARMFILE i (parmfile b) env) (\<lambda>env.
      ebind (cfg_set_env_str_i CFG_INSFILE i (insfile b) env) (\<lambda>env.
      ebind (cfg_set_env_str_i CFG_BOOTMAP i (bootmap b) env) (\<lambda>env.
      ebind (cfg_set_env_int_i CFG_LOCKED i (locked b) env) (\<lambda>env.
      ebind (cfg_set_env_str_i CFG_PAUSE i (pause b) env) (\<lambda>env.
      cfg_set_env_int_i CFG_ACTION i (int_of_action (action b)) env))))))))))))"

definition cfg_set_env :: "cfg_toplevel \<Rightarrow> environ \<Rightarrow> environ c_res" where
  "cfg_set_env config env =
     ebind (cfg_set_env_str CFG_VERSION (Some CFG_CONFIG_VERSION) env) (\<lambda>env.
     ebind (cfg_set_env_int CFG_DEFAULT (boot_default config) env) (\<lambda>env.
     ebind (cfg_set_env_int CFG_TIMEOUT (timeout config) env) (\<lambda>env.
     ebind (cfg_set_env_str CFG_PASSWORD (password config) env) (\<lambda>env.
     ebind (cfg_set_env_int CFG_BENTRY_COUNT (int (bentry_count config)) env)
       (efold set_env_bentry
          (zip (take (bentry_count config) (bentry_list config)) [0..<bentry_count config]))))))"

definition get_env_bentry :: "environ \<Rightarrow> nat \<Rightarrow> cfg_bentry c_res" where
  "get_env_bentry env i =
     (let b = cfg_bentry_init in
      ebind (cfg_get_env_str_i CFG_TITLE i (title b) env) (\<lambda>x. let b = b\<lparr>title := x\<rparr> in
      ebind (cfg_get_env_str_i CFG_LABEL i (label b) env) (\<lambda>x. let b = b\<lparr>label := x\<rparr> in
      ebind (cfg_get_env_str_i CFG_ROOT i (root b) env) (\<lambda>x. let b = b\<lparr>root := x\<rparr> in
      ebind (cfg_get_env_str_i CFG_KERNEL i (kernel b) env) (\<lambda>x. let b = b\<lparr>kernel := x\<rparr> in
      ebind (cfg_get_env_str_i CFG_INITRD i (initrd b) env) (\<lambda>x. let b = b\<lparr>initrd := x\<rparr> in
      ebind (cfg_get_env_str_i CFG_CMDLINE i (cmdline b) env) (\<lambda>x. let b = b\<lparr>cmdline := x\<rparr> in
      ebind (cfg_get_env_str_i CFG_PARMFILE i (parmfile b) env) (\<lambda>x. let b = b\<lparr>parmfile := x\<rparr> in
      ebind (cfg_get_env_str_i CFG_INSFILE i (insfile b) env) (\<lambda>x. let b = b\<lparr>insfile := x\<rparr> in
      ebind (cfg_get_env_str_i CFG_BOOTMAP i (bootmap b) env) (\<lambda>x. let b = b\<lparr>bootmap := x\<rparr> in
      ebind (cfg_get_env_int_i CFG_LOCKED i (locked b) env) (\<lambda>n. let b = b\<lparr>locked := n\<rparr> in
      ebind (cfg_get_env_str_i CFG_PAUSE i (pause b) env) (\<lambda>x. let b = b\<lparr>pause := x\<rparr> in
      ebind (cfg_get_env_int_i CFG_ACTION i (int_of_action (action b)) env)
        (\<lambda>n. Inr (b\<lparr>action := action_of_int n\<rparr>))))))))))))))"

definition cfg_get_env :: "cfg_toplevel \<Rightarrow> environ \<Rightarrow> cfg_toplevel c_res" where
  "cfg_get_env config env =
     ebind (cfg_get_env_int CFG_DEFAULT (boot_default config) env) (\<lambda>d.
     ebind (cfg_get_env_int CFG_TIMEOUT (timeout config) env) (\<lambda>t.
     ebind (cfg_get_env_str CFG_PASSWORD (password config) env) (\<lambda>p.
     ebind (cfg_get_env_int CFG_BENTRY_COUNT 0 env) (\<lambda>max_entry_count.
       efold (\<lambda>i c. ebind (get_env_bentry env i) (cfg_add_bentry c)) [0..<nat max_entry_count]
         (config\<lparr>boot_default := d, timeout := t, password := p\<rparr>)))))"

subsection \<open>The contract of a variable store\<close>

text \<open>
  What the two functions rely on: a variable reads back what was written last, and writing one
  variable leaves the others alone. A store written with pairwise different names then holds
  all of them, which is the heart of the round trip.
\<close>

locale var_store =
  fixes setv :: "string \<Rightarrow> 'v \<Rightarrow> 'e \<Rightarrow> 'e"
    and getv :: "string \<Rightarrow> 'e \<Rightarrow> 'v option"
    and okname :: "string \<Rightarrow> bool"
  assumes get_set: "okname n \<Longrightarrow> getv n (setv n v e) = Some v"
    and get_set_other: "okname n \<Longrightarrow> okname m \<Longrightarrow> n \<noteq> m \<Longrightarrow> getv m (setv n v e) = getv m e"
begin

lemma get_set_all_other:
  "(\<And>k. k \<in> set kvs \<Longrightarrow> okname (fst k)) \<Longrightarrow> okname m \<Longrightarrow> m \<notin> fst ` set kvs \<Longrightarrow>
   getv m (fold (\<lambda>k. setv (fst k) (snd k)) kvs e) = getv m e"
proof (induction kvs arbitrary: e)
  case (Cons k kvs)
  from Cons.prems(2,3) Cons.prems(1) [of k]
  have "getv m (setv (fst k) (snd k) e) = getv m e"
    by (intro get_set_other) auto
  with Cons show ?case by simp
qed simp

lemma get_set_all:
  "(\<And>k. k \<in> set kvs \<Longrightarrow> okname (fst k)) \<Longrightarrow> distinct (map fst kvs) \<Longrightarrow> (n, v) \<in> set kvs \<Longrightarrow>
   getv n (fold (\<lambda>k. setv (fst k) (snd k)) kvs e) = Some v"
proof (induction kvs arbitrary: e)
  case (Cons k kvs)
  show ?case
  proof (cases "(n, v) = k")
    case True
    with Cons.prems have "okname n" "n \<notin> fst ` set kvs" by force+
    then show ?thesis
      using Cons.prems(1) True get_set_all_other [of kvs n "setv n v e"]
      by (auto simp: get_set)
  next
    case False
    with Cons.prems have "(n, v) \<in> set kvs" by auto
    with Cons show ?thesis by simp
  qed
qed simp

end

definition okname :: "string \<Rightarrow> bool" where
  "okname n \<longleftrightarrow> CHR ''='' \<notin> set n"

definition set_var :: "string \<Rightarrow> string \<Rightarrow> environ \<Rightarrow> environ" where
  "set_var n v env = putenv (CFG_PREFIX @ ''_'' @ n @ ''='' @ v) env"

definition get_var :: "string \<Rightarrow> environ \<Rightarrow> string option" where
  "get_var n env = getenv (CFG_PREFIX @ ''_'' @ n) env"

interpretation vars: var_store set_var get_var okname
proof
  fix n v e
  assume "okname n"
  then show "get_var n (set_var n v e) = Some v"
    using getenv_replace_same [of "CFG_PREFIX @ ''_'' @ n" v e]
    by (simp add: okname_def get_var_def set_var_def putenv_def cfg_names)
next
  fix n m v e
  assume "okname n" "okname m" "n \<noteq> m"
  then show "get_var m (set_var n v e) = get_var m e"
    using getenv_replace_other [of "CFG_PREFIX @ ''_'' @ n" "CFG_PREFIX @ ''_'' @ m" v e]
    by (simp add: okname_def get_var_def set_var_def putenv_def cfg_names)
qed

lemma cfg_set_env_var [cfg_simps]:
  "cfg_set_env_str n (Some v) env = Inr (set_var n v env)"
  "cfg_set_env_int n i env = Inr (set_var n (printf_d i) env)"
  by (simp_all add: cfg_set_env_str_def cfg_set_env_int_def set_var_def)

lemma cfg_get_env_var [cfg_simps]:
  "get_var n env = Some s \<Longrightarrow> cfg_get_env_str n v env = Inr (Some s)"
  "get_var n env = Some (printf_d i) \<Longrightarrow> int32 i \<Longrightarrow> cfg_get_env_int n k env = Inr i"
  by (simp_all add: cfg_get_env_str_def cfg_get_env_int_def get_var_def cfg_simps sscanf_printf_d)

text \<open>The variables a configuration is written to, in the order they are written.\<close>

definition bentry_vars :: "nat \<Rightarrow> cfg_bentry \<Rightarrow> (string \<times> string) list" where
  "bentry_vars i b =
     [(index_name CFG_TITLE i, the (title b)), (index_name CFG_LABEL i, the (label b)),
      (index_name CFG_ROOT i, the (root b)), (index_name CFG_KERNEL i, the (kernel b)),
      (index_name CFG_INITRD i, the (initrd b)), (index_name CFG_CMDLINE i, the (cmdline b)),
      (index_name CFG_PARMFILE i, the (parmfile b)), (index_name CFG_INSFILE i, the (insfile b)),
      (index_name CFG_BOOTMAP i, the (bootmap b)),
      (index_name CFG_LOCKED i, printf_d (locked b)), (index_name CFG_PAUSE i, the (pause b)),
      (index_name CFG_ACTION i, printf_d (int_of_action (action b)))]"

fun entries_vars :: "nat \<Rightarrow> cfg_bentry list \<Rightarrow> (string \<times> string) list" where
  "entries_vars i [] = []"
| "entries_vars i (b # bs) = bentry_vars i b @ entries_vars (Suc i) bs"

definition env_vars :: "cfg_toplevel \<Rightarrow> (string \<times> string) list" where
  "env_vars c =
     [(CFG_VERSION, CFG_CONFIG_VERSION), (CFG_DEFAULT, printf_d (boot_default c)),
      (CFG_TIMEOUT, printf_d (timeout c)), (CFG_PASSWORD, the (password c)),
      (CFG_BENTRY_COUNT, printf_d (int (bentry_count c)))]
     @ entries_vars 0 (bentry_list c)"

definition set_vars :: "(string \<times> string) list \<Rightarrow> environ \<Rightarrow> environ" where
  "set_vars kvs env = fold (\<lambda>k. set_var (fst k) (snd k)) kvs env"

lemma set_env_bentry_vars:
  assumes "bentry_wf b"
  shows "set_env_bentry (b, i) env = Inr (set_vars (bentry_vars i b) env)"
proof -
  from assms obtain t l r k n m p s o' u where
    "title b = Some t" "label b = Some l" "root b = Some r" "kernel b = Some k"
    "initrd b = Some n" "cmdline b = Some m" "parmfile b = Some p" "insfile b = Some s"
    "bootmap b = Some o'" "pause b = Some u"
    by (auto simp: bentry_wf_def)
  then show ?thesis
    by (simp add: set_env_bentry_def bentry_vars_def set_vars_def cfg_set_env_str_i_def
        cfg_set_env_int_i_def cfg_simps)
qed

lemma set_env_entries_vars:
  "(\<And>b. b \<in> set bs \<Longrightarrow> bentry_wf b) \<Longrightarrow>
   efold set_env_bentry (zip bs [i..<i + length bs]) env
     = Inr (set_vars (entries_vars i bs) env)"
proof (induction bs arbitrary: i env)
  case Nil
  then show ?case by (simp add: set_vars_def)
next
  case (Cons b bs)
  have upt: "[i..<i + length (b # bs)] = i # [Suc i..<Suc i + length bs]"
    using upt_add_Suc [of i "length bs"] by (simp del: upt_Suc)
  have "set_env_bentry (b, i) env = Inr (set_vars (bentry_vars i b) env)"
    using Cons.prems by (intro set_env_bentry_vars) simp
  then show ?case
    unfolding upt using Cons.IH [of "Suc i" "set_vars (bentry_vars i b) env"] Cons.prems
    by (simp del: upt_Suc) (simp add: set_vars_def)
qed

lemma cfg_set_env_vars:
  assumes "cfg_wf c"
  shows "cfg_set_env c env = Inr (set_vars (env_vars c) env)"
proof -
  from assms obtain p where p: "password c = Some p" by (auto simp: cfg_wf_def)
  have "efold set_env_bentry (zip (bentry_list c) [0..<0 + length (bentry_list c)]) e
      = Inr (set_vars (entries_vars 0 (bentry_list c)) e)" for e
    using assms by (intro set_env_entries_vars) (auto simp: cfg_wf_def)
  with assms p show ?thesis
    by (simp add: cfg_set_env_def env_vars_def cfg_simps cfg_wf_def) (simp add: set_vars_def)
qed

subsection \<open>The names are pairwise different\<close>

lemma index_name_digits:
  "takeWhile isdigit (tl (index_name f i)) = dec i"
proof -
  have "\<not> isdigit (CHR ''_'')" by (simp add: isdigit_def)
  then show ?thesis
    by (simp add: index_name_def printf_d_def takeWhile_append_stop dec_digits)
qed

lemma index_name_inject [simp]: "index_name f i = index_name g j \<longleftrightarrow> i = j \<and> f = g"
proof
  assume eq: "index_name f i = index_name g j"
  from arg_cong [OF eq, of "\<lambda>n. takeWhile isdigit (tl n)"] have "i = j"
    by (simp add: index_name_digits)
  with eq show "i = j \<and> f = g" by (simp add: index_name_def)
qed simp

lemma index_name_second: "isdigit (index_name f i ! 1)"
proof -
  obtain d ds where "dec i = d # ds" by (cases "dec i") auto
  with dec_digits [of d i] show ?thesis by (simp add: index_name_def printf_d_def)
qed

lemma index_name_not_global [simp]:
  "index_name f i \<noteq> CFG_VERSION" "index_name f i \<noteq> CFG_DEFAULT" "index_name f i \<noteq> CFG_TIMEOUT"
  "index_name f i \<noteq> CFG_PASSWORD" "index_name f i \<noteq> CFG_BENTRY_COUNT"
  "index_name f i \<noteq> CFG_PATH" "index_name f i \<noteq> CFG_STARTUP_MSG"
  using index_name_second [of f i] by (auto simp: cfg_names isdigit_def)

lemmas global_not_index_name [simp] = index_name_not_global [symmetric]

lemma okname_index:
  assumes "okname f"
  shows "okname (index_name f i)"
proof -
  have "CHR ''='' \<notin> set (dec i)" using dec_digits [of "CHR ''=''" i] by (auto simp: isdigit_def)
  with assms show ?thesis by (simp add: okname_def index_name_def printf_d_def)
qed

lemma okname_names [simp]:
  "okname CFG_VERSION" "okname CFG_DEFAULT" "okname CFG_TIMEOUT" "okname CFG_PASSWORD"
  "okname CFG_BENTRY_COUNT" "okname CFG_PATH" "okname CFG_STARTUP_MSG"
  by (simp_all add: okname_def cfg_names)

lemma bentry_vars_names:
  "k \<in> set (bentry_vars i b) \<Longrightarrow> \<exists>f. okname f \<and> fst k = index_name f i"
  by (auto simp: bentry_vars_def okname_def cfg_names)

lemma distinct_bentry_vars: "distinct (map fst (bentry_vars i b))"
  by (simp add: bentry_vars_def cfg_names)

lemma entries_vars_names:
  "k \<in> set (entries_vars i bs) \<Longrightarrow> \<exists>f j. okname f \<and> fst k = index_name f j \<and> i \<le> j"
proof (induction bs arbitrary: i)
  case (Cons b bs)
  then consider "k \<in> set (bentry_vars i b)" | "k \<in> set (entries_vars (Suc i) bs)" by auto
  then show ?case
  proof cases
    case 1
    then show ?thesis using bentry_vars_names by blast
  next
    case 2
    then show ?thesis using Cons.IH [of "Suc i"] Suc_leD by blast
  qed
qed simp

lemma distinct_entries_vars: "distinct (map fst (entries_vars i bs))"
proof (induction bs arbitrary: i)
  case (Cons b bs)
  have "fst k \<noteq> fst l" if "k \<in> set (bentry_vars i b)" "l \<in> set (entries_vars (Suc i) bs)" for k l
    using bentry_vars_names [OF that(1)] entries_vars_names [OF that(2)] by auto
  then have "fst ` set (bentry_vars i b) \<inter> fst ` set (entries_vars (Suc i) bs) = {}"
    by auto
  with Cons show ?case by (simp add: distinct_bentry_vars)
qed simp

subsection \<open>The round trip\<close>

lemma okname_env_vars:
  assumes "k \<in> set (env_vars c)"
  shows "okname (fst k)"
proof -
  from assms consider "k \<in> set (entries_vars 0 (bentry_list c))"
    | "fst k \<in> {CFG_VERSION, CFG_DEFAULT, CFG_TIMEOUT, CFG_PASSWORD, CFG_BENTRY_COUNT}"
    by (auto simp: env_vars_def)
  then show ?thesis
  proof cases
    case 1
    then show ?thesis using entries_vars_names okname_index by metis
  qed auto
qed

lemma distinct_env_vars: "distinct (map fst (env_vars c))"
proof -
  have "fst k \<notin> {CFG_VERSION, CFG_DEFAULT, CFG_TIMEOUT, CFG_PASSWORD, CFG_BENTRY_COUNT}"
    if "k \<in> set (entries_vars 0 (bentry_list c))" for k
    using entries_vars_names [OF that] by auto
  then have "{CFG_VERSION, CFG_DEFAULT, CFG_TIMEOUT, CFG_PASSWORD, CFG_BENTRY_COUNT}
      \<inter> fst ` set (entries_vars 0 (bentry_list c)) = {}"
    by (rule disjoint_imageI)
  moreover have
    "distinct [CFG_VERSION, CFG_DEFAULT, CFG_TIMEOUT, CFG_PASSWORD, CFG_BENTRY_COUNT]"
    by (simp add: cfg_names)
  ultimately show ?thesis
    using distinct_entries_vars [of 0 "bentry_list c"]
    by (simp add: env_vars_def)
qed

lemma get_env_vars [cfg_simps]:
  "(n, v) \<in> set (env_vars c) \<Longrightarrow> get_var n (set_vars (env_vars c) env) = Some v"
  unfolding set_vars_def using okname_env_vars distinct_env_vars by (rule vars.get_set_all)

text \<open>A variable the configuration does not use keeps its value.\<close>

lemma get_env_vars_other:
  assumes "okname m" and "m \<notin> fst ` set (env_vars c)"
  shows "get_var m (set_vars (env_vars c) env) = get_var m env"
  unfolding set_vars_def using okname_env_vars assms by (rule vars.get_set_all_other)

lemma bentry_vars_subset:
  "j < length bs \<Longrightarrow> set (bentry_vars (i + j) (bs ! j)) \<subseteq> set (entries_vars i bs)"
proof (induction bs arbitrary: i j)
  case (Cons b bs)
  then show ?case
  proof (cases j)
    case (Suc k)
    with Cons.prems Cons.IH [of k "Suc i"] show ?thesis by auto
  qed auto
qed simp

definition bentry_ints :: "cfg_bentry \<Rightarrow> bool" where
  "bentry_ints b \<longleftrightarrow> int32 (locked b) \<and> action_wf (action b)"

definition cfg_ints :: "cfg_toplevel \<Rightarrow> bool" where
  "cfg_ints c \<longleftrightarrow> int32 (boot_default c) \<and> int32 (timeout c) \<and> int32 (int (bentry_count c))
     \<and> (\<forall>b \<in> set (bentry_list c). bentry_ints b)"

lemma get_env_bentry_vars:
  assumes read: "\<And>n v. (n, v) \<in> set (bentry_vars i b) \<Longrightarrow> get_var n env = Some v"
    and "bentry_wf b" and "bentry_ints b"
  shows "get_env_bentry env i = Inr b"
proof -
  from assms(2) obtain t l r k n m p s o' u where strs:
    "title b = Some t" "label b = Some l" "root b = Some r" "kernel b = Some k"
    "initrd b = Some n" "cmdline b = Some m" "parmfile b = Some p" "insfile b = Some s"
    "bootmap b = Some o'" "pause b = Some u"
    by (auto simp: bentry_wf_def)
  have reads:
    "get_var (index_name CFG_TITLE i) env = Some t" "get_var (index_name CFG_LABEL i) env = Some l"
    "get_var (index_name CFG_ROOT i) env = Some r" "get_var (index_name CFG_KERNEL i) env = Some k"
    "get_var (index_name CFG_INITRD i) env = Some n" "get_var (index_name CFG_CMDLINE i) env = Some m"
    "get_var (index_name CFG_PARMFILE i) env = Some p" "get_var (index_name CFG_INSFILE i) env = Some s"
    "get_var (index_name CFG_BOOTMAP i) env = Some o'" "get_var (index_name CFG_PAUSE i) env = Some u"
    "get_var (index_name CFG_LOCKED i) env = Some (printf_d (locked b))"
    "get_var (index_name CFG_ACTION i) env = Some (printf_d (int_of_action (action b)))"
    by (rule read, simp add: bentry_vars_def strs)+
  from assms(3) have "int32 (locked b)" "action_wf (action b)" by (auto simp: bentry_ints_def)
  with reads show ?thesis
    by (simp add: get_env_bentry_def cfg_get_env_str_i_def cfg_get_env_int_i_def Let_def cfg_simps)
       (simp add: strs)
qed

lemma cfg_env_roundtrip:
  assumes wf: "cfg_wf c" and ints: "cfg_ints c"
  shows "ebind (cfg_set_env c env) (cfg_get_env cfg_new)
    = Inr (c\<lparr>ui_list := [], ui_count := 0\<rparr>)"
proof -
  let ?e = "set_vars (env_vars c) env"
  let ?c0 = "cfg_new\<lparr>boot_default := boot_default c, timeout := timeout c, password := password c\<rparr>"
  from wf obtain p where p: "password c = Some p" by (auto simp: cfg_wf_def)
  from wf have len: "length (bentry_list c) = bentry_count c" by (simp add: cfg_wf_def)
  have globals: "(CFG_DEFAULT, printf_d (boot_default c)) \<in> set (env_vars c)"
      "(CFG_TIMEOUT, printf_d (timeout c)) \<in> set (env_vars c)"
      "(CFG_PASSWORD, p) \<in> set (env_vars c)"
      "(CFG_BENTRY_COUNT, printf_d (int (bentry_count c))) \<in> set (env_vars c)"
    by (simp_all add: env_vars_def p)
  have reads: "cfg_get_env_int CFG_DEFAULT k ?e = Inr (boot_default c)"
      "cfg_get_env_int CFG_TIMEOUT k ?e = Inr (timeout c)"
      "cfg_get_env_str CFG_PASSWORD q ?e = Inr (password c)"
      "cfg_get_env_int CFG_BENTRY_COUNT k ?e = Inr (int (bentry_count c))" for k q
    using ints globals [THEN get_env_vars, of env] by (simp_all add: cfg_ints_def cfg_simps p)
  have entry: "get_env_bentry ?e i = Inr (bentry_list c ! i)" if "i < length (bentry_list c)" for i
  proof (rule get_env_bentry_vars)
    fix n v assume "(n, v) \<in> set (bentry_vars i (bentry_list c ! i))"
    with bentry_vars_subset [OF that, of 0] have "(n, v) \<in> set (env_vars c)"
      by (auto simp: env_vars_def)
    then show "get_var n ?e = Some v" by (rule get_env_vars)
  qed (use wf ints that in \<open>auto simp: cfg_wf_def cfg_ints_def\<close>)
  have wf0: "cfg_wf ?c0" using p by (simp add: cfg_new_def cfg_init_def cfg_wf_def)
  have oks: "\<And>b. b \<in> set (bentry_list c) \<Longrightarrow> bentry_wf b" using wf by (simp add: cfg_wf_def)
  obtain t where t: "efold (\<lambda>b d. cfg_add_bentry d b) (bentry_list c) ?c0 = Inr t"
      "bentry_list t = bentry_list ?c0 @ bentry_list c" "cfg_wf t"
      "bentry_frame t = bentry_frame ?c0"
    using entries.add_all [OF wf0 oks] by blast
  have "cfg_get_env cfg_new ?e = Inr t"
    using t(1) efold_index [of "bentry_list c" "get_env_bentry ?e" cfg_add_bentry ?c0] entry
    by (simp add: cfg_get_env_def reads len)
  moreover have "t = c\<lparr>ui_list := [], ui_count := 0\<rparr>"
    using t(2-4) len
    by (auto simp: bentry_frame_def cfg_new_def cfg_init_def cfg_wf_def
        intro!: cfg_toplevel.equality)
  ultimately show ?thesis by (simp add: cfg_set_env_vars [OF wf])
qed

end
