(* ===== verification/Machine.thy ===== *)
theory Machine
  imports Environment Disk
begin

section \<open>The process and its surroundings\<close>

text \<open>
  What the booting operations act on: the files of the RAM disk the program runs from, the block
  device nodes, its environment, its signal dispositions and the programs it has started. An
  operation is a function from this state to an outcome and the next state.

  Programs the code starts (loader modules, \<^verbatim>\<open>kexec\<close>, \<^verbatim>\<open>reboot\<close>, ...) are not part of the
  C sources: they are a parameter \<open>prog\<close> of the operations, a function of the argument vector and
  the file system. It cannot touch the environment or the signal dispositions of its parent.
\<close>

subsection \<open>State\<close>

record fs =
  files :: "string \<Rightarrow> string option"
  creat_err :: "string \<Rightarrow> string option"
  open_err :: "string \<Rightarrow> string option"
  close_fails :: "string \<Rightarrow> bool"
  fs_errno :: string
  capacity :: nat
  chunk :: nat
  bad :: "string \<Rightarrow> nat option"
  nodes :: "string \<Rightarrow> (int \<times> int) option"
  devices :: "int \<times> int \<Rightarrow> string + device"

datatype signum = SIGINT | SIGQUIT | SIGCHLD

datatype handler = SIG_DFL | SIG_IGN | Handler nat

record sys =
  sys_fs :: fs
  sys_env :: environ
  sys_sig :: "signum \<Rightarrow> handler"
  sys_trace :: "string list list"
  sys_stderr :: "string list"
  sys_stores :: "(string \<times> string) list"
  sys_arg0 :: string

text \<open>
  \<open>Stopped\<close> is a call from which control does not come back because the program has exited or the
  machine runs a new kernel, \<open>Spin\<close> one that loops or blocks for ever, \<open>Bad\<close> undefined behaviour.
\<close>

datatype 'a outcome = Done 'a | Stopped | Spin | Bad ub

type_synonym 'a act = "sys \<Rightarrow> 'a outcome \<times> sys"

definition aret :: "'a \<Rightarrow> 'a act" where
  "aret x s = (Done x, s)"

definition abind :: "'a act \<Rightarrow> ('a \<Rightarrow> 'b act) \<Rightarrow> 'b act" where
  "abind m f s =
     (case m s of
        (Done x, t) \<Rightarrow> f x t
      | (Stopped, t) \<Rightarrow> (Stopped, t)
      | (Spin, t) \<Rightarrow> (Spin, t)
      | (Bad u, t) \<Rightarrow> (Bad u, t))"

definition stop :: "'a act" where "stop s = (Stopped, s)"
definition spin :: "'a act" where "spin s = (Spin, s)"
definition bad_act :: "ub \<Rightarrow> 'a act" where "bad_act u s = (Bad u, s)"

definition modify :: "(sys \<Rightarrow> sys) \<Rightarrow> unit act" where
  "modify f s = (Done (), f s)"

definition query :: "(sys \<Rightarrow> 'a) \<Rightarrow> 'a act" where
  "query f s = (Done (f s), s)"

named_theorems act_simps \<open>running operations on the machine\<close>

lemma aret_apply [act_simps, simp]: "aret x s = (Done x, s)" by (simp add: aret_def)
lemma stop_apply [act_simps, simp]: "stop s = (Stopped, s)" by (simp add: stop_def)
lemma spin_apply [act_simps, simp]: "spin s = (Spin, s)" by (simp add: spin_def)
lemma bad_apply [act_simps, simp]: "bad_act u s = (Bad u, s)" by (simp add: bad_act_def)
lemma modify_apply [act_simps, simp]: "modify f s = (Done (), f s)" by (simp add: modify_def)
lemma query_apply [act_simps, simp]: "query f s = (Done (f s), s)" by (simp add: query_def)

lemma abind_Done [act_simps, simp]: "m s = (Done x, t) \<Longrightarrow> abind m f s = f x t"
  by (simp add: abind_def)

lemma abind_stuck [act_simps, simp]:
  "m s = (Stopped, t) \<Longrightarrow> abind m f s = (Stopped, t)"
  "m s = (Spin, t) \<Longrightarrow> abind m f s = (Spin, t)"
  "m s = (Bad u, t) \<Longrightarrow> abind m f s = (Bad u, t)"
  by (simp_all add: abind_def)

lemma abind_fst_Stopped: "fst (m s) = Stopped \<Longrightarrow> abind m f s = (Stopped, snd (m s))"
  by (cases "m s") simp

lemma abind_DoneI: "m s = (Done x, t) \<Longrightarrow> f x t = r \<Longrightarrow> abind m f s = r"
  by simp

lemma abind_basic [act_simps, simp]:
  "abind (aret x) f1 s = f1 x s"
  "abind (query g) f2 s = f2 (g s) s"
  "abind (modify h) f3 s = f3 () (h s)"
  by simp_all

lemma abind_Done_iff:
  "abind m f s = (Done y, u) \<longleftrightarrow> (\<exists>x t. m s = (Done x, t) \<and> f x t = (Done y, u))"
  by (auto simp: abind_def split: prod.splits outcome.splits)

lemma abind_assoc: "abind (abind m f) g = abind m (\<lambda>x. abind (f x) g)"
  by (rule ext) (auto simp: abind_def split: prod.splits outcome.splits)

lemma abind_cong: "m = n \<Longrightarrow> (\<And>x. f x = g x) \<Longrightarrow> abind m f = abind n g"
  by presburger

lemma abind_cong_Done:
  "(\<And>s d t. m s = (Done d, t) \<Longrightarrow> f d t = g d t) \<Longrightarrow> abind m f = abind m g"
  by (rule ext) (simp add: abind_def split: prod.splits outcome.splits)

lemma abind_aret_right [simp]: "abind m aret = m"
  by (rule ext) (simp add: abind_def split: prod.splits outcome.splits)

lemma abind_aret [simp]: "abind (aret x) f = f x"
  by (rule ext) simp

text \<open>Undefined behaviour and errors of the layers below.\<close>

definition lift_res :: "'a c_res \<Rightarrow> 'a act" where
  "lift_res m = (case m of Inl u \<Rightarrow> bad_act u | Inr x \<Rightarrow> aret x)"

text \<open>
  A \<open>run\<close> as an operation: an error message is a value the caller receives (\<open>Inl\<close>).
\<close>

definition lift_run :: "'a run \<Rightarrow> (string + 'a) act" where
  "lift_run m =
     (case m of
        None \<Rightarrow> spin
      | Some (Inl (Errmsg e)) \<Rightarrow> aret (Inl e)
      | Some (Inl (Undef u)) \<Rightarrow> bad_act u
      | Some (Inr x) \<Rightarrow> aret (Inr x))"

lemma lift_res_simps [act_simps, simp]:
  "lift_res (Inl u) = bad_act u" "lift_res (Inr x) = aret x"
  by (simp_all add: lift_res_def)

lemma lift_run_simps [act_simps, simp]:
  "lift_run None = spin" "lift_run (fail e) = aret (Inl e)" "lift_run (ret x) = aret (Inr x)"
  by (simp_all add: lift_run_def fail_def ret_def)

text \<open>The text \<^verbatim>\<open>printf("%s")\<close> produces for a pointer; the C library prints a null pointer.\<close>

definition str_arg :: "cptr \<Rightarrow> string" where
  "str_arg p = (case p of None \<Rightarrow> ''(null)'' | Some s \<Rightarrow> s)"

text \<open>The C string that starts a buffer.\<close>

definition cstr :: "string \<Rightarrow> string" where
  "cstr s = takeWhile (\<lambda>c. c \<noteq> CHR 0x00) s"

lemma cstr_id [simp]: "CHR 0x00 \<notin> set s \<Longrightarrow> cstr s = s"
  by (auto simp: cstr_def takeWhile_eq_all_conv)

lemma length_cstr_le: "length (cstr s) \<le> length s"
  by (simp add: cstr_def length_takeWhile_le)

subsection \<open>Files\<close>

definition ENOENT :: string where "ENOENT = ''No such file or directory''"
definition ENOSPC :: string where "ENOSPC = ''No space left on device''"

definition fs_set :: "string \<Rightarrow> string option \<Rightarrow> sys \<Rightarrow> sys" where
  "fs_set path c s = s\<lparr>sys_fs := (sys_fs s)\<lparr>files := (files (sys_fs s))(path := c)\<rparr>\<rparr>"

definition file_at :: "sys \<Rightarrow> string \<Rightarrow> string option" where
  "file_at s path = files (sys_fs s) path"

lemma file_at_set [simp]:
  "file_at (fs_set p c s) q = (if q = p then c else file_at s q)"
  by (simp add: file_at_def fs_set_def)

lemma fs_set_other [simp]:
  "sys_env (fs_set p c s) = sys_env s" "sys_sig (fs_set p c s) = sys_sig s"
  "sys_trace (fs_set p c s) = sys_trace s" "sys_stderr (fs_set p c s) = sys_stderr s"
  "sys_stores (fs_set p c s) = sys_stores s"
  by (simp_all add: fs_set_def)

lemma fs_set_fs [simp]:
  "creat_err (sys_fs (fs_set p c s)) = creat_err (sys_fs s)"
  "open_err (sys_fs (fs_set p c s)) = open_err (sys_fs s)"
  "close_fails (sys_fs (fs_set p c s)) = close_fails (sys_fs s)"
  "fs_errno (sys_fs (fs_set p c s)) = fs_errno (sys_fs s)"
  "capacity (sys_fs (fs_set p c s)) = capacity (sys_fs s)"
  "chunk (sys_fs (fs_set p c s)) = chunk (sys_fs s)"
  "bad (sys_fs (fs_set p c s)) = bad (sys_fs s)"
  "nodes (sys_fs (fs_set p c s)) = nodes (sys_fs s)"
  "devices (sys_fs (fs_set p c s)) = devices (sys_fs s)"
  by (simp_all add: fs_set_def)

lemma fs_set_same [simp]: "fs_set p c (fs_set p d s) = fs_set p c s"
  by (simp add: fs_set_def)

definition unlink :: "string \<Rightarrow> unit act" where
  "unlink path = modify (fs_set path None)"

definition rename :: "string \<Rightarrow> string \<Rightarrow> unit act" where
  "rename old new = modify (\<lambda>s. case file_at s old of
      None \<Rightarrow> s | Some c \<Rightarrow> fs_set old None (fs_set new (Some c) s))"

text \<open>\<^verbatim>\<open>access (path, F_OK) == 0\<close>.\<close>

definition exists_file :: "string \<Rightarrow> bool act" where
  "exists_file path = query (\<lambda>s. file_at s path \<noteq> None)"

text \<open>\<^verbatim>\<open>stat\<close>: the size of a file.\<close>

definition stat_size :: "string \<Rightarrow> nat option act" where
  "stat_size path = query (\<lambda>s. map_option length (file_at s path))"

text \<open>\<^verbatim>\<open>open\<close> for reading: an error text or the open file.\<close>

definition open_file :: "string \<Rightarrow> (string + char fd) act" where
  "open_file path = query (\<lambda>s.
     case file_at s path of
       None \<Rightarrow> Inl ENOENT
     | Some c \<Rightarrow> (case open_err (sys_fs s) path of
         Some e \<Rightarrow> Inl e
       | None \<Rightarrow> Inr \<lparr>fd_data = c, fd_pos = 0, fd_max = chunk (sys_fs s), fd_bad = bad (sys_fs s) path\<rparr>))"

text \<open>\<^verbatim>\<open>creat\<close>: an error text, or the file is empty afterwards.\<close>

definition creat :: "string \<Rightarrow> string option act" where
  "creat path s = (case creat_err (sys_fs s) path of
     Some e \<Rightarrow> (Done (Some e), s)
   | None \<Rightarrow> (Done None, fs_set path (Some []) s))"

text \<open>
  \<^verbatim>\<open>write\<close> at the end of a file: the number of bytes written is limited by the space left.
\<close>

definition write_file :: "string \<Rightarrow> string \<Rightarrow> nat act" where
  "write_file path data s =
     (let old = (case file_at s path of None \<Rightarrow> [] | Some c \<Rightarrow> c);
          n = min (length data) (capacity (sys_fs s) - length old)
      in (Done n, fs_set path (Some (old @ take n data)) s))"

definition eprint :: "string \<Rightarrow> unit act" where
  "eprint msg = modify (\<lambda>s. s\<lparr>sys_stderr := sys_stderr s @ [msg]\<rparr>)"

text \<open>The same with the name of the program, the global variable \<^verbatim>\<open>arg0\<close>, in front.\<close>

definition eprint_arg0 :: "string \<Rightarrow> unit act" where
  "eprint_arg0 msg = modify (\<lambda>s. s\<lparr>sys_stderr := sys_stderr s @ [sys_arg0 s @ msg]\<rparr>)"

lemma file_ops [act_simps, simp]:
  "unlink p s = (Done (), fs_set p None s)"
  "exists_file p s = (Done (file_at s p \<noteq> None), s)"
  "stat_size p s = (Done (map_option length (file_at s p)), s)"
  by (simp_all add: unlink_def exists_file_def stat_size_def)

lemma abind_file_ops [act_simps, simp]:
  "abind (unlink p) f s = f () (fs_set p None s)"
  "abind (exists_file p) g s = g (file_at s p \<noteq> None) s"
  "abind (stat_size p) h s = h (map_option length (file_at s p)) s"
  by simp_all

subsection \<open>Programs\<close>

text \<open>
  A program that was started: the rounds in which its output became readable (what was read from
  its standard output and from its standard error, an empty piece at the end of a stream) and its
  wait status; or a program from which control does not come back.
\<close>

type_synonym round = "string option \<times> string option"

datatype proc = ForkFailed | Exited "round list" int | Lost "round list" | NoReturn

type_synonym prog = "string list \<Rightarrow> fs \<Rightarrow> proc \<times> fs"

definition run_prog :: "prog \<Rightarrow> string list \<Rightarrow> proc act" where
  "run_prog prog argv s =
     (let (p, f) = prog argv (sys_fs s)
      in (Done p, s\<lparr>sys_fs := f, sys_trace := sys_trace s @ [argv]\<rparr>))"

definition signal :: "signum \<Rightarrow> handler \<Rightarrow> handler act" where
  "signal n h s = (Done (sys_sig s n), s\<lparr>sys_sig := (sys_sig s)(n := h)\<rparr>)"

lemma signal_apply [act_simps, simp]:
  "signal n h s = (Done (sys_sig s n), s\<lparr>sys_sig := (sys_sig s)(n := h)\<rparr>)"
  by (simp add: signal_def)

text \<open>
  \<^verbatim>\<open>systemv\<close>: interrupts are ignored while the program runs, the dispositions are restored when
  it has returned.
\<close>

definition systemv :: "prog \<Rightarrow> string list \<Rightarrow> int act" where
  "systemv prog argv =
     abind (signal SIGINT SIG_IGN) (\<lambda>sigint.
     abind (signal SIGQUIT SIG_IGN) (\<lambda>sigquit.
     abind (signal SIGCHLD SIG_DFL) (\<lambda>sigchld.
     abind (run_prog prog argv) (\<lambda>p.
       (case p of
          ForkFailed \<Rightarrow>
            abind (signal SIGINT sigint) (\<lambda>_.
            abind (signal SIGQUIT sigquit) (\<lambda>_.
            abind (signal SIGCHLD sigchld) (\<lambda>_.
            abind (query (\<lambda>s. fs_errno (sys_fs s))) (\<lambda>e.
            abind (eprint_arg0 ('': fork failed - '' @ e @ [nl])) (\<lambda>_. aret (- 1))))))
        | NoReturn \<Rightarrow> stop
        | Exited rs status \<Rightarrow>
            abind (signal SIGINT sigint) (\<lambda>_.
            abind (signal SIGQUIT sigquit) (\<lambda>_.
            abind (signal SIGCHLD sigchld) (\<lambda>_. aret status)))
        | Lost rs \<Rightarrow>
            abind (signal SIGINT sigint) (\<lambda>_.
            abind (signal SIGQUIT sigquit) (\<lambda>_.
            abind (signal SIGCHLD sigchld) (\<lambda>_. aret (- 1)))))))))"

text \<open>
  The call runs exactly the given command once; when it returns, the signal dispositions are
  those of before.
\<close>

lemma restore_signals:
  "(f(SIGINT := a, SIGQUIT := b, SIGCHLD := c, SIGINT := f SIGINT, SIGQUIT := f SIGQUIT,
      SIGCHLD := f SIGCHLD)) = f"
  by (rule ext) (case_tac x, simp_all)

lemma run_prog_eq [act_simps]:
  "prog argv (sys_fs s) = (p, f) \<Longrightarrow>
   run_prog prog argv s = (Done p, s\<lparr>sys_fs := f, sys_trace := sys_trace s @ [argv]\<rparr>)"
  by (simp add: run_prog_def)

lemma systemv_eq [act_simps]:
  "prog argv (sys_fs s) = (Exited rs n, f) \<Longrightarrow>
   systemv prog argv s = (Done n, s\<lparr>sys_fs := f, sys_trace := sys_trace s @ [argv]\<rparr>)"
  "prog argv (sys_fs s) = (Lost rs, f) \<Longrightarrow>
   systemv prog argv s = (Done (- 1), s\<lparr>sys_fs := f, sys_trace := sys_trace s @ [argv]\<rparr>)"
  "prog argv (sys_fs s) = (ForkFailed, f) \<Longrightarrow>
   systemv prog argv s = (Done (- 1), s\<lparr>sys_fs := f, sys_trace := sys_trace s @ [argv],
      sys_stderr := sys_stderr s @ [sys_arg0 s @ '': fork failed - '' @ fs_errno f @ [nl]]\<rparr>)"
  "prog argv (sys_fs s) = (NoReturn, f) \<Longrightarrow>
   systemv prog argv s = (Stopped, s\<lparr>sys_fs := f, sys_trace := sys_trace s @ [argv],
      sys_sig := (sys_sig s)(SIGINT := SIG_IGN, SIGQUIT := SIG_IGN, SIGCHLD := SIG_DFL)\<rparr>)"
  by (simp_all add: systemv_def run_prog_eq restore_signals eprint_arg0_def)

lemma systemv_trace: "sys_trace (snd (systemv prog argv s)) = sys_trace s @ [argv]"
proof -
  obtain p f where p: "prog argv (sys_fs s) = (p, f)" by fastforce
  then show ?thesis by (cases p) (simp_all add: systemv_eq)
qed

lemma systemv_restores: "systemv prog argv s = (Done n, t) \<Longrightarrow> sys_sig t = sys_sig s"
proof -
  assume r: "systemv prog argv s = (Done n, t)"
  obtain p f where p: "prog argv (sys_fs s) = (p, f)" by fastforce
  with r show ?thesis by (cases p) (auto simp: systemv_eq)
qed

end
