(* ===== verification/Uri.thy ===== *)
theory Uri
  imports Machine
begin

section \<open>URIs (comp\_load.c, loader.c, insfile.c)\<close>

text \<open>
  Scheme recognition, the resolution of relative URIs against a root, and the directory part of
  a URI.
\<close>

definition isalpha_c :: "char \<Rightarrow> bool" where
  "isalpha_c c \<longleftrightarrow> islower c \<or> isupper c"

definition scheme_char :: "char \<Rightarrow> bool" where
  "scheme_char c \<longleftrightarrow> islower c \<or> isupper c \<or> isdigit c \<or> c = CHR ''+'' \<or> c = CHR ''-'' \<or> c = CHR ''.''"

definition verify_uri_scheme :: "string \<Rightarrow> int" where
  "verify_uri_scheme uri =
     (case strchr uri CHR '':'' of
        None \<Rightarrow> - 1
      | Some colon \<Rightarrow>
          if \<not> islower (uri ! 0) \<and> \<not> isupper (uri ! 0) then - 1
          else if \<exists>c \<in> set (drop 1 (take colon uri)). \<not> scheme_char c then - 1
          else 0)"

definition prefix_root :: "cptr \<Rightarrow> string \<Rightarrow> string" where
  "prefix_root rt uri =
     (if length uri = 0 then []
      else if 1 < length uri \<and> uri ! 0 = CHR 0x27 \<and> uri ! (length uri - 1) = CHR 0x27
      then butlast (str_arg rt @ drop 1 uri)
      else (case strchr uri CHR '':'' of
          None \<Rightarrow> str_arg rt @ uri
        | Some colon \<Rightarrow>
            if \<not> islower (uri ! 0) \<and> \<not> isupper (uri ! 0) then str_arg rt @ uri
            else if \<exists>c \<in> set (drop 1 (take colon uri)). \<not> scheme_char c then str_arg rt @ uri
            else uri))"

text \<open>The search for the last slash, from the end.\<close>

fun last_slash :: "string \<Rightarrow> nat \<Rightarrow> nat option" where
  "last_slash uri 0 = None"
| "last_slash uri (Suc i) = (if uri ! i = CHR ''/'' then Some i else last_slash uri i)"

definition get_uri_path :: "string \<Rightarrow> string" where
  "get_uri_path uri =
     take (case last_slash uri (length uri) of None \<Rightarrow> length uri | Some i \<Rightarrow> i + 1) uri"

subsection \<open>What a scheme is\<close>

text \<open>The grammar of an absolute URI: a scheme, a colon, the rest.\<close>

definition absolute :: "string \<Rightarrow> bool" where
  "absolute uri \<longleftrightarrow> (\<exists>sch rest. uri = sch @ CHR '':'' # rest \<and> sch \<noteq> [] \<and> isalpha_c (hd sch)
     \<and> (\<forall>c \<in> set sch. scheme_char c))"

lemma colon_no_scheme_char: "\<not> scheme_char CHR '':''"
  by (simp add: scheme_char_def ctype_defs)

lemma alpha_scheme_char: "isalpha_c c \<Longrightarrow> scheme_char c"
  by (auto simp: isalpha_c_def scheme_char_def)

lemma strchr_Some_split:
  "strchr s c = Some k \<longleftrightarrow> k < length s \<and> s ! k = c \<and> c \<notin> set (take k s)"
proof
  assume "strchr s c = Some k"
  then show "k < length s \<and> s ! k = c \<and> c \<notin> set (take k s)"
    unfolding strchr_def by (auto dest!: find_index_Some simp: in_set_conv_nth)
next
  assume r: "k < length s \<and> s ! k = c \<and> c \<notin> set (take k s)"
  then have s: "s = take k s @ c # drop (Suc k) s" by (metis id_take_nth_drop)
  have "strchr (take k s @ c # drop (Suc k) s) c = Some (length (take k s))"
    using r by (intro strchr_append) simp
  with r s show "strchr s c = Some k" by simp
qed

lemma verify_uri_scheme_colon:
  assumes "CHR '':'' \<notin> set sch"
  shows "verify_uri_scheme (sch @ CHR '':'' # rest) = 0
    \<longleftrightarrow> sch \<noteq> [] \<and> isalpha_c (hd sch) \<and> (\<forall>c \<in> set sch. scheme_char c)"
proof (cases sch)
  case Nil
  then show ?thesis by (simp add: verify_uri_scheme_def strchr_def ctype_defs)
next
  case (Cons a t)
  then show ?thesis
    using strchr_append [OF assms, of rest]
    by (auto simp: verify_uri_scheme_def isalpha_c_def scheme_char_def)
qed

lemma verify_uri_scheme_iff: "verify_uri_scheme uri = 0 \<longleftrightarrow> absolute uri"
proof (cases "CHR '':'' \<in> set uri")
  case True
  then obtain sch rest where u: "uri = sch @ CHR '':'' # rest" and n: "CHR '':'' \<notin> set sch"
    by (meson split_list_first)
  have "absolute uri \<longleftrightarrow> sch \<noteq> [] \<and> isalpha_c (hd sch) \<and> (\<forall>c \<in> set sch. scheme_char c)"
  proof
    assume "absolute uri"
    then obtain s r where s: "uri = s @ CHR '':'' # r" "s \<noteq> []" "isalpha_c (hd s)"
        "\<forall>c \<in> set s. scheme_char c" by (auto simp: absolute_def)
    then have "CHR '':'' \<notin> set s" using colon_no_scheme_char by blast
    with n u s(1) have "s = sch"
      by (metis strchr_append option.inject append_eq_append_conv)
    with s show "sch \<noteq> [] \<and> isalpha_c (hd sch) \<and> (\<forall>c \<in> set sch. scheme_char c)" by simp
  qed (use u in \<open>auto simp: absolute_def\<close>)
  then show ?thesis using verify_uri_scheme_colon [OF n] u by simp
next
  case False
  then have "strchr uri CHR '':'' = None" by (simp add: strchr_None)
  moreover have "\<not> absolute uri" using False by (auto simp: absolute_def)
  ultimately show ?thesis by (simp add: verify_uri_scheme_def)
qed

lemma absolute_head: "absolute uri \<Longrightarrow> uri \<noteq> [] \<and> isalpha_c (hd uri)"
  by (auto simp: absolute_def)

lemma absolute_append: "absolute rt \<Longrightarrow> absolute (rt @ s)"
  by (force simp: absolute_def)

subsection \<open>Resolution\<close>

definition quoted :: "string \<Rightarrow> bool" where
  "quoted uri \<longleftrightarrow> (\<exists>s. uri = CHR 0x27 # s @ [CHR 0x27])"

lemma quoted_iff:
  "quoted uri \<longleftrightarrow> 1 < length uri \<and> uri ! 0 = CHR 0x27 \<and> uri ! (length uri - 1) = CHR 0x27"
proof
  assume r: "1 < length uri \<and> uri ! 0 = CHR 0x27 \<and> uri ! (length uri - 1) = CHR 0x27"
  then obtain a t where u: "uri = a # t" "t \<noteq> []" by (cases uri) auto
  then have "uri = a # butlast t @ [last t]" by simp
  moreover have "last t = CHR 0x27" using r u by (simp add: last_conv_nth)
  ultimately show "quoted uri" using r u by (auto simp: quoted_def)
qed (auto simp: quoted_def)

text \<open>
  The resolution law: an empty URI stays empty, a quoted one is relative whatever it looks like,
  an absolute one is kept, everything else is appended to the root.
\<close>

lemma prefix_root_eq:
  "prefix_root rt uri =
     (if uri = [] then []
      else if quoted uri then str_arg rt @ butlast (drop 1 uri)
      else if absolute uri then uri else str_arg rt @ uri)"
proof -
  have q: "butlast (str_arg rt @ drop 1 uri) = str_arg rt @ butlast (drop 1 uri)"
    if "quoted uri" using that by (auto simp: quoted_def butlast_append)
  have v: "verify_uri_scheme uri = 0 \<longleftrightarrow> absolute uri" by (rule verify_uri_scheme_iff)
  show ?thesis
    using q unfolding prefix_root_def quoted_iff [symmetric] v [symmetric] verify_uri_scheme_def
    by (auto split: option.splits)
qed

lemma prefix_root_absolute:
  assumes "absolute rt" and "uri \<noteq> []"
  shows "absolute (prefix_root (Some rt) uri)"
  using assms by (auto simp: prefix_root_eq str_arg_def intro: absolute_append)

lemma not_quoted_absolute: "absolute uri \<Longrightarrow> \<not> quoted uri"
  using absolute_head [of uri] by (auto simp: quoted_def isalpha_c_def ctype_defs)

lemma prefix_root_fixed: "absolute uri \<Longrightarrow> prefix_root rt uri = uri"
  using absolute_head [of uri] not_quoted_absolute by (auto simp: prefix_root_eq)

subsection \<open>The directory part\<close>

lemma last_slash_Some:
  "last_slash uri n = Some i \<Longrightarrow> i < n \<and> uri ! i = CHR ''/'' \<and> (\<forall>j. i < j \<and> j < n \<longrightarrow> uri ! j \<noteq> CHR ''/'')"
proof (induction n)
  case (Suc n)
  then show ?case by (fastforce split: if_splits simp: less_Suc_eq)
qed simp

lemma last_slash_None: "last_slash uri n = None \<longleftrightarrow> (\<forall>j < n. uri ! j \<noteq> CHR ''/'')"
  by (induction n) (auto simp: less_Suc_eq)

lemma get_uri_path_split:
  assumes "CHR ''/'' \<in> set uri"
  shows "\<exists>dir base. uri = dir @ CHR ''/'' # base \<and> CHR ''/'' \<notin> set base
    \<and> get_uri_path uri = dir @ [CHR ''/'']"
proof -
  from assms obtain j where "j < length uri" "uri ! j = CHR ''/''" by (auto simp: in_set_conv_nth)
  then have "last_slash uri (length uri) \<noteq> None" by (auto simp: last_slash_None)
  then obtain i where i: "last_slash uri (length uri) = Some i" by auto
  note l = last_slash_Some [OF i]
  have "uri = take i uri @ CHR ''/'' # drop (Suc i) uri" using l by (metis id_take_nth_drop)
  moreover have "CHR ''/'' \<notin> set (drop (Suc i) uri)"
    using l by (auto simp: in_set_conv_nth)
  moreover have "get_uri_path uri = take i uri @ [CHR ''/'']"
    using i l by (simp add: get_uri_path_def take_Suc_conv_app_nth)
  ultimately show ?thesis by blast
qed

lemma get_uri_path_no_slash:
  "CHR ''/'' \<notin> set uri \<Longrightarrow> get_uri_path uri = uri"
  using last_slash_None [of uri "length uri"] by (auto simp: get_uri_path_def in_set_conv_nth)

end
