(* ===== verification/CompLoad.thy ===== *)
theory CompLoad
  imports Uri
begin

section \<open>Loading components (comp\_load.c)\<close>

text \<open>
  \<^verbatim>\<open>comp_load\<close> starts the loader module named by the scheme of a URI, collects what it writes to
  its two output streams and reports its exit status.
\<close>

definition COMP_LOAD_MODULE_PATH :: string where
  "COMP_LOAD_MODULE_PATH = ''cl''"

text \<open>
  \<^verbatim>\<open>read_to_string\<close> on one piece of output: an empty piece is the end of the stream (a failed
  read counts as one).
\<close>

definition read_to_string :: "string \<Rightarrow> string \<Rightarrow> bool \<times> string" where
  "read_to_string piece str = (if piece = [] then (False, str) else (True, str @ cstr piece))"

text \<open>One stream in one round of the loop: its flag (ended) and what was collected.\<close>

definition read_stream :: "string option \<Rightarrow> bool \<times> string \<Rightarrow> bool \<times> string" where
  "read_stream r st =
     (case (r, st) of
        (Some piece, (False, str)) \<Rightarrow>
          (case read_to_string piece str of (ok, str') \<Rightarrow> (\<not> ok, str'))
      | _ \<Rightarrow> st)"

text \<open>
  The \<^verbatim>\<open>select\<close> loop. When no more rounds come although a stream is open, the call blocks: None.
\<close>

fun drain :: "round list \<Rightarrow> bool \<times> string \<Rightarrow> bool \<times> string \<Rightarrow> (string \<times> string) option" where
  "drain [] i e = None"
| "drain (r # rs) i e =
     (let i = read_stream (fst r) i; e = read_stream (snd r) e
      in if fst i \<and> fst e then Some (snd i, snd e) else drain rs i e)"

text \<open>\<^verbatim>\<open>WIFEXITED (st) && WEXITSTATUS (st) == 0\<close>.\<close>

definition exited_ok :: "int \<Rightarrow> bool" where
  "exited_ok st \<longleftrightarrow> st mod 128 = 0 \<and> (st div 256) mod 256 = 0"

text \<open>An output parameter is written only with a non-empty text: None stands for untouched.\<close>

definition non_empty :: "string \<Rightarrow> cptr" where
  "non_empty s = (if length s = 0 then None else Some s)"

definition module_path :: "string \<Rightarrow> string \<Rightarrow> string" where
  "module_path defaultpath uri =
     defaultpath @ ''/'' @ COMP_LOAD_MODULE_PATH @ ''/cl_''
       @ take (case strchr uri CHR '':'' of None \<Rightarrow> 0 | Some k \<Rightarrow> k) uri"

text \<open>The result: the return value and what was written to \<open>info\<close> and \<open>errmsg\<close>.\<close>

definition comp_load :: "prog \<Rightarrow> string \<Rightarrow> string \<Rightarrow> (int \<times> cptr \<times> cptr) act" where
  "comp_load prog dest uri =
     (if verify_uri_scheme uri \<noteq> 0 then aret (- 1, None, Some ''Invalid URI scheme.'')
      else abind (query sys_env) (\<lambda>env.
           abind (lift_res (cfg_get_defaultpath cfg_strinit env)) (\<lambda>defaultpath.
           abind (run_prog prog [module_path (str_arg defaultpath) uri, dest, uri]) (\<lambda>p.
             case p of
               Exited rs status \<Rightarrow>
                 (case drain rs (False, []) (False, []) of
                    None \<Rightarrow> spin
                  | Some (info, err) \<Rightarrow>
                      aret (if exited_ok status then 0 else - 1, non_empty info, non_empty err))
             | Lost rs \<Rightarrow>
                 (case drain rs (False, []) (False, []) of
                    None \<Rightarrow> spin | Some (info, err) \<Rightarrow> bad_act Uninitialized)
             | ForkFailed \<Rightarrow> bad_act Uninitialized
             | NoReturn \<Rightarrow> stop))))"

subsection \<open>The output does not depend on the interleaving\<close>

text \<open>What a stream delivers up to its end, whatever the rounds it came in.\<close>

definition stream_pieces :: "string option list \<Rightarrow> string list" where
  "stream_pieces rs = takeWhile (\<lambda>p. p \<noteq> []) (List.map_filter id rs)"

definition stream_text :: "string option list \<Rightarrow> string" where
  "stream_text rs = concat (map cstr (stream_pieces rs))"

definition stream_ends :: "string option list \<Rightarrow> bool" where
  "stream_ends rs \<longleftrightarrow> Some [] \<in> set rs"

fun stream_state :: "string option list \<Rightarrow> bool \<times> string \<Rightarrow> bool \<times> string" where
  "stream_state [] st = st"
| "stream_state (r # rs) st = stream_state rs (read_stream r st)"

lemma stream_state_ended [simp]: "stream_state rs (True, s) = (True, s)"
  by (induction rs) (auto simp: read_stream_def split: option.splits)

lemma stream_state_open:
  "stream_state rs (False, s) = (stream_ends rs, s @ stream_text rs)"
proof (induction rs arbitrary: s)
  case Nil
  then show ?case
    by (simp add: stream_ends_def stream_text_def stream_pieces_def List.map_filter_simps)
next
  case (Cons r rs)
  show ?case
  proof (cases r)
    case None
    with Cons show ?thesis
      by (simp add: read_stream_def stream_ends_def stream_text_def stream_pieces_def
          List.map_filter_simps)
  next
    case (Some p)
    with Cons show ?thesis
      by (cases "p = []") (simp_all add: read_stream_def read_to_string_def stream_ends_def
          stream_text_def stream_pieces_def List.map_filter_simps)
  qed
qed

lemma read_stream_True: "fst st \<Longrightarrow> read_stream r st = st"
  by (cases st) (auto simp: read_stream_def split: option.splits)

lemma stream_state_True: "fst st \<Longrightarrow> stream_state rs st = st"
  by (cases st) auto

lemma drain_states:
  "rs \<noteq> [] \<Longrightarrow> drain rs i e =
     (if fst (stream_state (map fst rs) i) \<and> fst (stream_state (map snd rs) e)
      then Some (snd (stream_state (map fst rs) i), snd (stream_state (map snd rs) e)) else None)"
proof (induction rs arbitrary: i e)
  case (Cons r rs)
  let ?i = "read_stream (fst r) i" and ?e = "read_stream (snd r) e"
  show ?case
  proof (cases "fst ?i \<and> fst ?e")
    case True
    then show ?thesis by (simp add: Let_def stream_state_True)
  next
    case False
    then show ?thesis
    proof (cases "rs = []")
      case True
      with False show ?thesis by (auto simp: Let_def)
    next
      assume "rs \<noteq> []"
      from Cons.IH [OF this, of ?i ?e] False show ?thesis by (auto simp: Let_def)
    qed
  qed
qed simp

text \<open>
  The loop ends exactly when both streams end, and collects exactly what each stream delivered.
\<close>

lemma drain_eq:
  "drain rs (False, []) (False, []) =
     (if stream_ends (map fst rs) \<and> stream_ends (map snd rs)
      then Some (stream_text (map fst rs), stream_text (map snd rs)) else None)"
proof (cases "rs = []")
  case True
  then show ?thesis by (simp add: stream_ends_def)
next
  case False
  then show ?thesis by (simp add: drain_states stream_state_open)
qed

subsection \<open>What a call does\<close>

definition base_path :: "environ \<Rightarrow> string" where
  "base_path env = (case getenv ''SYSLOAD_PATH'' env of
      None \<Rightarrow> CFG_DEFAULTPATH | Some p \<Rightarrow> if p = [] then CFG_DEFAULTPATH else p)"

lemma cfg_get_defaultpath_base:
  "cfg_get_defaultpath cfg_strinit env = Inr (Some (base_path env))"
  by (auto simp: cfg_get_defaultpath_def cfg_get_env_str_def base_path_def cfg_strinit_def
      cfg_strcpy_def CFG_PREFIX_def CFG_PATH_def split: option.splits)

text \<open>The exact command a call runs for a well-formed URI.\<close>

definition module_argv :: "sys \<Rightarrow> string \<Rightarrow> string \<Rightarrow> string list" where
  "module_argv s dest uri = [module_path (base_path (sys_env s)) uri, dest, uri]"

lemma comp_load_Exited:
  assumes "absolute uri"
    and "prog (module_argv s dest uri) (sys_fs s) = (Exited rs status, f)"
    and "stream_ends (map fst rs)" and "stream_ends (map snd rs)"
  shows "comp_load prog dest uri s =
    (Done (if exited_ok status then 0 else - 1, non_empty (stream_text (map fst rs)),
       non_empty (stream_text (map snd rs))),
     s\<lparr>sys_fs := f, sys_trace := sys_trace s @ [module_argv s dest uri]\<rparr>)"
  using assms verify_uri_scheme_iff [of uri]
  by (simp add: comp_load_def cfg_get_defaultpath_base str_arg_def module_argv_def run_prog_eq
      drain_eq)

lemma comp_load_outcome:
  assumes "absolute uri"
    and "prog (module_argv s dest uri) (sys_fs s) = (Exited rs status, f)"
  shows "comp_load prog dest uri s =
    (if stream_ends (map fst rs) \<and> stream_ends (map snd rs)
     then Done (if exited_ok status then 0 else - 1, non_empty (stream_text (map fst rs)),
       non_empty (stream_text (map snd rs)))
     else Spin, s\<lparr>sys_fs := f, sys_trace := sys_trace s @ [module_argv s dest uri]\<rparr>)"
  using assms verify_uri_scheme_iff [of uri] comp_load_Exited [of uri prog s dest rs status f]
  by (auto simp: comp_load_def cfg_get_defaultpath_base str_arg_def module_argv_def run_prog_eq
      drain_eq)

lemma comp_load_relative:
  "\<not> absolute uri \<Longrightarrow> comp_load prog dest uri s = (Done (- 1, None, Some ''Invalid URI scheme.''), s)"
  using verify_uri_scheme_iff [of uri] by (simp add: comp_load_def)

end
