(* ===== verification/Kexec.thy ===== *)
theory Kexec
  imports CompLoad
begin

section \<open>The kernel command line and kexec (loader.c)\<close>

definition SYSLOAD_MAX_KERNEL_CMDLINE :: nat where "SYSLOAD_MAX_KERNEL_CMDLINE = 4096"
definition SYSLOAD_KEXEC_CMD :: string where "SYSLOAD_KEXEC_CMD = ''/sbin/kexec''"
definition SYSLOAD_FILENAME_KERNEL :: string where "SYSLOAD_FILENAME_KERNEL = ''/tmp/kernel.img''"
definition SYSLOAD_FILENAME_INITRD :: string where "SYSLOAD_FILENAME_INITRD = ''/tmp/initrd.img''"
definition SYSLOAD_FILENAME_PARMFILE :: string where "SYSLOAD_FILENAME_PARMFILE = ''/tmp/parmfile.txt''"
definition SYSLOAD_FILENAME_INSFILE :: string where "SYSLOAD_FILENAME_INSFILE = ''/tmp/file.ins''"

lemmas local_names = SYSLOAD_FILENAME_KERNEL_def SYSLOAD_FILENAME_INITRD_def
  SYSLOAD_FILENAME_PARMFILE_def SYSLOAD_FILENAME_INSFILE_def

lemma local_names_distinct [simp]:
  "SYSLOAD_FILENAME_KERNEL \<noteq> SYSLOAD_FILENAME_INITRD"
  "SYSLOAD_FILENAME_KERNEL \<noteq> SYSLOAD_FILENAME_PARMFILE"
  "SYSLOAD_FILENAME_KERNEL \<noteq> SYSLOAD_FILENAME_INSFILE"
  "SYSLOAD_FILENAME_INITRD \<noteq> SYSLOAD_FILENAME_KERNEL"
  "SYSLOAD_FILENAME_INITRD \<noteq> SYSLOAD_FILENAME_PARMFILE"
  "SYSLOAD_FILENAME_INITRD \<noteq> SYSLOAD_FILENAME_INSFILE"
  "SYSLOAD_FILENAME_PARMFILE \<noteq> SYSLOAD_FILENAME_KERNEL"
  "SYSLOAD_FILENAME_PARMFILE \<noteq> SYSLOAD_FILENAME_INITRD"
  "SYSLOAD_FILENAME_PARMFILE \<noteq> SYSLOAD_FILENAME_INSFILE"
  "SYSLOAD_FILENAME_INSFILE \<noteq> SYSLOAD_FILENAME_KERNEL"
  "SYSLOAD_FILENAME_INSFILE \<noteq> SYSLOAD_FILENAME_INITRD"
  "SYSLOAD_FILENAME_INSFILE \<noteq> SYSLOAD_FILENAME_PARMFILE"
  by (simp_all add: local_names)

text \<open>A text in single quotes.\<close>

definition in_quotes :: "string \<Rightarrow> string" where
  "in_quotes s = CHR 0x27 # s @ [CHR 0x27]"

text \<open>
  The result is an error message (\<open>Inl\<close>) or the final command line. The space between the
  parmfile and the command line is not counted by the length check.
\<close>

definition compose_commandline :: "string \<Rightarrow> cptr \<Rightarrow> (string + string) act" where
  "compose_commandline parm cmd =
     abind (stat_size parm) (\<lambda>st.
       case st of
         None \<Rightarrow> aret (Inl (''Unable to access local parmfile '' @ in_quotes parm @ '' - '' @ ENOENT))
       | Some st_size \<Rightarrow>
       (case cmd of None \<Rightarrow> bad_act NullDeref | Some c \<Rightarrow>
         if SYSLOAD_MAX_KERNEL_CMDLINE < st_size + length c
         then aret (Inl ''Kernel command line too long.'')
         else abind (open_file parm) (\<lambda>f.
           case f of
             Inl e \<Rightarrow> aret (Inl (''Unable to open local parmfile '' @ in_quotes parm @ '' - '' @ e))
           | Inr fd \<Rightarrow>
             (case read_full posix_read fd [] st_size of
                None \<Rightarrow> spin
              | Some (RdErr e, _) \<Rightarrow>
                  aret (Inl (''Unable to read local parmfile '' @ in_quotes parm @ '' - '' @ e))
              | Some (RdOk buf, _) \<Rightarrow> aret (Inr (cstr buf @ '' '' @ c))))))"

definition kexec_load_argv :: "string \<Rightarrow> string \<Rightarrow> string \<Rightarrow> string list" where
  "kexec_load_argv krn ird cmd =
     [SYSLOAD_KEXEC_CMD, ''-l'']
       @ (if length ird \<noteq> 0 then [''--initrd='' @ ird] else [])
       @ (if length cmd \<noteq> 0 then [''--command-line='' @ cmd] else [])
       @ [krn]"

definition kexec_exec_argv :: "string list" where
  "kexec_exec_argv = [SYSLOAD_KEXEC_CMD, ''-e'']"

text \<open>The result is the error message: on success the call does not return.\<close>

definition kexec :: "prog \<Rightarrow> string \<Rightarrow> string \<Rightarrow> string \<Rightarrow> string act" where
  "kexec prog krn ird cmd =
     abind (systemv prog (kexec_load_argv krn ird cmd)) (\<lambda>status.
       if status \<noteq> 0
       then aret (''kexec load failed with return code '' @ printf_d status @ ''.'')
       else abind (systemv prog kexec_exec_argv) (\<lambda>status.
         aret (''kexec execute failed with return code '' @ printf_d status @ ''.'')))"

subsection \<open>Lemmas\<close>

lemma open_file_ok:
  assumes "file_at s p = Some c" and "open_err (sys_fs s) p = None" and "bad (sys_fs s) p = None"
  shows "\<exists>fd. open_file p s = (Done (Inr fd), s) \<and> fd_good fd \<and> fd_rest fd = c \<and> fd_data fd = c"
  using assms by (simp add: open_file_def fd_good_def fd_rest_def)

lemma read_full_whole:
  assumes "fd_good fd" and "fd_rest fd = c"
  shows "\<exists>t. read_full posix_read fd [] (length c) = Some (RdOk c, t)"
proof -
  have "length c \<le> length [] + length (fd_rest fd)" using assms(2) by simp
  from fds.read_full_returns [OF this] obtain r t
    where r: "read_full posix_read fd [] (length c) = Some (r, t)" by auto
  obtain bs where bs: "r = RdOk bs" using read_full_good [OF r assms(1)] by auto
  with fds.read_full_takes [of fd "[]" "length c" bs t] r assms(2) show ?thesis by simp
qed

lemma compose_commandline_ok:
  assumes "file_at s p = Some c" and "open_err (sys_fs s) p = None" and "bad (sys_fs s) p = None"
    and "length c + length cmd \<le> SYSLOAD_MAX_KERNEL_CMDLINE"
  shows "compose_commandline p (Some cmd) s = (Done (Inr (cstr c @ '' '' @ cmd)), s)"
proof -
  from open_file_ok [OF assms(1-3)] obtain fd
    where fd: "open_file p s = (Done (Inr fd), s)" "fd_good fd" "fd_rest fd = c" by auto
  from read_full_whole [OF fd(2,3)] fd(1) assms(1,4) show ?thesis
    by (auto simp: compose_commandline_def)
qed

lemma compose_commandline_too_long:
  "file_at s p = Some c \<Longrightarrow> SYSLOAD_MAX_KERNEL_CMDLINE < length c + length cmd \<Longrightarrow>
   compose_commandline p (Some cmd) s = (Done (Inl ''Kernel command line too long.''), s)"
  by (simp add: compose_commandline_def)

lemma compose_commandline_missing:
  "file_at s p = None \<Longrightarrow> compose_commandline p cmd s =
   (Done (Inl (''Unable to access local parmfile '' @ in_quotes p @ '' - '' @ ENOENT)), s)"
  by (simp add: compose_commandline_def)

text \<open>Composing reads files only; whenever it returns the state is unchanged and so it never spins.\<close>

lemma compose_commandline_pure:
  "snd (compose_commandline p cmd s) = s \<and> fst (compose_commandline p cmd s) \<noteq> Spin
   \<and> fst (compose_commandline p cmd s) \<noteq> Stopped"
proof (cases "file_at s p")
  case None
  then show ?thesis by (simp add: compose_commandline_missing)
next
  case (Some c)
  show ?thesis
  proof (cases cmd)
    case None
    with Some show ?thesis by (simp add: compose_commandline_def)
  next
    case (Some l)
    note sc = \<open>file_at s p = Some c\<close>
    show ?thesis
    proof (cases "SYSLOAD_MAX_KERNEL_CMDLINE < length c + length l")
      case True
      with Some sc show ?thesis by (simp add: compose_commandline_too_long)
    next
      case False
      show ?thesis
      proof (cases "open_err (sys_fs s) p")
        case None
        let ?fd = "\<lparr>fd_data = c, fd_pos = 0, fd_max = chunk (sys_fs s), fd_bad = bad (sys_fs s) p\<rparr>"
        have o: "open_file p s = (Done (Inr ?fd), s)" using sc None by (simp add: open_file_def)
        have "length c \<le> length [] + length (fd_rest ?fd)" by (simp add: fd_rest_def)
        from fds.read_full_returns [OF this] obtain r t
          where r: "read_full posix_read ?fd [] (length c) = Some (r, t)" by auto
        show ?thesis
          using False Some sc o r by (cases r) (simp_all add: compose_commandline_def)
      next
        case e: (Some e)
        then have "open_file p s = (Done (Inl e), s)" using sc by (simp add: open_file_def)
        with False Some sc show ?thesis by (simp add: compose_commandline_def)
      qed
    qed
  qed
qed

text \<open>
  \<^verbatim>\<open>kexec\<close> runs the load command, and the execute command exactly when loading succeeded.
\<close>

lemma kexec_load_fails:
  assumes "systemv prog (kexec_load_argv k i c) s = (Done n, t)" and "n \<noteq> 0"
  shows "kexec prog k i c s = (Done (''kexec load failed with return code '' @ printf_d n @ ''.''), t)"
  using assms by (simp add: kexec_def)

lemma kexec_trace:
  "sys_trace (snd (kexec prog k i c s)) = sys_trace s @ [kexec_load_argv k i c]
     @ (if fst (systemv prog (kexec_load_argv k i c) s) = Done 0 then [kexec_exec_argv] else [])"
proof -
  obtain r t where r: "systemv prog (kexec_load_argv k i c) s = (r, t)" by fastforce
  then have t: "sys_trace t = sys_trace s @ [kexec_load_argv k i c]"
    using systemv_trace [of prog "kexec_load_argv k i c" s] by simp
  show ?thesis
  proof (cases "r = Done 0")
    case True
    obtain q u where q: "systemv prog kexec_exec_argv t = (q, u)" by fastforce
    then have "sys_trace u = sys_trace t @ [kexec_exec_argv]"
      using systemv_trace [of prog kexec_exec_argv t] by simp
    with True r q t show ?thesis by (cases q) (simp_all add: kexec_def)
  next
    case False
    with r t show ?thesis by (cases r) (simp_all add: kexec_def)
  qed
qed

lemma kexec_returns_message: "kexec prog k i c s = (Done m, t) \<Longrightarrow> m \<noteq> []"
  by (auto simp: kexec_def abind_Done_iff split: if_splits)

end
