(* ===== verification/Bootmap.thy ===== *)
theory Bootmap
  imports BootTables Kexec
begin

section \<open>Booting from a boot map (bootmap\_common.c)\<close>

text \<open>
  Copying the identified components to local files and starting the kernel. Functions that return
  an error message or \<^verbatim>\<open>NULL\<close> yield \<open>Some message\<close> or None.
\<close>

definition KERNEL_HEADER_SIZE :: nat where "KERNEL_HEADER_SIZE = 65536"
definition component_header_ipl :: nat where "component_header_ipl = 0"
definition component_header_dump :: nat where "component_header_dump = 1"

definition byte_char :: "byte \<Rightarrow> char" where
  "byte_char b = char_of (unat b)"

definition writing_failed :: "string \<Rightarrow> string act" where
  "writing_failed what = query (\<lambda>s. ''Error writing '' @ what @ '' file - '' @ fs_errno (sys_fs s))"

text \<open>The header of the kernel image, written in pieces of four bytes; False when a write fails.\<close>

fun write_header :: "nat \<Rightarrow> bool act" where
  "write_header 0 = aret True"
| "write_header (Suc n) =
     abind (write_file SYSLOAD_FILENAME_KERNEL (replicate 4 CHR 0x00)) (\<lambda>k.
       if k \<noteq> 4 then aret False else write_header n)"

text \<open>
  On a failure of \<^verbatim>\<open>copy_component_to_memory\<close> the kernel file, which already holds the header, is
  left behind; the other failures remove it.
\<close>

definition read_kernel_component :: "disk \<Rightarrow> disk_blockptr \<Rightarrow> string option act" where
  "read_kernel_component disk krn =
     abind (creat SYSLOAD_FILENAME_KERNEL) (\<lambda>c.
       case c of Some e \<Rightarrow> aret (Some (''Error writing kernel file - '' @ e))
       | None \<Rightarrow>
         abind (write_header (KERNEL_HEADER_SIZE div 4)) (\<lambda>ok.
         if \<not> ok then
           abind (writing_failed ''kernel'') (\<lambda>m.
           abind (unlink SYSLOAD_FILENAME_KERNEL) (\<lambda>_. aret (Some m)))
         else abind (lift_run (copy_component_to_memory disk krn)) (\<lambda>r.
           case r of Inl e \<Rightarrow> aret (Some e)
           | Inr buffer \<Rightarrow>
             abind (write_file SYSLOAD_FILENAME_KERNEL (map byte_char buffer)) (\<lambda>n.
             if n \<noteq> length buffer then
               abind (writing_failed ''kernel'') (\<lambda>m.
               abind (unlink SYSLOAD_FILENAME_KERNEL) (\<lambda>_. aret (Some m)))
             else abind (query (\<lambda>s. close_fails (sys_fs s) SYSLOAD_FILENAME_KERNEL)) (\<lambda>bad.
               if bad then
                 abind (writing_failed ''kernel'') (\<lambda>m.
                 abind (unlink SYSLOAD_FILENAME_KERNEL) (\<lambda>_. aret (Some m)))
               else aret None)))))"

text \<open>
  A negative length, converted to \<^verbatim>\<open>size_t\<close>, makes \<^verbatim>\<open>write\<close> fail with -1.
\<close>

definition read_initrd_component :: "disk \<Rightarrow> disk_blockptr \<Rightarrow> int \<Rightarrow> string option act" where
  "read_initrd_component disk ird initrd_len =
     abind (creat SYSLOAD_FILENAME_INITRD) (\<lambda>c.
       case c of Some e \<Rightarrow> aret (Some (''Error writing initrd file - '' @ e))
       | None \<Rightarrow>
         abind (lift_run (copy_component_to_memory disk ird)) (\<lambda>r.
           case r of
             Inl e \<Rightarrow> abind (unlink SYSLOAD_FILENAME_INITRD) (\<lambda>_. aret (Some e))
           | Inr buffer \<Rightarrow>
             if int (length buffer) < initrd_len then
               abind (unlink SYSLOAD_FILENAME_INITRD) (\<lambda>_.
               aret (Some ''Error writing initrd file - invalid initrd component length''))
             else abind (if initrd_len < 0 then aret (- 1)
                 else abind (write_file SYSLOAD_FILENAME_INITRD
                        (map byte_char (take (nat initrd_len) buffer))) (\<lambda>n. aret (int n))) (\<lambda>n.
             if n \<noteq> initrd_len then
               abind (writing_failed ''initrd'') (\<lambda>m.
               abind (unlink SYSLOAD_FILENAME_INITRD) (\<lambda>_. aret (Some m)))
             else abind (query (\<lambda>s. close_fails (sys_fs s) SYSLOAD_FILENAME_INITRD)) (\<lambda>bad.
               if bad then
                 abind (writing_failed ''kernel'') (\<lambda>m.
                 abind (unlink SYSLOAD_FILENAME_INITRD) (\<lambda>_. aret (Some m)))
               else aret None))))"

definition read_parmfile_component :: "disk \<Rightarrow> disk_blockptr \<Rightarrow> (string + string) act" where
  "read_parmfile_component disk parm =
     abind (lift_run (copy_component_to_memory disk parm)) (\<lambda>r.
       case r of
         Inl e \<Rightarrow> aret (Inl e)
       | Inr buffer \<Rightarrow>
           if length buffer = 0 then bad_act OutOfBounds
           else aret (Inr (cstr (map byte_char (butlast buffer)))))"

text \<open>
  The message of a failed \<^verbatim>\<open>comp_load\<close> is read although nothing was stored when the module wrote
  no message: the pointer is uninitialised.
\<close>

definition prepare_config_command_line :: "prog \<Rightarrow> cfg_bentry \<Rightarrow> (string + string) act" where
  "prepare_config_command_line prog boot =
     (case parmfile boot of
        None \<Rightarrow> bad_act NullDeref
      | Some parm \<Rightarrow>
          if length parm \<noteq> 0 then
            abind (comp_load prog SYSLOAD_FILENAME_PARMFILE (prefix_root (root boot) parm))
              (\<lambda>(rc, info, tmp_msg).
              if rc \<noteq> 0 then
                (case tmp_msg of
                   None \<Rightarrow> bad_act Uninitialized
                 | Some m \<Rightarrow> aret (Inl (''Error loading parmfile - '' @ m)))
              else compose_commandline SYSLOAD_FILENAME_PARMFILE (cmdline boot))
          else (case cmdline boot of None \<Rightarrow> bad_act NullDeref | Some c \<Rightarrow> aret (Inr c)))"

text \<open>The message a call of \<^verbatim>\<open>boot_bootmap_disk\<close> that returns delivers.\<close>

definition load_boot_objects ::
  "prog \<Rightarrow> cfg_bentry \<Rightarrow> disk \<Rightarrow> boot_objects \<Rightarrow> (string + string) act" where
  "load_boot_objects prog boot disk bo =
     abind (read_kernel_component disk (bo_kernel bo)) (\<lambda>e.
     case e of Some m \<Rightarrow> aret (Inl m) | None \<Rightarrow>
     abind (if \<not> blockptr_is_null disk (bo_initrd bo)
            then read_initrd_component disk (bo_initrd bo) (bo_initrd_len bo)
            else aret None) (\<lambda>e.
     case e of Some m \<Rightarrow> aret (Inl m) | None \<Rightarrow>
     abind (if \<not> blockptr_is_null disk (bo_parmfile bo)
            then read_parmfile_component disk (bo_parmfile bo)
            else aret (Inr [])) (\<lambda>c.
     case c of Inl m \<Rightarrow> aret (Inl m) | Inr cmd \<Rightarrow>
     abind (prepare_config_command_line prog boot) (\<lambda>x.
     case x of Inl m \<Rightarrow> aret (Inl m) | Inr extra \<Rightarrow>
     aret (Inr (cmd @ '' '' @ extra))))))"

text \<open>
  From the converted component table on. The message of \<^verbatim>\<open>identify_boot_objects\<close> is not looked at.
\<close>

definition boot_components ::
  "prog \<Rightarrow> cfg_bentry \<Rightarrow> disk \<Rightarrow> component list \<Rightarrow> nat \<Rightarrow> string act" where
  "boot_components prog boot disk component_table opt =
     (if opt = component_header_dump
      then aret ''Error - load-with-dump-list-directed IPL is not supported.''
      else if opt \<noteq> component_header_ipl
      then aret ''Error - invalid list directed IPL type.''
      else abind (lift_run (identify_boot_objects disk component_table)) (\<lambda>r.
      case r of Inl e \<Rightarrow> aret e | Inr (ignored, bo) \<Rightarrow>
      abind (load_boot_objects prog boot disk bo) (\<lambda>r.
      case r of Inl m \<Rightarrow> aret m | Inr cmd \<Rightarrow>
        if \<not> blockptr_is_null disk (bo_initrd bo)
        then kexec prog SYSLOAD_FILENAME_KERNEL SYSLOAD_FILENAME_INITRD cmd
        else kexec prog SYSLOAD_FILENAME_KERNEL [] cmd)))"

definition boot_bootmap_disk ::
  "(nat \<Rightarrow> byte) \<Rightarrow> prog \<Rightarrow> cfg_bentry \<Rightarrow> disk \<Rightarrow> int \<Rightarrow> string act" where
  "boot_bootmap_disk heap prog boot disk program =
     abind (lift_res (get_program_table_size disk)) (\<lambda>table_size.
     if program < 0 \<or> table_size \<le> program
     then aret ''Error - program number out of valid range.''
     else abind (lift_run (get_program_table disk)) (\<lambda>r.
     case r of Inl e \<Rightarrow> aret e | Inr program_table \<Rightarrow>
     if blockptr_is_null disk (program_table ! nat program)
     then aret (''Error - program entry '' @ printf_d program @ '' is empty.'')
     else abind (lift_run (get_component_table heap disk (program_table ! nat program))) (\<lambda>r.
     case r of Inl e \<Rightarrow> aret e | Inr (component_table, opt) \<Rightarrow>
     boot_components prog boot disk component_table opt)))"

subsection \<open>Copying the components\<close>

lemma write_file_fits:
  assumes "file_at s p = Some old" and "length old + length data \<le> capacity (sys_fs s)"
  shows "write_file p data s = (Done (length data), fs_set p (Some (old @ data)) s)"
  using assms by (simp add: write_file_def Let_def min_absorb1)

lemma write_header_fits:
  assumes "file_at s SYSLOAD_FILENAME_KERNEL = Some old"
    and "length old + 4 * n \<le> capacity (sys_fs s)"
  shows "write_header n s =
    (Done True, fs_set SYSLOAD_FILENAME_KERNEL (Some (old @ replicate (4 * n) CHR 0x00)) s)"
  using assms
proof (induction n arbitrary: s old)
  case 0
  then show ?case by (simp add: fs_set_def file_at_def fun_upd_idem)
next
  case (Suc n)
  have w: "write_file SYSLOAD_FILENAME_KERNEL (replicate 4 CHR 0x00) s
      = (Done 4, fs_set SYSLOAD_FILENAME_KERNEL (Some (old @ replicate 4 CHR 0x00)) s)"
    using write_file_fits [OF Suc.prems(1), of "replicate 4 CHR 0x00"] Suc.prems(2) by simp
  have "write_header n (fs_set SYSLOAD_FILENAME_KERNEL (Some (old @ replicate 4 CHR 0x00)) s)
    = (Done True, fs_set SYSLOAD_FILENAME_KERNEL
        (Some ((old @ replicate 4 CHR 0x00) @ replicate (4 * n) CHR 0x00)) s)"
    using Suc.IH [of "fs_set SYSLOAD_FILENAME_KERNEL (Some (old @ replicate 4 CHR 0x00)) s"
        "old @ replicate 4 CHR 0x00"] Suc.prems(2) by simp
  with w show ?case by (simp add: replicate_add [symmetric] add.commute)
qed

text \<open>A local file that can be written: creating, writing \<open>n\<close> bytes and closing succeed.\<close>

definition writable :: "sys \<Rightarrow> string \<Rightarrow> nat \<Rightarrow> bool" where
  "writable s p n \<longleftrightarrow> creat_err (sys_fs s) p = None \<and> n \<le> capacity (sys_fs s)
     \<and> \<not> close_fails (sys_fs s) p"

definition kernel_image :: "byte list \<Rightarrow> string" where
  "kernel_image buffer = replicate KERNEL_HEADER_SIZE CHR 0x00 @ map byte_char buffer"

lemma read_kernel_component_ok:
  assumes "copy_component_to_memory disk krn = ret buffer"
    and "writable s SYSLOAD_FILENAME_KERNEL (KERNEL_HEADER_SIZE + length buffer)"
  shows "read_kernel_component disk krn s =
    (Done None, fs_set SYSLOAD_FILENAME_KERNEL (Some (kernel_image buffer)) s)"
proof -
  let ?s = "fs_set SYSLOAD_FILENAME_KERNEL (Some []) s"
  let ?h = "replicate KERNEL_HEADER_SIZE CHR 0x00"
  let ?t = "fs_set SYSLOAD_FILENAME_KERNEL (Some ?h) s"
  have c: "creat SYSLOAD_FILENAME_KERNEL s = (Done None, ?s)"
    using assms(2) by (simp add: creat_def writable_def)
  have h4: "4 * (KERNEL_HEADER_SIZE div 4) = KERNEL_HEADER_SIZE"
    by (simp add: KERNEL_HEADER_SIZE_def)
  have w: "write_header (KERNEL_HEADER_SIZE div 4) ?s = (Done True, ?t)"
    using write_header_fits [of ?s "[]" "KERNEL_HEADER_SIZE div 4"] assms(2)
    unfolding h4 by (simp add: writable_def)
  have d: "write_file SYSLOAD_FILENAME_KERNEL (map byte_char buffer) ?t
      = (Done (length buffer), fs_set SYSLOAD_FILENAME_KERNEL (Some (kernel_image buffer)) s)"
    using write_file_fits [of ?t SYSLOAD_FILENAME_KERNEL ?h "map byte_char buffer"] assms(2)
    by (simp add: writable_def kernel_image_def)
  show ?thesis
    unfolding read_kernel_component_def
    using c w d assms by (simp add: writable_def)
qed

lemma read_initrd_component_ok:
  assumes "copy_component_to_memory disk ird = ret buffer"
    and "0 \<le> len" and "len \<le> int (length buffer)"
    and "writable s SYSLOAD_FILENAME_INITRD (nat len)"
  shows "read_initrd_component disk ird len s =
    (Done None, fs_set SYSLOAD_FILENAME_INITRD (Some (map byte_char (take (nat len) buffer))) s)"
proof -
  let ?s = "fs_set SYSLOAD_FILENAME_INITRD (Some []) s"
  have c: "creat SYSLOAD_FILENAME_INITRD s = (Done None, ?s)"
    using assms(4) by (simp add: creat_def writable_def)
  have l: "length (take (nat len) buffer) = nat len" using assms(3) by simp
  have d: "write_file SYSLOAD_FILENAME_INITRD (map byte_char (take (nat len) buffer)) ?s
      = (Done (nat len),
         fs_set SYSLOAD_FILENAME_INITRD (Some (map byte_char (take (nat len) buffer))) s)"
    using write_file_fits [of ?s SYSLOAD_FILENAME_INITRD "[]" "map byte_char (take (nat len) buffer)"]
      assms(4) l by (simp add: writable_def)
  show ?thesis
    unfolding read_initrd_component_def
    using c d assms by (simp add: writable_def)
qed

lemma read_parmfile_component_ok:
  "copy_component_to_memory disk parm = ret buffer \<Longrightarrow> buffer \<noteq> [] \<Longrightarrow>
   read_parmfile_component disk parm s = (Done (Inr (cstr (map byte_char (butlast buffer)))), s)"
  by (simp add: read_parmfile_component_def)

text \<open>When the component cannot be copied the kernel file is left behind with its header.\<close>

lemma read_kernel_component_leak:
  assumes "copy_component_to_memory disk krn = fail e"
    and "writable s SYSLOAD_FILENAME_KERNEL KERNEL_HEADER_SIZE"
  shows "read_kernel_component disk krn s =
    (Done (Some e), fs_set SYSLOAD_FILENAME_KERNEL (Some (kernel_image [])) s)"
proof -
  let ?s = "fs_set SYSLOAD_FILENAME_KERNEL (Some []) s"
  have c: "creat SYSLOAD_FILENAME_KERNEL s = (Done None, ?s)"
    using assms(2) by (simp add: creat_def writable_def)
  have h4: "4 * (KERNEL_HEADER_SIZE div 4) = KERNEL_HEADER_SIZE"
    by (simp add: KERNEL_HEADER_SIZE_def)
  have w: "write_header (KERNEL_HEADER_SIZE div 4) ?s
      = (Done True, fs_set SYSLOAD_FILENAME_KERNEL (Some (kernel_image [])) s)"
    using write_header_fits [of ?s "[]" "KERNEL_HEADER_SIZE div 4"] assms(2)
    unfolding h4 by (simp add: writable_def kernel_image_def)
  show ?thesis unfolding read_kernel_component_def using c w assms(1) by simp
qed

subsection \<open>The boot objects a disk stores\<close>

text \<open>
  The objects of a program as the disk stores them: the kernel segments, the initrd segments with
  the length of the initrd, and the segments of the parameter file; an absent object has a null
  pointer.
\<close>

definition holds ::
  "disk \<Rightarrow> boot_objects \<Rightarrow> byte list \<Rightarrow> byte list option \<Rightarrow> string option \<Rightarrow> bool" where
  "holds disk bo krn ird parm \<longleftrightarrow>
     copy_component_to_memory disk (bo_kernel bo) = ret krn
     \<and> (case ird of
          None \<Rightarrow> blockptr_is_null disk (bo_initrd bo)
        | Some i \<Rightarrow> \<not> blockptr_is_null disk (bo_initrd bo) \<and> 0 \<le> bo_initrd_len bo
            \<and> (\<exists>b. copy_component_to_memory disk (bo_initrd bo) = ret b
                 \<and> bo_initrd_len bo \<le> int (length b) \<and> i = take (nat (bo_initrd_len bo)) b))
     \<and> (case parm of
          None \<Rightarrow> blockptr_is_null disk (bo_parmfile bo)
        | Some p \<Rightarrow> \<not> blockptr_is_null disk (bo_parmfile bo)
            \<and> (\<exists>b. copy_component_to_memory disk (bo_parmfile bo) = ret b \<and> b \<noteq> []
                 \<and> p = cstr (map byte_char (butlast b))))"

definition with_objects :: "byte list \<Rightarrow> byte list option \<Rightarrow> sys \<Rightarrow> sys" where
  "with_objects krn ird s =
     (let s = fs_set SYSLOAD_FILENAME_KERNEL (Some (kernel_image krn)) s in
      case ird of None \<Rightarrow> s
      | Some i \<Rightarrow> fs_set SYSLOAD_FILENAME_INITRD (Some (map byte_char i)) s)"

lemma load_boot_objects_ok:
  assumes "holds disk bo krn ird parm"
    and k: "writable s SYSLOAD_FILENAME_KERNEL (KERNEL_HEADER_SIZE + length krn)"
    and i: "case ird of None \<Rightarrow> True | Some d \<Rightarrow> writable s SYSLOAD_FILENAME_INITRD (length d)"
    and x: "prepare_config_command_line prog boot (with_objects krn ird s) = (Done (Inr extra), t)"
  shows "load_boot_objects prog boot disk bo s =
    (Done (Inr ((case parm of None \<Rightarrow> [] | Some p \<Rightarrow> p) @ '' '' @ extra)), t)"
proof -
  let ?s = "fs_set SYSLOAD_FILENAME_KERNEL (Some (kernel_image krn)) s"
  have rk: "read_kernel_component disk (bo_kernel bo) s = (Done None, ?s)"
    using assms(1) k by (intro read_kernel_component_ok) (auto simp: holds_def)
  have ri: "(if \<not> blockptr_is_null disk (bo_initrd bo)
       then read_initrd_component disk (bo_initrd bo) (bo_initrd_len bo) else aret None) ?s
     = (Done None, with_objects krn ird s)"
  proof (cases ird)
    case None
    with assms(1) show ?thesis by (simp add: holds_def with_objects_def Let_def)
  next
    case (Some d)
    with assms(1) obtain b where b: "copy_component_to_memory disk (bo_initrd bo) = ret b"
        "0 \<le> bo_initrd_len bo" "bo_initrd_len bo \<le> int (length b)"
        "d = take (nat (bo_initrd_len bo)) b" "\<not> blockptr_is_null disk (bo_initrd bo)"
      by (auto simp: holds_def)
    have "length d = nat (bo_initrd_len bo)" using b(3,4) by simp
    then have "writable ?s SYSLOAD_FILENAME_INITRD (nat (bo_initrd_len bo))"
      using i Some by (simp add: writable_def)
    from read_initrd_component_ok [OF b(1-3) this] b(4,5) Some show ?thesis
      by (simp add: with_objects_def Let_def)
  qed
  have rp: "(if \<not> blockptr_is_null disk (bo_parmfile bo)
       then read_parmfile_component disk (bo_parmfile bo) else aret (Inr [])) u
     = (Done (Inr (case parm of None \<Rightarrow> [] | Some p \<Rightarrow> p)), u)" for u
    using assms(1) by (cases parm) (auto simp: holds_def read_parmfile_component_ok)
  show ?thesis
    unfolding load_boot_objects_def
    by (rule abind_DoneI, rule rk, simp only: option.case, rule abind_DoneI, rule ri,
        simp only: option.case, rule abind_DoneI, rule rp, simp only: sum.case,
        rule abind_DoneI, rule x, simp)
qed

text \<open>
  From the component table on: for a disk whose boot objects are in order, the call is exactly
  \<^verbatim>\<open>kexec\<close> on the local files holding the kernel and initrd that the boot map stores, with the
  parameter file extended by the command line of the configuration.
\<close>

lemma boot_components_ok:
  assumes "identify_boot_objects disk ct = ret (None, bo)"
    and "holds disk bo krn ird parm"
    and "writable s SYSLOAD_FILENAME_KERNEL (KERNEL_HEADER_SIZE + length krn)"
    and "case ird of None \<Rightarrow> True | Some d \<Rightarrow> writable s SYSLOAD_FILENAME_INITRD (length d)"
    and "prepare_config_command_line prog boot (with_objects krn ird s) = (Done (Inr extra), t)"
  shows "boot_components prog boot disk ct component_header_ipl s =
    kexec prog SYSLOAD_FILENAME_KERNEL (if ird = None then [] else SYSLOAD_FILENAME_INITRD)
      ((case parm of None \<Rightarrow> [] | Some p \<Rightarrow> p) @ '' '' @ extra) t"
proof -
  have null: "blockptr_is_null disk (bo_initrd bo) \<longleftrightarrow> ird = None"
    using assms(2) by (cases ird) (auto simp: holds_def)
  have d: "component_header_ipl \<noteq> component_header_dump"
    by (simp add: component_header_ipl_def component_header_dump_def)
  note l = load_boot_objects_ok [OF assms(2-5)]
  show ?thesis
    using assms(1) d l null by (auto simp: boot_components_def)
qed

text \<open>
  The table is not reached alive: on every supported disk the conversion of the component table
  writes behind its heap block, so every boot of a program the boot map has is undefined.
\<close>

lemma boot_bootmap_disk_overrun:
  assumes good: "disk_good disk" and r: "readable disk (program_table_ptr disk)"
    and "get_blockptr_blockct disk (program_table_ptr disk) = 0"
    and "take MAGIC_LENGTH (ptr_content disk (program_table_ptr disk)) = MAGIC"
    and n: "n < nat (512 div get_blockptr_size disk) - 1"
    and p: "seg_entry disk (ptr_content disk (program_table_ptr disk)) (n + 1) = p"
    and "\<not> blockptr_is_null disk p" and "readable disk p" and "get_blockptr_blockct disk p = 0"
    and "take MAGIC_LENGTH (ptr_content disk p) = MAGIC"
  shows "boot_bootmap_disk heap prog boot disk (int n) s = (Bad OutOfBounds, s)"
proof -
  let ?pt = "map (seg_entry disk (ptr_content disk (program_table_ptr disk))) [1..<nat (512 div get_blockptr_size disk)]"
  have ok: "disk_ok disk" using good by (simp add: disk_good_def)
  obtain k where k: "get_program_table_size disk = Inr k" "(k + 1) * get_blockptr_size disk = 512"
    using get_program_table_size_defined [OF ok] by blast
  have "0 < get_blockptr_size disk" using get_blockptr_size_bounds [OF ok] by simp
  then have "512 div get_blockptr_size disk = k + 1" by (simp flip: k(2))
  with n have "int n < k" by simp
  moreover have "get_program_table disk = ret ?pt"
    using get_program_table_readable [OF good r] assms(3,4) by simp
  moreover have "?pt ! n = p" using n p by (simp add: add.commute)
  moreover have "get_component_table heap disk p = liftc (Inl OutOfBounds)"
    using assms by (intro get_component_table_overrun)
  moreover have "abind (lift_run (liftc (Inl OutOfBounds))) f s = (Bad OutOfBounds, s)"
    for f :: "string + component list \<times> nat \<Rightarrow> string act"
    by (simp add: lift_run_def liftc_def bad_act_def abind_def)
  ultimately show ?thesis using k(1) assms(7) by (simp add: boot_bootmap_disk_def)
qed

lemma boot_bootmap_disk_range:
  assumes "get_program_table_size disk = Inr n" and "program < 0 \<or> n \<le> program"
  shows "boot_bootmap_disk heap prog boot disk program s =
    (Done ''Error - program number out of valid range.'', s)"
  using assms by (auto simp: boot_bootmap_disk_def)

text \<open>
  The message of \<^verbatim>\<open>identify_boot_objects\<close> is ignored: the pointers it has left null make the load
  fail later with the message of the block layer.
\<close>

lemma blockptr_zero_members:
  "chs_size blockptr_zero = 0" "linear_size blockptr_zero = 0" "chs_blockct blockptr_zero = 0"
  "linear_blockct blockptr_zero = 0"
  by (simp_all add: blockptr_zero_def chs_size_def linear_size_def chs_blockct_def
      linear_blockct_def)

lemma copy_null_component:
  assumes "disk_ok disk"
  shows "copy_component_to_memory disk blockptr_zero = fail msg_invalid_blockptr"
proof -
  have "check_blockptr disk blockptr_zero \<noteq> 0"
    using assms by (cases "disk_type disk")
      (auto simp: check_blockptr_def disk_ok_def blockptr_zero_members)
  then show ?thesis by (simp add: copy_component_to_memory_def disk_read_phy_blocks_def)
qed

lemma boot_components_unidentified:
  assumes "identify_boot_objects disk ct = ret (Some m, no_objects)"
    and "disk_ok disk" and "writable s SYSLOAD_FILENAME_KERNEL KERNEL_HEADER_SIZE"
  shows "boot_components prog boot disk ct component_header_ipl s =
    (Done msg_invalid_blockptr, fs_set SYSLOAD_FILENAME_KERNEL (Some (kernel_image [])) s)"
proof -
  have d: "component_header_ipl \<noteq> component_header_dump"
    by (simp add: component_header_ipl_def component_header_dump_def)
  have "read_kernel_component disk (bo_kernel no_objects) s =
    (Done (Some msg_invalid_blockptr), fs_set SYSLOAD_FILENAME_KERNEL (Some (kernel_image [])) s)"
    using read_kernel_component_leak [OF copy_null_component [OF assms(2)] assms(3)]
    by (simp add: no_objects_def)
  then have "load_boot_objects prog boot disk no_objects s =
    (Done (Inl msg_invalid_blockptr), fs_set SYSLOAD_FILENAME_KERNEL (Some (kernel_image [])) s)"
    by (simp add: load_boot_objects_def)
  then show ?thesis using assms(1) d by (simp add: boot_components_def)
qed

end
