(* ===== verification/BootDevices.thy ===== *)
theory BootDevices
  imports Bootmap
begin

section \<open>Boot map devices (bootmap\_common.c, bootmap\_dasd.c, bootmap\_fcp.c)\<close>

text \<open>
  Setting a DASD or an FCP attached SCSI disk online through sysfs, booting from it, and setting
  it offline again when the boot fails. How the kernel reacts to a write into sysfs, which files
  match a glob pattern and what a directory contains is not part of the C sources: these answers
  are the parameter \<open>kern\<close>.
\<close>

record kern =
  store :: "string \<Rightarrow> string \<Rightarrow> fs \<Rightarrow> bool \<times> fs"
  glob :: "string \<Rightarrow> fs \<Rightarrow> string option"
  listdir :: "string \<Rightarrow> fs \<Rightarrow> string list option"
  mknod_err :: "string \<Rightarrow> string option"

definition BLOCKDEV_PATH :: string where "BLOCKDEV_PATH = ''/dev''"
definition SYS_PATH_DASD :: string where "SYS_PATH_DASD = ''/sys/bus/ccw/devices''"
definition SYS_PATH_FCP :: string where "SYS_PATH_FCP = ''/sys/bus/ccw/drivers/zfcp''"
definition SYS_PATH_SCSI :: string where "SYS_PATH_SCSI = ''/sys/bus/scsi/devices''"

subsection \<open>Common helpers\<close>

definition store_attr :: "kern \<Rightarrow> string \<Rightarrow> string \<Rightarrow> bool act" where
  "store_attr kern path data s =
     (case store kern path data (sys_fs s) of
        (ok, f) \<Rightarrow> (Done ok, s\<lparr>sys_fs := f, sys_stores := sys_stores s @ [(path, data)]\<rparr>))"

text \<open>What \<^verbatim>\<open>cfg_read\<close> leaves in a zeroed buffer of \<open>n\<close> bytes, and whether it failed.\<close>

definition read_into :: "char fd \<Rightarrow> nat \<Rightarrow> bool \<times> string" where
  "read_into fd n =
     (case cfg_read posix_read fd n of
        (RdErr e, t) \<Rightarrow> (False, take (fd_pos t) (fd_data fd))
      | (RdOk bs, t) \<Rightarrow> (True, bs))"

text \<open>A null path is None, as are the texts that may be \<^verbatim>\<open>NULL\<close>.\<close>

definition echo_and_test :: "kern \<Rightarrow> cptr \<Rightarrow> cptr \<Rightarrow> cptr \<Rightarrow> int act" where
  "echo_and_test kern echo data test =
     abind (case (echo, data) of
        (Some e, Some d) \<Rightarrow>
          if length e \<noteq> 0 \<and> length d \<noteq> 0 then store_attr kern e d else aret True
      | _ \<Rightarrow> aret True) (\<lambda>ok.
     if \<not> ok then aret (- 1)
     else (case test of
        None \<Rightarrow> aret 0
      | Some t \<Rightarrow>
          if length t = 0 then aret 0
          else abind (open_file t) (\<lambda>f.
            case f of
              Inl e \<Rightarrow> aret (- 1)
            | Inr fd \<Rightarrow>
                (case read_into fd 31 of (ok, buffer) \<Rightarrow>
                   if \<not> ok then aret (- 1)
                   else abind (lift_res (sscanf_i (cstr buffer))) (\<lambda>r.
                     case r of None \<Rightarrow> aret (- 1) | Some i \<Rightarrow> aret i)))))"

text \<open>The contents of a file without a trailing newline; None on an error.\<close>

definition read_file :: "string \<Rightarrow> nat \<Rightarrow> string option act" where
  "read_file path buffer_len =
     abind (open_file path) (\<lambda>f.
       case f of
         Inl e \<Rightarrow> aret None
       | Inr fd \<Rightarrow>
           (case read_into fd (buffer_len - 1) of (ok, buffer) \<Rightarrow>
              if \<not> ok then aret None
              else if length buffer \<noteq> 0 \<and> buffer ! (length buffer - 1) = nl
              then aret (Some (cstr (butlast buffer)))
              else aret (Some (cstr buffer))))"

definition cfg_glob_filename :: "kern \<Rightarrow> string \<Rightarrow> nat \<Rightarrow> string option act" where
  "cfg_glob_filename kern pattern buffer_size =
     query (\<lambda>s. case glob kern pattern (sys_fs s) of
        None \<Rightarrow> None
      | Some p \<Rightarrow> if buffer_size < length p + 1 then None else Some p)"

definition set_node :: "string \<Rightarrow> (int \<times> int) option \<Rightarrow> sys \<Rightarrow> sys" where
  "set_node path d s = s\<lparr>sys_fs := (sys_fs s)\<lparr>nodes := (nodes (sys_fs s))(path := d)\<rparr>\<rparr>"

definition unlink_node :: "string \<Rightarrow> unit act" where
  "unlink_node path = modify (\<lambda>s. set_node path None (fs_set path None s))"

definition mknod :: "kern \<Rightarrow> string \<Rightarrow> int \<Rightarrow> int \<Rightarrow> string option act" where
  "mknod kern path major minor s =
     (case mknod_err kern path of
        Some e \<Rightarrow> (Done (Some e), s)
      | None \<Rightarrow> (Done None, set_node path (Some (major, minor)) s))"

text \<open>\<^verbatim>\<open>disk_open\<close> on a device node.\<close>

definition open_disk_node :: "string \<Rightarrow> (string + disk) act" where
  "open_disk_node dev =
     abind (query (\<lambda>s. case nodes (sys_fs s) dev of
         None \<Rightarrow> Inl ENOENT | Some mm \<Rightarrow> devices (sys_fs s) mm)) (\<lambda>opened.
       lift_run (disk_open opened))"

subsection \<open>Regular expressions of the URIs\<close>

text \<open>Matching a sequence of character classes; the result is the rest of the text.\<close>

fun match_seq :: "(char \<Rightarrow> bool) list \<Rightarrow> string \<Rightarrow> string option" where
  "match_seq [] s = Some s"
| "match_seq (p # ps) [] = None"
| "match_seq (p # ps) (c # s) = (if p c then match_seq ps s else None)"

definition lit :: "string \<Rightarrow> (char \<Rightarrow> bool) list" where
  "lit s = map (\<lambda>c d. d = c) s"

text \<open>
  The end of both expressions, an optional program number and a closing parenthesis. The result
  is the text from the program number on, where \<^verbatim>\<open>sscanf\<close> starts.
\<close>

definition match_program :: "string \<Rightarrow> string option option" where
  "match_program s =
     (if match_seq (lit '')'') s = Some [] then Some None
      else if match_seq (lit '','' @ [isdigit] @ lit '')'') s = Some [] then Some (Some (drop 1 s))
      else if match_seq (lit '','' @ [isdigit, isdigit] @ lit '')'') s = Some []
      then Some (Some (drop 1 s))
      else None)"

definition busid_classes :: "(char \<Rightarrow> bool) list" where
  "busid_classes = [isxdigit] @ lit ''.'' @ [isxdigit] @ lit ''.'' @ replicate 4 isxdigit"

definition hex64_classes :: "(char \<Rightarrow> bool) list" where
  "hex64_classes = lit '',0x'' @ replicate 16 isxdigit"

definition URI_DASD_BOOTMAP_RE :: "string \<Rightarrow> string option option" where
  "URI_DASD_BOOTMAP_RE s =
     (case match_seq (lit ''dasd://('' @ busid_classes) s of
        None \<Rightarrow> None | Some rest \<Rightarrow> match_program rest)"

definition URI_ZFCP_BOOTMAP_RE :: "string \<Rightarrow> string option option" where
  "URI_ZFCP_BOOTMAP_RE s =
     (case match_seq (lit ''zfcp://('' @ busid_classes @ hex64_classes @ hex64_classes) s of
        None \<Rightarrow> None | Some rest \<Rightarrow> match_program rest)"

definition scan_program :: "string option \<Rightarrow> int c_res" where
  "scan_program t =
     (case t of
        None \<Rightarrow> Inr 0
      | Some u \<Rightarrow> ebind (sscanf_i u) (\<lambda>r. Inr (case r of None \<Rightarrow> 0 | Some i \<Rightarrow> i)))"

text \<open>The fields of the URIs: bus ID (and WWPN, LUN) in lower case, the program number.\<close>

definition dasd_uri :: "string \<Rightarrow> (string \<times> int) option c_res" where
  "dasd_uri uri =
     (case URI_DASD_BOOTMAP_RE uri of
        None \<Rightarrow> Inr None
      | Some prog \<Rightarrow> ebind (scan_program prog) (\<lambda>n.
          Inr (Some (map tolower (take 8 (drop 8 uri)), n))))"

definition zfcp_uri :: "string \<Rightarrow> (string \<times> string \<times> string \<times> int) option c_res" where
  "zfcp_uri uri =
     (case URI_ZFCP_BOOTMAP_RE uri of
        None \<Rightarrow> Inr None
      | Some prog \<Rightarrow> ebind (scan_program prog) (\<lambda>n.
          Inr (Some (map tolower (take 8 (drop 8 uri)), map tolower (take 18 (drop 17 uri)),
            map tolower (take 18 (drop 36 uri)), n))))"

subsection \<open>What the URIs denote\<close>

abbreviation matches :: "(char \<Rightarrow> bool) list \<Rightarrow> string \<Rightarrow> bool" where
  "matches ps u \<equiv> list_all2 (\<lambda>p c. p c) ps u"

lemma match_seq_iff: "match_seq ps s = Some r \<longleftrightarrow> (\<exists>u. s = u @ r \<and> matches ps u)"
proof (induction ps arbitrary: s)
  case Nil
  then show ?case by auto
next
  case (Cons p ps)
  show ?case
  proof (cases s)
    case Nil
    then show ?thesis by auto
  next
    case (Cons c t)
    with Cons.IH [of t] show ?thesis
      by (auto simp: list_all2_Cons1)
  qed
qed

lemma match_seq_append: "matches ps u \<Longrightarrow> match_seq (ps @ qs) (u @ r) = match_seq qs r"
  by (induction ps u rule: list_all2_induct) auto

lemma matches_lit [simp]: "matches (lit s) u \<longleftrightarrow> u = s"
  by (induction s arbitrary: u) (auto simp: lit_def list_all2_Cons1)

lemma matches_append:
  "matches (ps @ qs) u \<longleftrightarrow> (\<exists>v w. u = v @ w \<and> matches ps v \<and> matches qs w)"
  unfolding list_all2_append1 by (metis list_all2_lengthD)

lemma match_seq_split:
  "(\<exists>t. match_seq (ps @ qs) s = Some t \<and> P t) \<longleftrightarrow>
   (\<exists>u v. s = u @ v \<and> matches ps u \<and> (\<exists>t. match_seq qs v = Some t \<and> P t))"
  unfolding match_seq_iff matches_append by (metis append_assoc)

lemma length_lit [simp]: "length (lit s) = length s"
  by (simp add: lit_def)

lemma busid_length: "matches busid_classes b \<Longrightarrow> length b = 8"
  by (drule list_all2_lengthD) (simp add: busid_classes_def)

lemma hex64_length: "matches hex64_classes w \<Longrightarrow> length w = 19"
  by (drule list_all2_lengthD) (simp add: hex64_classes_def)

lemma lit_not_digit: "isdigit CHR '')'' = False" "isdigit CHR '','' = False"
  by (simp_all add: isdigit_def)

text \<open>The tail of a URI: nothing, or a number of one or two digits.\<close>

lemma match_program_iff:
  "match_program s = Some r \<longleftrightarrow>
     (s = '')'' \<and> r = None)
     \<or> (\<exists>ds. s = '','' @ ds @ '')'' \<and> r = Some (ds @ '')'') \<and> (length ds = 1 \<or> length ds = 2)
          \<and> (\<forall>d \<in> set ds. isdigit d))"
proof -
  have a: "match_seq (lit '')'') s = Some [] \<longleftrightarrow> s = '')''"
    by (simp add: match_seq_iff)
  have b: "match_seq (lit '','' @ [isdigit] @ lit '')'') s = Some [] \<longleftrightarrow>
      (\<exists>d. isdigit d \<and> s = '','' @ [d] @ '')'')"
    by (auto simp: match_seq_iff matches_append list_all2_Cons1)
  have c: "match_seq (lit '','' @ [isdigit, isdigit] @ lit '')'') s = Some [] \<longleftrightarrow>
      (\<exists>d e. isdigit d \<and> isdigit e \<and> s = '','' @ [d, e] @ '')'')"
    by (auto simp: match_seq_iff matches_append list_all2_Cons1)
  have two: "(length ds = 1 \<or> length ds = 2) \<and> (\<forall>d \<in> set ds. isdigit d)
      \<longleftrightarrow> (\<exists>d. ds = [d] \<and> isdigit d) \<or> (\<exists>d e. ds = [d, e] \<and> isdigit d \<and> isdigit e)" for ds
    by (auto simp: length_Suc_conv numeral_2_eq_2)
  show ?thesis
    unfolding match_program_def a b c two by (auto; blast)
qed

lemma URI_DASD_iff:
  "URI_DASD_BOOTMAP_RE uri = Some r \<longleftrightarrow>
     (\<exists>b t. uri = ''dasd://('' @ b @ t \<and> matches busid_classes b \<and> match_program t = Some r)"
proof -
  have "URI_DASD_BOOTMAP_RE uri = Some r \<longleftrightarrow>
      (\<exists>t. match_seq (lit ''dasd://('' @ busid_classes) uri = Some t \<and> match_program t = Some r)"
    by (simp add: URI_DASD_BOOTMAP_RE_def split: option.split)
  then show ?thesis
    unfolding match_seq_split matches_lit unfolding match_seq_iff by blast
qed

lemma URI_ZFCP_iff:
  "URI_ZFCP_BOOTMAP_RE uri = Some r \<longleftrightarrow>
     (\<exists>b w l t. uri = ''zfcp://('' @ b @ w @ l @ t \<and> matches busid_classes b
        \<and> matches hex64_classes w \<and> matches hex64_classes l \<and> match_program t = Some r)"
proof -
  have "URI_ZFCP_BOOTMAP_RE uri = Some r \<longleftrightarrow>
      (\<exists>t. match_seq (lit ''zfcp://('' @ busid_classes @ hex64_classes @ hex64_classes) uri = Some t
         \<and> match_program t = Some r)"
    by (simp add: URI_ZFCP_BOOTMAP_RE_def split: option.split)
  then show ?thesis
    unfolding match_seq_split matches_lit unfolding match_seq_iff by blast
qed

text \<open>
  The value of a program number: \<^verbatim>\<open>%i\<close> reads a leading zero as the octal prefix, so that
  \<open>08\<close> and \<open>09\<close> denote program 0.
\<close>

fun program_value :: "string \<Rightarrow> nat" where
  "program_value [d] = digit_val d"
| "program_value [d, e] =
     (if d = CHR ''0'' then if isoctal e then digit_val e else 0
      else 10 * digit_val d + digit_val e)"
| "program_value _ = 0"

lemma digit_val_bound: "isdigit d \<Longrightarrow> digit_val d < 10"
  by (auto simp: isdigit_def digit_val_def)

lemma digit_val_zero: "digit_val CHR ''0'' = 0" "xdigit_val CHR ''0'' = 0"
  by (simp_all add: digit_val_def xdigit_val_def)

lemma octal_digit: "isoctal e \<Longrightarrow> isdigit e" "isoctal CHR ''0''" "\<not> isoctal CHR '')''"
  by (simp_all add: isoctal_def isdigit_def)

lemma digit_not_x: "isdigit d \<Longrightarrow> d \<noteq> CHR ''x'' \<and> d \<noteq> CHR ''X''"
  by (auto simp: isdigit_def)

lemma scan_i_one:
  assumes "isdigit d"
  shows "scan_i [d, CHR '')''] = Inr (Some (int (digit_val d), '')''))"
proof -
  have "scan_sign (dropWhile isspace [d, CHR '')'']) = (1, [d, CHR '')''])"
    using assms by (simp add: scan_sign_def isdigit_not_space isdigit_not_sign)
  moreover have "scan_i_digits [d, CHR '')''] = Some (digit_val d, '')'')"
    using assms by (simp add: scan_i_digits_def base_val_def digit_val_zero octal_digit
        xdigit_val_digit lit_not_digit)
  ultimately show ?thesis using digit_val_bound [OF assms] by (simp add: scan_i_def)
qed

lemma scan_i_two:
  assumes "isdigit d" and "isdigit e"
  shows "\<exists>t. scan_i [d, e, CHR '')''] = Inr (Some (int (program_value [d, e]), t))"
proof -
  have s: "scan_sign (dropWhile isspace [d, e, CHR '')'']) = (1, [d, e, CHR '')''])"
    using assms by (simp add: scan_sign_def isdigit_not_space isdigit_not_sign)
  have "\<exists>t. scan_i_digits [d, e, CHR '')''] = Some (program_value [d, e], t)"
    using assms digit_not_x [OF assms(2)]
    by (auto simp: scan_i_digits_def base_val_def digit_val_zero octal_digit xdigit_val_digit
        lit_not_digit)
  then obtain t where "scan_i_digits [d, e, CHR '')''] = Some (program_value [d, e], t)" by blast
  moreover have "program_value [d, e] < 100"
    using digit_val_bound [OF assms(1)] digit_val_bound [OF assms(2)] by simp
  ultimately show ?thesis using s by (auto simp: scan_i_def)
qed

lemma scan_program_digits:
  assumes "length ds = 1 \<or> length ds = 2" and "\<forall>d \<in> set ds. isdigit d"
  shows "scan_program (Some (ds @ '')'')) = Inr (int (program_value ds))"
    and "program_value ds < 100"
proof -
  consider d where "ds = [d]" "isdigit d" | d e where "ds = [d, e]" "isdigit d" "isdigit e"
    using assms by (auto simp: length_Suc_conv numeral_2_eq_2)
  then show "scan_program (Some (ds @ '')'')) = Inr (int (program_value ds))"
  proof cases
    case 1
    then show ?thesis by (simp add: scan_program_def sscanf_i_def scan_i_one)
  next
    case (2 d e)
    from scan_i_two [OF 2(2,3)] 2(1) show ?thesis
      by (auto simp: scan_program_def sscanf_i_def)
  qed
  show "program_value ds < 100"
    using assms digit_val_bound by (auto simp: length_Suc_conv numeral_2_eq_2 dest!: digit_val_bound)
qed

lemma scan_program_None [simp]: "scan_program None = Inr 0"
  by (simp add: scan_program_def)

lemma program_value_dec:
  assumes "n < 100"
  shows "program_value (dec n) = n" and "length (dec n) = 1 \<or> length (dec n) = 2"
proof -
  have "program_value (dec n) = n \<and> (length (dec n) = 1 \<or> length (dec n) = 2)"
  proof (cases "n < 10")
    case True
    then show ?thesis by (subst (1 2 3) dec.simps) simp
  next
    case False
    with assms have d: "n div 10 < 10" "n div 10 \<noteq> 0" by (auto simp: div_eq_0_iff)
    have e: "dec n = [digit_char (n div 10), digit_char (n mod 10)]"
      using False d by (subst dec.simps, subst dec.simps) simp
    have "digit_char (n div 10) \<noteq> CHR ''0''"
      using dec_hd_zero [OF d(2)] d(1) by (subst (asm) dec.simps) simp
    with d show ?thesis by (simp add: e)
  qed
  then show "program_value (dec n) = n" and "length (dec n) = 1 \<or> length (dec n) = 2" by auto
qed

lemma match_program_dec:
  "n < 100 \<Longrightarrow> match_program ('','' @ dec n @ '')'') = Some (Some (dec n @ '')''))"
  using program_value_dec(2) [of n] dec_digits by (subst match_program_iff) fastforce

lemma dasd_uri_split:
  assumes "matches busid_classes b" and "match_program t = Some prog"
  shows "dasd_uri (''dasd://('' @ b @ t) =
    ebind (scan_program prog) (\<lambda>n. Inr (Some (map tolower b, n)))"
proof -
  have "URI_DASD_BOOTMAP_RE (''dasd://('' @ b @ t) = Some prog"
    using assms by (subst URI_DASD_iff) blast
  moreover have "take 8 (drop 8 (''dasd://('' @ b @ t)) = b"
    using busid_length [OF assms(1)] by simp
  ultimately show ?thesis by (simp add: dasd_uri_def)
qed

text \<open>Every number below 100, written without a leading zero, is understood.\<close>

lemma dasd_uri_dec:
  assumes "matches busid_classes b" and "n < 100"
  shows "dasd_uri (''dasd://('' @ b @ '','' @ dec n @ '')'') = Inr (Some (map tolower b, int n))"
proof -
  have "scan_program (Some (dec n @ '')'')) = Inr (int (program_value (dec n)))"
    using program_value_dec(2) [OF assms(2)] dec_digits by (intro scan_program_digits) auto
  with dasd_uri_split [OF assms(1) match_program_dec [OF assms(2)]] program_value_dec(1) [OF assms(2)]
  show ?thesis by simp
qed

lemma dasd_uri_plain:
  assumes "matches busid_classes b"
  shows "dasd_uri (''dasd://('' @ b @ '')'') = Inr (Some (map tolower b, 0))"
  using dasd_uri_split [OF assms, of "'')''" None] by (simp add: match_program_iff)

text \<open>A URI never leads to undefined behaviour, and what is accepted is well-formed.\<close>

lemma dasd_uri_cases:
  "dasd_uri uri = Inr None
   \<or> (\<exists>b t n. uri = ''dasd://('' @ b @ t \<and> matches busid_classes b \<and> n < 100
        \<and> dasd_uri uri = Inr (Some (map tolower b, int n)))"
proof (cases "URI_DASD_BOOTMAP_RE uri")
  case None
  then show ?thesis by (simp add: dasd_uri_def)
next
  case (Some prog)
  then obtain b t where u: "uri = ''dasd://('' @ b @ t" "matches busid_classes b"
      "match_program t = Some prog" by (auto simp: URI_DASD_iff)
  obtain n where "scan_program prog = Inr (int n)" "n < 100"
    using u(3) scan_program_digits by (cases prog) (auto simp: match_program_iff)
  with dasd_uri_split [OF u(2,3)] u show ?thesis by auto
qed

lemma zfcp_uri_split:
  assumes "matches busid_classes b" and "matches hex64_classes w" and "matches hex64_classes l"
    and "match_program t = Some prog"
  shows "zfcp_uri (''zfcp://('' @ b @ w @ l @ t) =
    ebind (scan_program prog) (\<lambda>n.
      Inr (Some (map tolower b, map tolower (drop 1 w), map tolower (drop 1 l), n)))"
proof -
  have "URI_ZFCP_BOOTMAP_RE (''zfcp://('' @ b @ w @ l @ t) = Some prog"
    using assms by (subst URI_ZFCP_iff) blast
  moreover have len: "length b = 8" "length w = 19" "length l = 19"
    using busid_length [OF assms(1)] hex64_length [OF assms(2)] hex64_length [OF assms(3)] .
  then have "take 8 (drop 8 (''zfcp://('' @ b @ w @ l @ t)) = b"
      "take 18 (drop 17 (''zfcp://('' @ b @ w @ l @ t)) = drop 1 w"
      "take 18 (drop 36 (''zfcp://('' @ b @ w @ l @ t)) = drop 1 l"
    by simp_all
  ultimately show ?thesis by (simp add: zfcp_uri_def)
qed

lemma zfcp_uri_cases:
  "zfcp_uri uri = Inr None
   \<or> (\<exists>b w l t n. uri = ''zfcp://('' @ b @ w @ l @ t \<and> matches busid_classes b
        \<and> matches hex64_classes w \<and> matches hex64_classes l \<and> n < 100
        \<and> zfcp_uri uri
          = Inr (Some (map tolower b, map tolower (drop 1 w), map tolower (drop 1 l), int n)))"
proof (cases "URI_ZFCP_BOOTMAP_RE uri")
  case None
  then show ?thesis by (simp add: zfcp_uri_def)
next
  case (Some prog)
  then obtain b w l t where u: "uri = ''zfcp://('' @ b @ w @ l @ t" "matches busid_classes b"
      "matches hex64_classes w" "matches hex64_classes l" "match_program t = Some prog"
    by (auto simp: URI_ZFCP_iff)
  obtain n where n: "scan_program prog = Inr (int n)" "n < 100"
    using u(5) scan_program_digits by (cases prog) (auto simp: match_program_iff)
  from zfcp_uri_split [OF u(2-5)] n(1) u(1) have
    "zfcp_uri uri = Inr (Some (map tolower b, map tolower (drop 1 w), map tolower (drop 1 l), int n))"
    by simp
  with u n(2) show ?thesis by blast
qed

text \<open>The URIs of SCSI disks, written out, with the fields they denote.\<close>

definition hex_run :: "nat \<Rightarrow> string \<Rightarrow> bool" where
  "hex_run n u \<longleftrightarrow> length u = n \<and> list_all isxdigit u"

definition program_suffix :: "string \<Rightarrow> int \<Rightarrow> bool" where
  "program_suffix t n \<longleftrightarrow>
     t = '')'' \<and> n = 0
     \<or> (\<exists>ds. t = '','' @ ds @ '')'' \<and> (length ds = 1 \<or> length ds = 2) \<and> list_all isdigit ds
          \<and> n = int (program_value ds))"

definition zfcp_form :: "string \<Rightarrow> string \<times> string \<times> string \<times> int \<Rightarrow> bool" where
  "zfcp_form uri r \<longleftrightarrow>
     (\<exists>a c d w l t n. uri = ''zfcp://('' @ [a] @ ''.'' @ [c] @ ''.'' @ d @ '',0x'' @ w @ '',0x'' @ l @ t
        \<and> isxdigit a \<and> isxdigit c \<and> hex_run 4 d \<and> hex_run 16 w \<and> hex_run 16 l \<and> program_suffix t n
        \<and> r = (map tolower ([a] @ ''.'' @ [c] @ ''.'' @ d), ''0x'' @ map tolower w, ''0x'' @ map tolower l, n))"

lemma matches_replicate: "matches (replicate n P) u \<longleftrightarrow> length u = n \<and> list_all P u"
proof (induction n arbitrary: u)
  case (Suc n)
  then show ?case by (cases u) auto
qed auto

lemma matches_one: "matches [P] u \<longleftrightarrow> (\<exists>c. u = [c] \<and> P c)"
  by (auto simp: list_all2_Cons1)

lemma matches_busid:
  "matches busid_classes b \<longleftrightarrow>
   (\<exists>a c d. b = [a] @ ''.'' @ [c] @ ''.'' @ d \<and> isxdigit a \<and> isxdigit c \<and> hex_run 4 d)"
  unfolding busid_classes_def matches_append matches_one matches_lit matches_replicate hex_run_def by blast

lemma matches_hex64: "matches hex64_classes w \<longleftrightarrow> (\<exists>v. w = '',0x'' @ v \<and> hex_run 16 v)"
  unfolding hex64_classes_def matches_append matches_lit matches_replicate hex_run_def by blast

lemma match_program_suffix:
  "(\<exists>prog. match_program t = Some prog \<and> scan_program prog = Inr n) \<longleftrightarrow> program_suffix t n"
proof
  assume "\<exists>prog. match_program t = Some prog \<and> scan_program prog = Inr n"
  then obtain prog where m: "match_program t = Some prog" "scan_program prog = Inr n" by blast
  from m(1) consider "t = '')''" "prog = None"
    | ds where "t = '','' @ ds @ '')''" "prog = Some (ds @ '')'')" "length ds = 1 \<or> length ds = 2"
        "\<forall>d \<in> set ds. isdigit d"
    unfolding match_program_iff by blast
  then show "program_suffix t n"
  proof cases
    case 2
    with m(2) scan_program_digits(1) [OF 2(3,4)] have "n = int (program_value ds)" by simp
    with 2 show ?thesis unfolding program_suffix_def list_all_iff by blast
  qed (use m(2) in \<open>simp add: program_suffix_def\<close>)
next
  assume "program_suffix t n"
  then consider "t = '')''" "n = 0"
    | ds where "t = '','' @ ds @ '')''" "length ds = 1 \<or> length ds = 2" "\<forall>d \<in> set ds. isdigit d"
        "n = int (program_value ds)"
    unfolding program_suffix_def list_all_iff by blast
  then show "\<exists>prog. match_program t = Some prog \<and> scan_program prog = Inr n"
  proof cases
    case (2 ds)
    then have "match_program t = Some (Some (ds @ '')''))" unfolding match_program_iff by blast
    with scan_program_digits(1) [OF 2(2,3)] 2(4) show ?thesis by blast
  qed (auto simp: match_program_iff)
qed

lemma zfcp_uri_iff: "zfcp_uri uri = Inr (Some r) \<longleftrightarrow> zfcp_form uri r"
proof
  assume z: "zfcp_uri uri = Inr (Some r)"
  then obtain prog where "URI_ZFCP_BOOTMAP_RE uri = Some prog"
    by (auto simp: zfcp_uri_def split: option.splits)
  then obtain b w l t where u: "uri = ''zfcp://('' @ b @ w @ l @ t" "matches busid_classes b"
      "matches hex64_classes w" "matches hex64_classes l" "match_program t = Some prog"
    unfolding URI_ZFCP_iff by blast
  from z zfcp_uri_split [OF u(2-5)] u(1) obtain n where n: "scan_program prog = Inr n"
    "r = (map tolower b, map tolower (drop 1 w), map tolower (drop 1 l), n)"
    by (cases "scan_program prog") auto
  have t: "program_suffix t n" using u(5) n(1) unfolding match_program_suffix [symmetric] by blast
  obtain v y where v: "w = '',0x'' @ v" "hex_run 16 v" "l = '',0x'' @ y" "hex_run 16 y"
    using u(3,4) unfolding matches_hex64 by blast
  obtain a c d where b: "b = [a] @ ''.'' @ [c] @ ''.'' @ d" "isxdigit a" "isxdigit c" "hex_run 4 d"
    using u(2) unfolding matches_busid by blast
  have "map tolower (drop 1 w) = ''0x'' @ map tolower v" "map tolower (drop 1 l) = ''0x'' @ map tolower y"
    by (simp_all add: v tolower_def isupper_def)
  with n(2) b(1) have "r = (map tolower ([a] @ ''.'' @ [c] @ ''.'' @ d), ''0x'' @ map tolower v, ''0x'' @ map tolower y, n)"
    by (simp del: map_append)
  moreover have "uri = ''zfcp://('' @ [a] @ ''.'' @ [c] @ ''.'' @ d @ '',0x'' @ v @ '',0x'' @ y @ t"
    using u(1) v(1,3) b(1) by simp
  ultimately show "zfcp_form uri r"
    unfolding zfcp_form_def using b(2-4) v(2,4) t by blast
next
  assume "zfcp_form uri r"
  then obtain a c d v y t n where z: "uri = ''zfcp://('' @ [a] @ ''.'' @ [c] @ ''.'' @ d @ '',0x'' @ v @ '',0x'' @ y @ t"
    "isxdigit a" "isxdigit c" "hex_run 4 d" "hex_run 16 v" "hex_run 16 y" "program_suffix t n"
    "r = (map tolower ([a] @ ''.'' @ [c] @ ''.'' @ d), ''0x'' @ map tolower v, ''0x'' @ map tolower y, n)"
    unfolding zfcp_form_def by blast
  define b where "b = [a] @ ''.'' @ [c] @ ''.'' @ d"
  have "uri = ''zfcp://('' @ b @ ('',0x'' @ v) @ ('',0x'' @ y) @ t"
    unfolding z(1) b_def by simp
  moreover have "matches busid_classes b" unfolding matches_busid b_def using z(2-4) by blast
  ultimately have u: "uri = ''zfcp://('' @ b @ ('',0x'' @ v) @ ('',0x'' @ y) @ t" "matches busid_classes b"
    "hex_run 16 v" "hex_run 16 y" "program_suffix t n"
    "r = (map tolower b, ''0x'' @ map tolower v, ''0x'' @ map tolower y, n)"
    using z(5-8) unfolding b_def .
  obtain prog where p: "match_program t = Some prog" "scan_program prog = Inr n"
    using u(5) unfolding match_program_suffix [symmetric] by blast
  have h: "matches hex64_classes ('',0x'' @ v)" "matches hex64_classes ('',0x'' @ y)"
    using u(3,4) unfolding matches_hex64 by blast+
  have "map tolower (drop 1 ('',0x'' @ v)) = ''0x'' @ map tolower v" for v
    by (simp add: tolower_def isupper_def)
  then show "zfcp_uri uri = Inr (Some r)"
    unfolding u(1) zfcp_uri_split [OF u(2) h p(1)] using p(2) u(6) by simp
qed

lemma zfcp_uri_defined: "\<exists>r. zfcp_uri uri = Inr r"
  using zfcp_uri_cases [of uri] by auto

lemma program_suffix_ends: "program_suffix t n \<Longrightarrow> \<exists>u. t = u @ '')''"
  unfolding program_suffix_def by (metis append_Nil append.assoc)

lemma zfcp_form_ends:
  assumes "zfcp_form uri r"
  shows "\<exists>u. uri = u @ '')''"
proof -
  obtain v t n where "uri = v @ t" "program_suffix t n"
    using assms unfolding zfcp_form_def by (metis append.assoc)
  with program_suffix_ends [of t n] show ?thesis by (metis append.assoc)
qed

end
