(* ===== verification/BootActions.thy ===== *)
theory BootActions
  imports BootDevices
begin

section \<open>Booting from DASD and FCP disks (bootmap\_dasd.c, bootmap\_fcp.c)\<close>

text \<open>
  The two device classes: the URI is taken apart, the device is set online and gets a node under
  \<^verbatim>\<open>/dev\<close>, the boot map is booted, and if that returns, the device is set offline again.
\<close>

subsection \<open>DASD\<close>

definition dasd_node :: "string \<Rightarrow> string" where
  "dasd_node busid = BLOCKDEV_PATH @ ''/b'' @ busid"

text \<open>The number pair \<^verbatim>\<open>major:minor\<close> a \<^verbatim>\<open>dev\<close> attribute holds, or an error text.\<close>

definition read_node_numbers :: "string \<Rightarrow> string \<Rightarrow> (string + int \<times> int) act" where
  "read_node_numbers what block =
     abind (open_file block) (\<lambda>f.
       case f of
         Inl e \<Rightarrow> aret (Inl (''Error getting device node information for '' @ what @ '' - '' @ e))
       | Inr fd \<Rightarrow>
           (case read_into fd 15 of (ok, nodestr) \<Rightarrow>
              abind (lift_res (sscanf_is 2 (cstr nodestr))) (\<lambda>ns.
                case ns of
                  [major, minor] \<Rightarrow> aret (Inr (major, minor))
                | _ \<Rightarrow> aret (Inl (''Error getting device node information for '' @ what)))))"

definition make_node :: "kern \<Rightarrow> string \<Rightarrow> string \<Rightarrow> int \<times> int \<Rightarrow> (string + string) act" where
  "make_node kern what dev mm =
     abind (unlink_node dev) (\<lambda>_.
     abind (mknod kern dev (fst mm) (snd mm)) (\<lambda>e.
       case e of
         Some m \<Rightarrow> aret (Inl (''Error creating device node for '' @ what @ '' - '' @ m))
       | None \<Rightarrow> aret (Inr dev)))"

definition set_dasd_online :: "kern \<Rightarrow> string \<Rightarrow> (string + string) act" where
  "set_dasd_online kern busid =
     (let syspath = SYS_PATH_DASD @ ''/'' @ busid; echo = syspath @ ''/online'';
          name = ''DASD '' @ in_quotes busid in
      abind (exists_file syspath) (\<lambda>ex.
      if \<not> ex then aret (Inl (''Error setting '' @ name @ '' online - no such channel device''))
      else abind (echo_and_test kern (Some echo) (Some ''1'') (Some echo)) (\<lambda>rc.
      if rc \<noteq> 1 then aret (Inl (''Error setting '' @ name @ '' online''))
      else abind (cfg_glob_filename kern (syspath @ ''/block:*/dev'') 50) (\<lambda>g.
      case g of
        None \<Rightarrow> aret (Inl (''Error setting '' @ name @ '' online - could not get block:* sysfs link''))
      | Some block \<Rightarrow>
          abind (read_node_numbers name block) (\<lambda>r.
          case r of Inl e \<Rightarrow> aret (Inl e)
          | Inr mm \<Rightarrow> make_node kern name (dasd_node busid) mm)))))"

definition set_dasd_offline :: "kern \<Rightarrow> string \<Rightarrow> unit act" where
  "set_dasd_offline kern busid =
     abind (echo_and_test kern (Some (SYS_PATH_DASD @ ''/'' @ busid @ ''/online'')) (Some ''0'') None)
       (\<lambda>_. unlink_node (dasd_node busid))"

text \<open>
  When \<^verbatim>\<open>disk_open\<close> fails the device stays online and its node is left behind.
\<close>

definition action_bootmap_boot_dasd ::
  "(nat \<Rightarrow> byte) \<Rightarrow> kern \<Rightarrow> prog \<Rightarrow> cfg_bentry \<Rightarrow> string \<Rightarrow> string act" where
  "action_bootmap_boot_dasd heap kern prog boot uri =
     abind (lift_res (dasd_uri uri)) (\<lambda>u.
     case u of
       None \<Rightarrow> aret (''Error - invalid '' @ in_quotes ''dasd'' @ '' boot map URI.'')
     | Some (busid, program) \<Rightarrow>
         abind (set_dasd_online kern busid) (\<lambda>r.
         case r of Inl e \<Rightarrow> aret e
         | Inr dev \<Rightarrow>
             abind (open_disk_node dev) (\<lambda>r.
             case r of Inl e \<Rightarrow> aret e
             | Inr disk \<Rightarrow>
                 abind (boot_bootmap_disk heap prog boot disk program) (\<lambda>errmsg.
                 abind (set_dasd_offline kern busid) (\<lambda>_. aret errmsg)))))"

subsection \<open>FCP disks\<close>

definition fcp_name :: "string \<Rightarrow> string \<Rightarrow> string \<Rightarrow> string" where
  "fcp_name busid wwpn lun = ''FCP disk '' @ busid @ '':'' @ wwpn @ '':'' @ lun"

definition fcp_node :: "string \<Rightarrow> string \<Rightarrow> string \<Rightarrow> string" where
  "fcp_node busid wwpn lun = BLOCKDEV_PATH @ ''/b'' @ busid @ '':'' @ wwpn @ '':'' @ lun"

definition attr_is :: "string \<Rightarrow> string \<Rightarrow> string \<Rightarrow> bool act" where
  "attr_is d_name attr v =
     abind (read_file (SYS_PATH_SCSI @ ''/'' @ d_name @ ''/'' @ attr) 20) (\<lambda>r.
       aret (case r of None \<Rightarrow> False | Some t \<Rightarrow> t = v))"

text \<open>
  The search stops at the first directory whose three attributes match and whose name consists
  of four numbers.
\<close>

fun find_scsi_loop :: "string \<Rightarrow> string \<Rightarrow> string \<Rightarrow> string list \<Rightarrow> int list option act" where
  "find_scsi_loop busid wwpn lun [] = aret None"
| "find_scsi_loop busid wwpn lun (d_name # ds) =
     (if d_name = ''.'' \<or> d_name = ''..'' then find_scsi_loop busid wwpn lun ds
      else abind (attr_is d_name ''hba_id'' busid) (\<lambda>ok.
        if \<not> ok then find_scsi_loop busid wwpn lun ds
        else abind (attr_is d_name ''wwpn'' wwpn) (\<lambda>ok.
        if \<not> ok then find_scsi_loop busid wwpn lun ds
        else abind (attr_is d_name ''fcp_lun'' lun) (\<lambda>ok.
        if \<not> ok then find_scsi_loop busid wwpn lun ds
        else abind (lift_res (sscanf_is 4 d_name)) (\<lambda>ns.
        if length ns = 4 then aret (Some ns) else find_scsi_loop busid wwpn lun ds)))))"

definition find_scsi_device :: "kern \<Rightarrow> string \<Rightarrow> string \<Rightarrow> string \<Rightarrow> int list option act" where
  "find_scsi_device kern busid wwpn lun =
     abind (query (\<lambda>s. listdir kern SYS_PATH_SCSI (sys_fs s))) (\<lambda>dir.
       case dir of None \<Rightarrow> aret None | Some ds \<Rightarrow> find_scsi_loop busid wwpn lun ds)"

text \<open>The directory name \<^verbatim>\<open>host:channel:id:lun\<close>.\<close>

definition scsi_name :: "int list \<Rightarrow> string" where
  "scsi_name ns = printf_d (ns ! 0) @ '':'' @ printf_d (ns ! 1) @ '':'' @ printf_d (ns ! 2) @ '':''
     @ printf_d (ns ! 3)"

text \<open>Configuring a port or a unit that does not exist yet.\<close>

definition configure :: "kern \<Rightarrow> string \<Rightarrow> string \<Rightarrow> string \<Rightarrow> bool act" where
  "configure kern path echo data =
     abind (exists_file path) (\<lambda>ex.
       if ex then aret True
       else abind (echo_and_test kern (Some echo) (Some data) (Some (path @ ''/failed'')))
         (\<lambda>rc. aret (rc = 0)))"

definition set_fcp_disk_online ::
  "kern \<Rightarrow> string \<Rightarrow> string \<Rightarrow> string \<Rightarrow> (string + string) act" where
  "set_fcp_disk_online kern busid wwpn lun =
     (let syspath = SYS_PATH_FCP @ ''/'' @ busid; echo = syspath @ ''/online'' in
      abind (exists_file syspath) (\<lambda>ex.
      if \<not> ex then aret (Inl (''Error setting FCP channel '' @ in_quotes busid
        @ '' online - no such channel device''))
      else abind (echo_and_test kern (Some echo) (Some ''1'') (Some echo)) (\<lambda>rc.
      if rc \<noteq> 1 then aret (Inl (''Error setting FCP channel '' @ in_quotes busid @ '' online''))
      else abind (configure kern (syspath @ ''/'' @ wwpn) (syspath @ ''/port_add'') wwpn) (\<lambda>ok.
      if \<not> ok then aret (Inl (''Error configuring WWPN '' @ in_quotes wwpn @ '' on FCP channel ''
        @ in_quotes busid))
      else abind (configure kern (syspath @ ''/'' @ wwpn @ ''/'' @ lun)
          (syspath @ ''/'' @ wwpn @ ''/unit_add'') lun) (\<lambda>ok.
      if \<not> ok then aret (Inl (''Error configuring LUN '' @ in_quotes lun @ '' on WWPN ''
        @ in_quotes wwpn @ '' on FCP channel '' @ in_quotes busid))
      else abind (find_scsi_device kern busid wwpn lun) (\<lambda>h.
      case h of
        None \<Rightarrow> aret (Inl (''Error getting device node information for '' @ fcp_name busid wwpn lun))
      | Some ns \<Rightarrow>
          abind (cfg_glob_filename kern (SYS_PATH_SCSI @ ''/'' @ scsi_name ns @ ''/block:*/dev'') 50)
            (\<lambda>g. case g of
              None \<Rightarrow> aret (Inl (''Error getting device node information for '' @ fcp_name busid wwpn lun
                @ '' - could not get block:* sysfs link''))
            | Some block \<Rightarrow>
                abind (read_node_numbers (fcp_name busid wwpn lun) block) (\<lambda>r.
                case r of Inl e \<Rightarrow> aret (Inl e)
                | Inr mm \<Rightarrow> make_node kern (fcp_name busid wwpn lun) (fcp_node busid wwpn lun) mm))))))))"

definition delete_scsi_device :: "kern \<Rightarrow> string \<Rightarrow> string \<Rightarrow> string \<Rightarrow> int act" where
  "delete_scsi_device kern busid wwpn lun =
     abind (find_scsi_device kern busid wwpn lun) (\<lambda>h.
       case h of None \<Rightarrow> aret (- 1)
       | Some ns \<Rightarrow> echo_and_test kern (Some (SYS_PATH_SCSI @ ''/'' @ scsi_name ns @ ''/delete''))
           (Some ''1'') None)"

text \<open>The result is 1 when the unit is still configured, 0 otherwise.\<close>

definition set_fcp_disk_offline :: "kern \<Rightarrow> string \<Rightarrow> string \<Rightarrow> string \<Rightarrow> int act" where
  "set_fcp_disk_offline kern busid wwpn lun =
     (let syspath = SYS_PATH_FCP @ ''/'' @ busid in
      abind (delete_scsi_device kern busid wwpn lun) (\<lambda>_.
      abind (echo_and_test kern (Some (syspath @ ''/'' @ wwpn @ ''/unit_remove'')) (Some lun) None) (\<lambda>_.
      abind (echo_and_test kern (Some (syspath @ ''/port_remove'')) (Some wwpn) None) (\<lambda>_.
      abind (echo_and_test kern (Some (syspath @ ''/online'')) (Some ''0'') None) (\<lambda>_.
      abind (unlink_node (fcp_node busid wwpn lun)) (\<lambda>_.
      abind (exists_file (syspath @ ''/'' @ wwpn @ ''/'' @ lun)) (\<lambda>ex.
      aret (if ex then 1 else 0))))))))"

definition action_bootmap_boot_zfcp ::
  "(nat \<Rightarrow> byte) \<Rightarrow> kern \<Rightarrow> prog \<Rightarrow> cfg_bentry \<Rightarrow> string \<Rightarrow> string act" where
  "action_bootmap_boot_zfcp heap kern prog boot uri =
     abind (lift_res (zfcp_uri uri)) (\<lambda>u.
     case u of
       None \<Rightarrow> aret (''Error - invalid '' @ in_quotes ''zfcp'' @ '' boot map URI.'')
     | Some (busid, wwpn, lun, program) \<Rightarrow>
         abind (set_fcp_disk_online kern busid wwpn lun) (\<lambda>r.
         case r of Inl e \<Rightarrow> aret e
         | Inr dev \<Rightarrow>
             abind (open_disk_node dev) (\<lambda>r.
             case r of Inl e \<Rightarrow> aret e
             | Inr disk \<Rightarrow>
                 abind (boot_bootmap_disk heap prog boot disk program) (\<lambda>errmsg.
                 abind (set_fcp_disk_offline kern busid wwpn lun) (\<lambda>_. aret errmsg)))))"

subsection \<open>What is left of a device after a boot that returns\<close>

lemma echo_and_test_stores:
  assumes "e \<noteq> []" and "d \<noteq> []"
  shows "sys_stores (snd (echo_and_test kern (Some e) (Some d) test s)) = sys_stores s @ [(e, d)]"
proof -
  obtain ok f where k: "store kern e d (sys_fs s) = (ok, f)" by fastforce
  let ?s = "s\<lparr>sys_fs := f, sys_stores := sys_stores s @ [(e, d)]\<rparr>"
  have st: "store_attr kern e d s = (Done ok, ?s)" using k by (simp add: store_attr_def)
  have o: "\<exists>r. open_file t ?s = (Done r, ?s)" for t by (simp add: open_file_def)
  show ?thesis
  proof (cases test)
    case None
    with st assms show ?thesis by (simp add: echo_and_test_def)
  next
    case (Some t)
    obtain r where r: "open_file t ?s = (Done r, ?s)" using o by blast
    have "sys_stores (snd (abind (lift_res (sscanf_i y)) (case_option (aret (- 1)) aret) u))
        = sys_stores u" for y and u :: sys
      by (cases "sscanf_i y") (auto split: option.split)
    then show ?thesis
      using st assms Some r
      by (auto simp: echo_and_test_def split: sum.split prod.split)
  qed
qed

lemma echo_only_Done:
  assumes "e \<noteq> []" and "d \<noteq> []"
  shows "\<exists>rc t. echo_and_test kern (Some e) (Some d) None s = (Done rc, t)
    \<and> sys_stores t = sys_stores s @ [(e, d)]"
proof -
  obtain ok f where k: "store kern e d (sys_fs s) = (ok, f)" by fastforce
  then have "store_attr kern e d s = (Done ok, s\<lparr>sys_fs := f, sys_stores := sys_stores s @ [(e, d)]\<rparr>)"
    by (simp add: store_attr_def)
  with assms show ?thesis by (simp add: echo_and_test_def)
qed

lemma unlink_node_apply [simp]:
  "unlink_node p s = (Done (), set_node p None (fs_set p None s))"
  by (simp add: unlink_node_def)

lemma set_node_fields [simp]:
  "nodes (sys_fs (set_node p d s)) q = (if q = p then d else nodes (sys_fs s) q)"
  "sys_stores (set_node p d s) = sys_stores s"
  "sys_trace (set_node p d s) = sys_trace s"
  by (simp_all add: set_node_def)

lemma make_node_Inr:
  assumes "make_node kern what dev mm s = (Done (Inr d), t)"
  shows "d = dev \<and> nodes (sys_fs t) dev = Some mm \<and> sys_stores t = sys_stores s"
  using assms
  by (cases "mknod_err kern dev")
    (auto simp: make_node_def mknod_def abind_Done_iff)

lemma read_node_numbers_state: "snd (read_node_numbers what block s) = s"
proof -
  obtain r where "open_file block s = (Done r, s)" by (simp add: open_file_def)
  then show ?thesis
    by (auto simp: read_node_numbers_def lift_res_def split: sum.split list.split prod.split)
qed

lemma sum_case_Inr_iff:
  "(case x of Inl e \<Rightarrow> aret (Inl e) | Inr y \<Rightarrow> f y) s = (Done (Inr z), t)
   \<longleftrightarrow> (\<exists>y. x = Inr y \<and> f y s = (Done (Inr z), t))"
  by (cases x) auto

definition dasd_online_attr :: "string \<Rightarrow> string" where
  "dasd_online_attr busid = SYS_PATH_DASD @ ''/'' @ busid @ ''/online''"

lemma set_dasd_online_Inr:
  assumes "set_dasd_online kern busid s = (Done (Inr dev), t)"
  shows "dev = dasd_node busid \<and> nodes (sys_fs t) dev \<noteq> None
    \<and> sys_stores t = sys_stores s @ [(dasd_online_attr busid, ''1'')]"
proof -
  let ?echo = "SYS_PATH_DASD @ ''/'' @ busid @ ''/online''"
  obtain rc u g mm v where
    e: "echo_and_test kern (Some ?echo) (Some ''1'') (Some ?echo) s = (Done rc, u)"
    and r: "read_node_numbers (''DASD '' @ in_quotes busid) g u = (Done (Inr mm), v)"
    and m: "make_node kern (''DASD '' @ in_quotes busid) (dasd_node busid) mm v = (Done (Inr dev), t)"
    using assms
    by (auto simp: set_dasd_online_def Let_def abind_Done_iff cfg_glob_filename_def sum_case_Inr_iff
        split: if_splits option.splits)
  have "sys_stores u = sys_stores s @ [(?echo, ''1'')]"
    using echo_and_test_stores [of ?echo "''1''" kern "Some ?echo" s] e by simp
  moreover have "v = u" using read_node_numbers_state r by (metis snd_conv)
  ultimately show ?thesis
    using make_node_Inr [OF m] by (simp add: dasd_online_attr_def)
qed

text \<open>A DASD whose boot fails is set offline and its node is removed.\<close>

lemma dasd_boot_cleans_up:
  assumes "dasd_uri uri = Inr (Some (busid, n))"
    and "set_dasd_online kern busid s = (Done (Inr dev), s1)"
    and "open_disk_node dev s1 = (Done (Inr disk), s2)"
    and "boot_bootmap_disk heap prog boot disk n s2 = (Done m, t)"
  shows "\<exists>u. action_bootmap_boot_dasd heap kern prog boot uri s = (Done m, u)
    \<and> nodes (sys_fs u) (dasd_node busid) = None
    \<and> sys_stores u = sys_stores t @ [(dasd_online_attr busid, ''0'')]"
proof -
  obtain rc v where v: "echo_and_test kern (Some (dasd_online_attr busid)) (Some ''0'') None t = (Done rc, v)"
      "sys_stores v = sys_stores t @ [(dasd_online_attr busid, ''0'')]"
    using echo_only_Done [of "dasd_online_attr busid" "''0''" kern t]
    by (auto simp: dasd_online_attr_def)
  then show ?thesis
    using assms by (simp add: action_bootmap_boot_dasd_def set_dasd_offline_def dasd_online_attr_def)
qed

lemma open_disk_node_state: "snd (open_disk_node dev s) = s"
  by (auto simp: open_disk_node_def lift_run_def split: option.split sum.split cerr.split)

text \<open>When the disk cannot be opened the device stays online and the node is left behind.\<close>

lemma dasd_open_failure_leaks:
  assumes "dasd_uri uri = Inr (Some (busid, n))"
    and "set_dasd_online kern busid s = (Done (Inr dev), s1)"
    and "open_disk_node dev s1 = (Done (Inl e), s2)"
  shows "action_bootmap_boot_dasd heap kern prog boot uri s = (Done e, s2)"
    and "nodes (sys_fs s2) (dasd_node busid) \<noteq> None"
    and "sys_stores s2 = sys_stores s @ [(dasd_online_attr busid, ''1'')]"
proof -
  have "s2 = s1" using open_disk_node_state assms(3) by (metis snd_conv)
  then show "nodes (sys_fs s2) (dasd_node busid) \<noteq> None"
    and "sys_stores s2 = sys_stores s @ [(dasd_online_attr busid, ''1'')]"
    using set_dasd_online_Inr [OF assms(2)] by auto
  show "action_bootmap_boot_dasd heap kern prog boot uri s = (Done e, s2)"
    using assms by (simp add: action_bootmap_boot_dasd_def)
qed

subsection \<open>The search for the SCSI device\<close>

text \<open>The attribute a directory entry shows; reading does not change the state.\<close>

definition attr_value :: "sys \<Rightarrow> string \<Rightarrow> string \<Rightarrow> string option" where
  "attr_value s d_name attr =
     (case fst (read_file (SYS_PATH_SCSI @ ''/'' @ d_name @ ''/'' @ attr) 20 s) of
        Done r \<Rightarrow> r | _ \<Rightarrow> None)"

lemma read_file_Done: "\<exists>r. read_file path n s = (Done r, s)"
proof -
  obtain r where "open_file path s = (Done r, s)" by (simp add: open_file_def)
  then show ?thesis by (auto simp: read_file_def split: sum.split prod.split)
qed

lemma attr_is_eq [simp]: "attr_is d attr v s = (Done (attr_value s d attr = Some v), s)"
proof -
  obtain r where "read_file (SYS_PATH_SCSI @ ''/'' @ d @ ''/'' @ attr) 20 s = (Done r, s)"
    using read_file_Done by blast
  then show ?thesis by (auto simp: attr_is_def attr_value_def split: option.split)
qed

text \<open>The entries the search accepts.\<close>

definition scsi_match :: "sys \<Rightarrow> string \<Rightarrow> string \<Rightarrow> string \<Rightarrow> string \<Rightarrow> bool" where
  "scsi_match s busid wwpn lun d \<longleftrightarrow> d \<noteq> ''.'' \<and> d \<noteq> ''..''
     \<and> attr_value s d ''hba_id'' = Some busid \<and> attr_value s d ''wwpn'' = Some wwpn
     \<and> attr_value s d ''fcp_lun'' = Some lun"

definition scsi_numbers :: "string \<Rightarrow> int list" where
  "scsi_numbers d = (case sscanf_is 4 d of Inr ns \<Rightarrow> ns | Inl _ \<Rightarrow> [])"

lemma find_scsi_loop_eq:
  assumes "\<forall>d \<in> set ds. \<exists>ns. sscanf_is 4 d = Inr ns"
  shows "find_scsi_loop busid wwpn lun ds s =
    (Done (map_option (\<lambda>i. scsi_numbers (ds ! i))
       (find_index (\<lambda>d. scsi_match s busid wwpn lun d \<and> length (scsi_numbers d) = 4) ds)), s)"
  using assms
proof (induction ds)
  case (Cons d ds)
  then obtain ns where "sscanf_is 4 d = Inr ns" by auto
  moreover have "map_option (\<lambda>i. scsi_numbers ((d # ds) ! i)) (map_option Suc x)
      = map_option (\<lambda>i. scsi_numbers (ds ! i)) x" for x
    by (cases x) simp_all
  ultimately show ?case using Cons by (auto simp: scsi_match_def scsi_numbers_def)
qed simp

end
