(* ===== verification/Insfile.thy ===== *)
theory Insfile
  imports BootActions
begin

section \<open>Booting from an INSFILE (insfile.c)\<close>

text \<open>
  An INSFILE lists the components of a system with their load addresses. Every component is
  loaded, the kind of each is guessed by counting votes, and the kernel is started when a kernel,
  an initrd and a parameter file have been found.
\<close>

datatype ins_component_type = INS_KERNEL | INS_INITRD | INS_PARMFILE | INS_INITRDSIZE | INS_OTHER

subsection \<open>Identifying a component\<close>

type_synonym votes = "ins_component_type \<Rightarrow> nat"

definition bump :: "bool \<Rightarrow> ins_component_type \<Rightarrow> votes \<Rightarrow> votes" where
  "bump c t p = (if c then p(t := p t + 1) else p)"

text \<open>
  The loop over the kinds: the first one with the highest positive number of votes.
\<close>

fun most_probable :: "votes \<Rightarrow> ins_component_type list \<Rightarrow> nat \<Rightarrow> ins_component_type
    \<Rightarrow> ins_component_type" where
  "most_probable p [] highest best = best"
| "most_probable p (t # ts) highest best =
     (if highest < p t then most_probable p ts (p t) t else most_probable p ts highest best)"

definition ins_types :: "ins_component_type list" where
  "ins_types = [INS_KERNEL, INS_INITRD, INS_PARMFILE, INS_INITRDSIZE, INS_OTHER]"

text \<open>The bytes a stream delivers: everything up to the first read error.\<close>

definition stream_data :: "char fd \<Rightarrow> string" where
  "stream_data fd = snd (read_into fd (length (fd_data fd)))"

definition fopen :: "string \<Rightarrow> string option act" where
  "fopen path = abind (open_file path) (\<lambda>f. aret (case f of Inl e \<Rightarrow> None | Inr fd \<Rightarrow> Some (stream_data fd)))"

definition gzip_signature :: "string \<Rightarrow> bool" where
  "gzip_signature d \<longleftrightarrow> take 2 d = [CHR 0x1f, CHR 0x8b]"

definition address_votes :: "64 word \<Rightarrow> votes \<Rightarrow> votes" where
  "address_votes addr p =
     bump (addr = 0x00010414) INS_INITRDSIZE
       (bump (addr = 0x00800000) INS_INITRD
         (bump (addr = 0x00010480) INS_PARMFILE
           (bump (addr = 0) INS_KERNEL p)))"

definition identify_file :: "string \<Rightarrow> 64 word \<Rightarrow> ins_component_type act" where
  "identify_file name addr =
     (let p0 = (\<lambda>_. 0) in
      abind (stat_size name) (\<lambda>st.
      case st of
        None \<Rightarrow> abind (eprint_arg0 ('': stat not possible for '' @ name @ [nl])) (\<lambda>_. aret INS_OTHER)
      | Some st_size \<Rightarrow>
          abind (if 512 * 1024 < st_size then
                   let p = bump True INS_INITRD (bump True INS_KERNEL p0) in
                   abind (fopen name) (\<lambda>f. aret (map_option (\<lambda>d.
                     bump (gzip_signature d) INS_INITRD p) f))
                 else aret (Some p0)) (\<lambda>r.
          case r of None \<Rightarrow> abind (eprint_arg0 ('': fopen not possible for '' @ name @ [nl])) (\<lambda>_. aret INS_OTHER)
          | Some p \<Rightarrow>
            let p = bump (st_size = 4) INS_INITRDSIZE p in
            abind (if st_size \<le> SYSLOAD_MAX_KERNEL_CMDLINE then
                     let p = bump True INS_PARMFILE p in
                     abind (fopen name) (\<lambda>f. aret (map_option (\<lambda>d.
                       bump (\<forall>c \<in> set d. isprint c) INS_PARMFILE p) f))
                   else aret (Some p)) (\<lambda>r.
            case r of None \<Rightarrow> abind (eprint_arg0 ('': fopen not possible for '' @ name @ [nl])) (\<lambda>_. aret INS_OTHER)
            | Some p \<Rightarrow>
                aret (most_probable (address_votes addr p) ins_types 0 INS_OTHER)))))"

subsection \<open>Reading the INSFILE\<close>

definition CFG_STR_MAX_LEN :: nat where "CFG_STR_MAX_LEN = 512"

text \<open>One line as \<^verbatim>\<open>fgets\<close> delivers it.\<close>

definition fgets_line :: "nat \<Rightarrow> string \<Rightarrow> string" where
  "fgets_line n s =
     (let t = take (n - 1) s
      in case find_index (\<lambda>c. c = nl) t of None \<Rightarrow> t | Some i \<Rightarrow> take (Suc i) t)"

lemma fgets_line_pos: "s \<noteq> [] \<Longrightarrow> 1 < n \<Longrightarrow> 0 < length (fgets_line n s)"
  by (cases s) (auto simp: fgets_line_def Let_def split: option.split)

lemma fgets_line_less:
  "s \<noteq> [] \<Longrightarrow> 1 < n \<Longrightarrow> length (drop (length (fgets_line n s)) s) < length s"
  using fgets_line_pos [of s n] by (simp add: diff_less)

function fgets_lines :: "nat \<Rightarrow> string \<Rightarrow> string list" where
  "fgets_lines n s =
     (if s = [] \<or> n \<le> 1 then []
      else fgets_line n s # fgets_lines n (drop (length (fgets_line n s)) s))"
  by pat_completeness auto
termination
  by (relation "measure (\<lambda>(n, s). length s)") (simp_all add: fgets_line_less del: length_drop)

declare fgets_lines.simps [simp del]

text \<open>\<^verbatim>\<open>%lx\<close>: a hexadecimal number, saturated at the largest unsigned value.\<close>

definition scan_lx :: "string \<Rightarrow> 64 word option" where
  "scan_lx s =
     (let (sg, t) = scan_sign (dropWhile isspace s);
          u = (if take 2 t = ''0x'' \<or> take 2 t = ''0X'' then drop 2 t else t);
          ds = takeWhile isxdigit u
      in if ds = [] \<and> u = t then None
         else Some (if 2 ^ 64 \<le> base_val 16 ds then - 1
                    else word_of_int (sg * int (base_val 16 ds))))"

text \<open>
  \<^verbatim>\<open>sscanf (input, "%s %lx", input_name, &addr)\<close>: conversions that fail leave the variables
  as the previous line has set them.
\<close>

definition scan_ins_line :: "string \<Rightarrow> string \<times> 64 word \<Rightarrow> string \<times> 64 word" where
  "scan_ins_line input st =
     (let t = dropWhile isspace (cstr input);
          name = takeWhile (\<lambda>c. \<not> isspace c) t
      in if name = [] then st
         else (name, case scan_lx (dropWhile (\<lambda>c. \<not> isspace c) t) of
                       None \<Rightarrow> snd st | Some a \<Rightarrow> a))"

text \<open>Moving an identified component to its place.\<close>

definition place_component :: "string \<Rightarrow> ins_component_type \<Rightarrow> unit act" where
  "place_component local_name t =
     (case t of
        INS_KERNEL \<Rightarrow> rename local_name SYSLOAD_FILENAME_KERNEL
      | INS_INITRD \<Rightarrow> rename local_name SYSLOAD_FILENAME_INITRD
      | INS_PARMFILE \<Rightarrow> rename local_name SYSLOAD_FILENAME_PARMFILE
      | _ \<Rightarrow> unlink local_name)"

text \<open>An output parameter: a new value replaces the old one, None leaves it.\<close>

definition upd_out :: "cptr \<Rightarrow> cptr \<Rightarrow> cptr" where
  "upd_out new old = (case new of None \<Rightarrow> old | Some s \<Rightarrow> Some s)"

text \<open>
  The loop over the lines. Its state: the variables \<^verbatim>\<open>input_name\<close> and \<^verbatim>\<open>addr\<close>, the line counter
  and the last message of a module.
\<close>

fun insfile_loop ::
  "prog \<Rightarrow> cptr \<Rightarrow> string list \<Rightarrow> string \<times> 64 word \<Rightarrow> nat \<Rightarrow> cptr \<Rightarrow> string option act" where
  "insfile_loop prog uri_path [] st linecount tmp_msg = aret None"
| "insfile_loop prog uri_path (input # ls) st linecount tmp_msg =
     (if input \<noteq> [] \<and> hd input = CHR ''*'' then insfile_loop prog uri_path ls st linecount tmp_msg
      else let st = scan_ins_line input st; filename = fst st; linecount = linecount + 1 in
        if length filename = 0 then insfile_loop prog uri_path ls st linecount tmp_msg
        else
          let local_name = ''/tmp/file_'' @ printf_d (int linecount) in
          abind (comp_load prog local_name (prefix_root uri_path filename)) (\<lambda>(rc, info, m).
          let tmp_msg = upd_out m tmp_msg in
          if rc \<noteq> 0
          then aret (Some (''Error loading insfile component '' @ in_quotes filename @ '' - ''
                 @ str_arg tmp_msg))
          else abind (identify_file local_name (snd st)) (\<lambda>t.
               abind (place_component local_name t) (\<lambda>_.
               insfile_loop prog uri_path ls st linecount tmp_msg))))"

definition insfile_cleanup :: "string \<Rightarrow> string act" where
  "insfile_cleanup msg =
     abind (unlink SYSLOAD_FILENAME_KERNEL) (\<lambda>_.
     abind (unlink SYSLOAD_FILENAME_INITRD) (\<lambda>_.
     abind (unlink SYSLOAD_FILENAME_PARMFILE) (\<lambda>_. aret msg)))"

text \<open>The last part: start the kernel when all files are there.\<close>

definition insfile_start :: "prog \<Rightarrow> cptr \<Rightarrow> string act" where
  "insfile_start prog cmd =
     abind (exists_file SYSLOAD_FILENAME_KERNEL) (\<lambda>k.
     abind (exists_file SYSLOAD_FILENAME_INITRD) (\<lambda>i.
     abind (exists_file SYSLOAD_FILENAME_PARMFILE) (\<lambda>p.
     if k \<and> i \<and> p then
       abind (compose_commandline SYSLOAD_FILENAME_PARMFILE cmd) (\<lambda>r.
         case r of
           Inl m \<Rightarrow> aret m
         | Inr c \<Rightarrow> kexec prog SYSLOAD_FILENAME_KERNEL SYSLOAD_FILENAME_INITRD c)
     else aret [])))"

definition insfile_components :: "prog \<Rightarrow> cfg_bentry \<Rightarrow> cptr \<Rightarrow> cptr \<Rightarrow> string act" where
  "insfile_components prog boot uri_path tmp_msg =
     abind (fopen SYSLOAD_FILENAME_INSFILE) (\<lambda>f.
       case f of
         None \<Rightarrow> aret (''Unable to open insfile - '' @ SYSLOAD_FILENAME_INSFILE @ [nl])
       | Some content \<Rightarrow>
           abind (insfile_loop prog uri_path (fgets_lines CFG_STR_MAX_LEN content) ([], 0) 0 tmp_msg)
             (\<lambda>r. case r of
                Some m \<Rightarrow> aret m
              | None \<Rightarrow>
                  abind (unlink SYSLOAD_FILENAME_INSFILE) (\<lambda>_. insfile_start prog (cmdline boot))))"

definition action_insfile_boot :: "prog \<Rightarrow> cfg_bentry \<Rightarrow> string act" where
  "action_insfile_boot prog boot =
     (case insfile boot of
        None \<Rightarrow> bad_act NullDeref
      | Some ins \<Rightarrow>
          abind (if length ins \<noteq> 0 then
              let tmp_uri = prefix_root (root boot) ins in
              abind (comp_load prog SYSLOAD_FILENAME_INSFILE tmp_uri) (\<lambda>(rc, info, m).
                if rc \<noteq> 0
                then aret (''Error loading insfile '' @ in_quotes tmp_uri @ '' - '' @ str_arg m)
                else insfile_components prog boot (Some (get_uri_path tmp_uri)) m)
            else insfile_components prog boot None None) insfile_cleanup)"

subsection \<open>The outcome of the vote\<close>

lemma stream_data_good:
  assumes "fd_good fd" and "fd_rest fd = fd_data fd"
  shows "stream_data fd = fd_data fd"
proof -
  obtain bs t where r: "cfg_read posix_read fd (length (fd_data fd)) = (RdOk bs, t)"
    using cfg_read_good [OF assms(1)] by blast
  with fds.cfg_read_takes [OF r] assms(2) show ?thesis
    by (simp add: stream_data_def read_into_def)
qed

text \<open>The votes a readable file gets.\<close>

definition ins_votes :: "string \<Rightarrow> 64 word \<Rightarrow> votes" where
  "ins_votes c addr t =
     (let big = 512 * 1024 < length c; small = length c \<le> SYSLOAD_MAX_KERNEL_CMDLINE in
      case t of
        INS_KERNEL \<Rightarrow> of_bool big + of_bool (addr = 0)
      | INS_INITRD \<Rightarrow> of_bool big + of_bool (big \<and> gzip_signature c) + of_bool (addr = 0x00800000)
      | INS_PARMFILE \<Rightarrow> of_bool small + of_bool (small \<and> (\<forall>x \<in> set c. isprint x))
          + of_bool (addr = 0x00010480)
      | INS_INITRDSIZE \<Rightarrow> of_bool (length c = 4) + of_bool (addr = 0x00010414)
      | INS_OTHER \<Rightarrow> 0)"

lemma fopen_ok:
  assumes "file_at s p = Some c" and "open_err (sys_fs s) p = None" and "bad (sys_fs s) p = None"
  shows "fopen p s = (Done (Some c), s)"
  using open_file_ok [OF assms] by (auto simp: fopen_def stream_data_good)

lemma identify_file_ok:
  assumes "file_at s name = Some c" and "open_err (sys_fs s) name = None"
    and "bad (sys_fs s) name = None"
  shows "identify_file name addr s
    = (Done (most_probable (ins_votes c addr) ins_types 0 INS_OTHER), s)"
proof -
  have f: "abind (fopen name) g s = g (Some c) s" for g
    using fopen_ok [OF assms] by simp
  have v: "address_votes addr (bump b4 INS_PARMFILE (bump b3 INS_PARMFILE (bump b2 INS_INITRDSIZE
      (bump b1 INS_INITRD (bump b0 INS_INITRD (bump b0 INS_KERNEL (\<lambda>_. 0)))))))
     = (\<lambda>t. case t of INS_KERNEL \<Rightarrow> of_bool b0 + of_bool (addr = 0)
        | INS_INITRD \<Rightarrow> of_bool b0 + of_bool b1 + of_bool (addr = 0x00800000)
        | INS_PARMFILE \<Rightarrow> of_bool b3 + of_bool b4 + of_bool (addr = 0x00010480)
        | INS_INITRDSIZE \<Rightarrow> of_bool b2 + of_bool (addr = 0x00010414) | INS_OTHER \<Rightarrow> 0)"
    for b0 b1 b2 b3 b4
    by (rule ext) (auto simp: address_votes_def bump_def split: ins_component_type.split)
  let ?big = "512 * 1024 < length c" and ?small = "length c \<le> SYSLOAD_MAX_KERNEL_CMDLINE"
  let ?g = "gzip_signature c" and ?pr = "\<forall>x \<in> set c. isprint x"
  have votes: "ins_votes c addr = address_votes addr (bump (?small \<and> ?pr) INS_PARMFILE
     (bump ?small INS_PARMFILE (bump (length c = 4) INS_INITRDSIZE (bump (?big \<and> ?g) INS_INITRD
     (bump ?big INS_INITRD (bump ?big INS_KERNEL (\<lambda>_. 0)))))))"
    unfolding v by (rule ext, rename_tac t, case_tac t) (simp_all only: ins_votes_def Let_def
        ins_component_type.case)
  have n: "bump False t p = p" for t p by (simp add: bump_def)
  have bs: "\<not> (?big \<and> ?small)" by (simp add: SYSLOAD_MAX_KERNEL_CMDLINE_def)
  show ?thesis
    unfolding votes identify_file_def Let_def
    using assms(1) bs by (cases ?big; cases ?small) (simp_all add: f n cong: if_cong)
qed

text \<open>The selected kind has the most votes, and of several such kinds it is the first.\<close>

lemma most_probable_max:
  "\<forall>t \<in> set ts. p t \<le> p (most_probable p ts (p b) b)"
  "p b \<le> p (most_probable p ts (p b) b)"
proof (induction ts arbitrary: b)
  case (Cons a ts)
  case 1
  show ?case using Cons [of a] Cons [of b] by (auto simp: not_less)
  case 2
  show ?case using Cons(2) [of a] Cons(2) [of b] by (auto intro: order_trans [OF less_imp_le])
qed simp_all

lemma most_probable_table:
  "most_probable p ins_types 0 INS_OTHER =
     (let k = p INS_KERNEL; i = p INS_INITRD; f = p INS_PARMFILE; z = p INS_INITRDSIZE; r = p INS_OTHER in
      if 0 < k \<and> i \<le> k \<and> f \<le> k \<and> z \<le> k \<and> r \<le> k then INS_KERNEL
      else if 0 < i \<and> k < i \<and> f \<le> i \<and> z \<le> i \<and> r \<le> i then INS_INITRD
      else if 0 < f \<and> k < f \<and> i < f \<and> z \<le> f \<and> r \<le> f then INS_PARMFILE
      else if 0 < z \<and> k < z \<and> i < z \<and> f < z \<and> r \<le> z then INS_INITRDSIZE
      else INS_OTHER)"
  by (simp add: ins_types_def Let_def)

subsection \<open>Lines\<close>

lemma ins_votes_table:
  "most_probable (ins_votes c addr) ins_types 0 INS_OTHER =
    (if 512 * 1024 < length c then
       if addr = 0 \<or> (\<not> gzip_signature c \<and> addr \<noteq> 0x00800000) then INS_KERNEL else INS_INITRD
     else if length c \<le> SYSLOAD_MAX_KERNEL_CMDLINE then
       if \<forall>x \<in> set c. isprint x then INS_PARMFILE
       else if addr = 0 then INS_KERNEL
       else if addr = 0x00800000 then INS_INITRD
       else if addr = 0x00010414 \<and> length c = 4 then INS_INITRDSIZE
       else INS_PARMFILE
     else if addr = 0 then INS_KERNEL
     else if addr = 0x00800000 then INS_INITRD
     else if addr = 0x00010480 then INS_PARMFILE
     else if addr = 0x00010414 then INS_INITRDSIZE
     else INS_OTHER)"
proof -
  consider "addr = 0" | "addr = 0x00800000" | "addr = 0x00010480" | "addr = 0x00010414"
    | "addr \<noteq> 0" "addr \<noteq> 0x00800000" "addr \<noteq> 0x00010480" "addr \<noteq> 0x00010414" by blast
  then show ?thesis
    by cases (simp_all add: most_probable_table ins_votes_def SYSLOAD_MAX_KERNEL_CMDLINE_def)
qed

lemma fgets_line_prefix: "\<exists>t. s = fgets_line n s @ t"
  by (auto simp: fgets_line_def Let_def take_take split: option.split)
    (metis append_take_drop_id)+

lemma concat_fgets_lines: "1 < n \<Longrightarrow> concat (fgets_lines n s) = s"
proof (induction n s rule: fgets_lines.induct)
  case (1 n s)
  show ?case
  proof (cases "s = []")
    case True
    then show ?thesis by (simp add: fgets_lines.simps)
  next
    case False
    obtain t where t: "s = fgets_line n s @ t" using fgets_line_prefix by blast
    have "concat (fgets_lines n s)
        = fgets_line n s @ concat (fgets_lines n (drop (length (fgets_line n s)) s))"
      using False 1(2) by (subst fgets_lines.simps) simp
    also have "\<dots> = fgets_line n s @ drop (length (fgets_line n s)) s"
      using 1 False by simp
    also have "\<dots> = s" by (metis t append_eq_conv_conj)
    finally show ?thesis .
  qed
qed

text \<open>
  An empty line is not skipped: the variables keep their values, and the component of the
  previous line is loaded once more.
\<close>

lemma scan_ins_line_blank: "scan_ins_line [nl] st = st"
  by (simp add: scan_ins_line_def nl_def isspace_def)

lemma nl_not_star: "nl \<noteq> CHR ''*''"
  by (simp add: nl_def)

lemma insfile_loop_blank:
  assumes "fst st \<noteq> []"
  shows "insfile_loop prog uri_path ([nl] # ls) st n tmp_msg =
    (let local_name = ''/tmp/file_'' @ printf_d (int (n + 1)) in
     abind (comp_load prog local_name (prefix_root uri_path (fst st))) (\<lambda>(rc, info, m).
          if rc \<noteq> 0
          then aret (Some (''Error loading insfile component '' @ in_quotes (fst st) @ '' - ''
                 @ str_arg (upd_out m tmp_msg)))
          else abind (identify_file local_name (snd st)) (\<lambda>t.
               abind (place_component local_name t) (\<lambda>_.
               insfile_loop prog uri_path ls st (n + 1) (upd_out m tmp_msg)))))"
  using assms nl_not_star by (simp add: scan_ins_line_blank Let_def cong: if_cong)

subsection \<open>The whole action\<close>

definition no_local_files :: "sys \<Rightarrow> bool" where
  "no_local_files s \<longleftrightarrow> file_at s SYSLOAD_FILENAME_KERNEL = None
     \<and> file_at s SYSLOAD_FILENAME_INITRD = None \<and> file_at s SYSLOAD_FILENAME_PARMFILE = None"

lemma insfile_cleanup_Done:
  "insfile_cleanup msg s = (Done m, t) \<longleftrightarrow> m = msg \<and> t = fs_set SYSLOAD_FILENAME_PARMFILE None
     (fs_set SYSLOAD_FILENAME_INITRD None (fs_set SYSLOAD_FILENAME_KERNEL None s))"
  by (auto simp: insfile_cleanup_def)

lemma insfile_cleanup_no_local: "insfile_cleanup msg s = (Done m, t) \<Longrightarrow> no_local_files t"
  by (auto simp: insfile_cleanup_Done no_local_files_def)

lemma insfile_boot_no_local_files:
  assumes "action_insfile_boot prog boot s = (Done m, t)"
  shows "no_local_files t"
  using assms
  by (auto simp: action_insfile_boot_def abind_Done_iff insfile_cleanup_no_local split: option.splits)

text \<open>
  When one of the three files is missing nothing is started, and the message is empty.
\<close>

lemma insfile_start_incomplete:
  assumes "file_at s SYSLOAD_FILENAME_KERNEL = None \<or> file_at s SYSLOAD_FILENAME_INITRD = None
    \<or> file_at s SYSLOAD_FILENAME_PARMFILE = None"
  shows "insfile_start prog cmd s = (Done [], s)"
  using assms by (auto simp: insfile_start_def)

end
