(* ===== verification/Loader.thy ===== *)
theory Loader
  imports Insfile
begin

section \<open>Boot actions (loader.c)\<close>

text \<open>
  The dispatch on the action of a boot entry and the handlers of the actions. A handler whose
  action succeeds does not return; the result of one that does is its error message.
\<close>

definition SYSLOAD_REBOOT_CMD :: string where "SYSLOAD_REBOOT_CMD = ''/sbin/reboot''"
definition SYSLOAD_HALT_CMD :: string where "SYSLOAD_HALT_CMD = ''/sbin/halt''"
definition SYSLOAD_SHELL_CMD :: string where "SYSLOAD_SHELL_CMD = ''/bin/sh''"

subsection \<open>Booting a kernel\<close>

text \<open>
  Loading one optional component: None when it is loaded or not specified. The message variable
  is shared by the calls; a module that writes no message leaves it as it is.
\<close>

definition load_optional ::
  "prog \<Rightarrow> string \<Rightarrow> string \<Rightarrow> cptr \<Rightarrow> string \<Rightarrow> cptr \<Rightarrow> (string option \<times> cptr) act" where
  "load_optional prog dest what rt uri tmp_msg =
     abind (comp_load prog dest (prefix_root rt uri)) (\<lambda>(rc, info, m).
       let tmp_msg = upd_out m tmp_msg in
       if rc \<noteq> 0 then aret (Some (''Error loading '' @ what @ '' - '' @ str_arg tmp_msg), tmp_msg)
       else aret (None, tmp_msg))"

definition c_strlen :: "cptr \<Rightarrow> nat act" where
  "c_strlen p = (case p of None \<Rightarrow> bad_act NullDeref | Some s \<Rightarrow> aret (length s))"

definition c_strcpy :: "cptr \<Rightarrow> string act" where
  "c_strcpy p = (case p of None \<Rightarrow> bad_act NullDeref | Some s \<Rightarrow> aret s)"

definition kernel_boot_body :: "prog \<Rightarrow> cfg_bentry \<Rightarrow> string act" where
  "kernel_boot_body prog boot =
     abind (c_strcpy (kernel boot)) (\<lambda>krn.
     if length krn = 0 then aret ''No kernel specified.''
     else abind (load_optional prog SYSLOAD_FILENAME_KERNEL ''kernel image'' (root boot) krn None)
       (\<lambda>(e, tmp_msg).
     case e of Some m \<Rightarrow> aret m | None \<Rightarrow>
     abind (c_strcpy (initrd boot)) (\<lambda>ird.
     abind (if 0 < length ird
            then load_optional prog SYSLOAD_FILENAME_INITRD ''initrd image'' (root boot) ird tmp_msg
            else aret (None, tmp_msg)) (\<lambda>(e, tmp_msg).
     case e of Some m \<Rightarrow> aret m | None \<Rightarrow>
     abind (c_strcpy (parmfile boot)) (\<lambda>parm.
     abind (if 0 < length parm
            then abind (load_optional prog SYSLOAD_FILENAME_PARMFILE ''parmfile'' (root boot) parm tmp_msg)
              (\<lambda>(e, tmp_msg).
                case e of Some m \<Rightarrow> aret (Inl m)
                | None \<Rightarrow> compose_commandline SYSLOAD_FILENAME_PARMFILE (cmdline boot))
            else abind (c_strcpy (cmdline boot)) (\<lambda>c. aret (Inr c))) (\<lambda>r.
     case r of Inl m \<Rightarrow> aret m | Inr cmd \<Rightarrow>
     kexec prog SYSLOAD_FILENAME_KERNEL (if length ird \<noteq> 0 then SYSLOAD_FILENAME_INITRD else []) cmd))))))"

definition action_kernel_boot :: "prog \<Rightarrow> cfg_bentry \<Rightarrow> string act" where
  "action_kernel_boot prog boot = abind (kernel_boot_body prog boot) insfile_cleanup"

subsection \<open>The other actions\<close>

definition action_bootmap_boot ::
  "(nat \<Rightarrow> byte) \<Rightarrow> kern \<Rightarrow> prog \<Rightarrow> cfg_bentry \<Rightarrow> string act" where
  "action_bootmap_boot heap kern prog boot =
     (case bootmap boot of
        None \<Rightarrow> bad_act NullDeref
      | Some uri \<Rightarrow>
          if starts_with uri ''dasd://'' then action_bootmap_boot_dasd heap kern prog boot uri
          else if starts_with uri ''zfcp://'' then action_bootmap_boot_zfcp heap kern prog boot uri
          else aret ''Unsupported bootmap URI scheme.'')"

definition action_reboot :: "prog \<Rightarrow> string act" where
  "action_reboot prog =
     abind (systemv prog [SYSLOAD_REBOOT_CMD]) (\<lambda>status.
       aret (''reboot command failed with return code '' @ printf_d status @ ''.''))"

definition action_halt :: "prog \<Rightarrow> string act" where
  "action_halt prog =
     abind (systemv prog [SYSLOAD_HALT_CMD]) (\<lambda>status.
       aret (''halt command failed with return code '' @ printf_d status @ ''.''))"

text \<open>
  \<^verbatim>\<open>cfg_system\<close>: the function \<^verbatim>\<open>system\<close> of the C library runs the command with a shell. Interrupts are
  ignored meanwhile; when no process can be created or its status is lost the result is -1.
\<close>

definition cfg_system :: "prog \<Rightarrow> string \<Rightarrow> int act" where
  "cfg_system prog cmd =
     abind (signal SIGINT SIG_IGN) (\<lambda>sigint.
     abind (signal SIGQUIT SIG_IGN) (\<lambda>sigquit.
     abind (run_prog prog [''/bin/sh'', ''-c'', cmd]) (\<lambda>p.
       if p = NoReturn then stop
       else
         abind (signal SIGINT sigint) (\<lambda>_.
         abind (signal SIGQUIT sigquit) (\<lambda>_.
         aret (case p of Exited rs status \<Rightarrow> status | _ \<Rightarrow> - 1))))))"

lemma restore_interrupts: "f(SIGINT := a, SIGQUIT := b, SIGINT := f SIGINT, SIGQUIT := f SIGQUIT) = f"
  by (rule ext) (case_tac x, simp_all)

lemma cfg_system_eq:
  "prog [''/bin/sh'', ''-c'', cmd] (sys_fs s) = (p, f) \<Longrightarrow> p \<noteq> NoReturn \<Longrightarrow>
   cfg_system prog cmd s = (Done (case p of Exited rs status \<Rightarrow> status | _ \<Rightarrow> - 1),
     s\<lparr>sys_fs := f, sys_trace := sys_trace s @ [[''/bin/sh'', ''-c'', cmd]]\<rparr>)"
  "prog [''/bin/sh'', ''-c'', cmd] (sys_fs s) = (NoReturn, f) \<Longrightarrow>
   cfg_system prog cmd s = (Stopped, s\<lparr>sys_fs := f, sys_trace := sys_trace s @ [[''/bin/sh'', ''-c'', cmd]],
     sys_sig := (sys_sig s)(SIGINT := SIG_IGN, SIGQUIT := SIG_IGN)\<rparr>)"
  by (simp_all add: cfg_system_def run_prog_eq restore_interrupts)

definition action_shell :: "prog \<Rightarrow> string act" where
  "action_shell prog =
     abind (cfg_system prog SYSLOAD_SHELL_CMD) (\<lambda>status.
       aret (''shell command returned with return code '' @ printf_d status @ ''.''))"

definition action_exit :: "string act" where
  "action_exit = stop"

definition loader :: "(nat \<Rightarrow> byte) \<Rightarrow> kern \<Rightarrow> prog \<Rightarrow> cfg_bentry \<Rightarrow> string act" where
  "loader heap kern prog boot =
     (case action boot of
        KERNEL_BOOT \<Rightarrow> action_kernel_boot prog boot
      | INSFILE_BOOT \<Rightarrow> action_insfile_boot prog boot
      | BOOTMAP_BOOT \<Rightarrow> action_bootmap_boot heap kern prog boot
      | REBOOT \<Rightarrow> action_reboot prog
      | HALT \<Rightarrow> action_halt prog
      | SHELL \<Rightarrow> action_shell prog
      | EXIT \<Rightarrow> action_exit
      | INVALID_ACTION i \<Rightarrow> aret (''Invalid boot action '' @ printf_d i @ '' selected.''))"

subsection \<open>What a kernel boot does\<close>

lemma kernel_boot_no_local_files:
  "action_kernel_boot prog boot s = (Done m, t) \<Longrightarrow> no_local_files t"
  by (auto simp: action_kernel_boot_def abind_Done_iff insfile_cleanup_no_local)

lemma load_optional_ok:
  "comp_load prog dest (prefix_root rt uri) s = (Done (0, i, m), t) \<Longrightarrow>
   load_optional prog dest what rt uri tm s = (Done (None, upd_out m tm), t)"
  by (simp add: load_optional_def)

lemma load_optional_fails:
  "comp_load prog dest (prefix_root rt uri) s = (Done (rc, i, m), t) \<Longrightarrow> rc \<noteq> 0 \<Longrightarrow>
   load_optional prog dest what rt uri tm s =
     (Done (Some (''Error loading '' @ what @ '' - '' @ str_arg (upd_out m tm)), upd_out m tm), t)"
  by (simp add: load_optional_def Let_def)

definition remove_local :: "sys \<Rightarrow> sys" where
  "remove_local s = fs_set SYSLOAD_FILENAME_PARMFILE None
     (fs_set SYSLOAD_FILENAME_INITRD None (fs_set SYSLOAD_FILENAME_KERNEL None s))"

lemma insfile_cleanup_eq: "insfile_cleanup m s = (Done m, remove_local s)"
  by (simp add: insfile_cleanup_def remove_local_def)

text \<open>
  A complete kernel boot: kernel, initrd and parameter file are loaded in this order to their
  local names, and the kernel is started with the contents of the parameter file, a space and the
  configured command line.
\<close>

lemma kernel_boot_kexec:
  assumes "kernel boot = Some krn" "krn \<noteq> []" "initrd boot = Some ird" "ird \<noteq> []"
      "parmfile boot = Some parm" "parm \<noteq> []" "cmdline boot = Some cmd"
    and k: "comp_load prog SYSLOAD_FILENAME_KERNEL (prefix_root (root boot) krn) s
        = (Done (0, i1, m1), s1)"
    and i: "comp_load prog SYSLOAD_FILENAME_INITRD (prefix_root (root boot) ird) s1
        = (Done (0, i2, m2), s2)"
    and p: "comp_load prog SYSLOAD_FILENAME_PARMFILE (prefix_root (root boot) parm) s2
        = (Done (0, i3, m3), s3)"
    and c: "compose_commandline SYSLOAD_FILENAME_PARMFILE (Some cmd) s3 = (Done (Inr l), s3)"
  shows "action_kernel_boot prog boot s =
    abind (kexec prog SYSLOAD_FILENAME_KERNEL SYSLOAD_FILENAME_INITRD l) insfile_cleanup s3"
  using assms(1-7) load_optional_ok [OF k] load_optional_ok [OF i] load_optional_ok [OF p] c
  by (simp add: action_kernel_boot_def kernel_boot_body_def c_strcpy_def abind_assoc)

text \<open>When the kernel cannot be loaded nothing else is loaded or started.\<close>

lemma kernel_boot_load_fails:
  assumes "kernel boot = Some krn" "krn \<noteq> []"
    and "comp_load prog SYSLOAD_FILENAME_KERNEL (prefix_root (root boot) krn) s
        = (Done (rc, i, m), t)" and "rc \<noteq> 0"
  shows "action_kernel_boot prog boot s =
    (Done (''Error loading kernel image - '' @ str_arg m), remove_local t)"
  using assms(1,2) load_optional_fails [OF assms(3,4)]
  by (cases m) (simp_all add: action_kernel_boot_def kernel_boot_body_def c_strcpy_def
      insfile_cleanup_eq upd_out_def)

end
