(* ===== verification/Samples.thy ===== *)
theory Samples
  imports Loader
begin

section \<open>Sample inputs\<close>

text \<open>
  The concrete configuration, disk and programs on which the properties with hypotheses are
  applied. The disk is a small FBA disk with blocks of 512 bytes that holds a complete boot map:

    block 0: boot record, points to block 1;
    block 1: program table, entry 0 points to block 2, entry 1 to this block itself;
    block 2: component table: kernel (block 3), stage 3 loader (block 4), execute;
    blocks 3 and 4: segment tables with one segment each, in blocks 5 and 6;
    block 5: the kernel; block 6: the stage 3 parameters, naming the kernel address.
\<close>

subsection \<open>A disk\<close>

text \<open>A packed FBA pointer to one block, and a block that starts with the given bytes.\<close>

definition fba_ptr :: "nat \<Rightarrow> byte list" where
  "fba_ptr n = [0, 0, 0, of_nat n, 2, 0, 0, 0]"

definition block :: "byte list \<Rightarrow> byte list" where
  "block bs = bs @ replicate (512 - length bs) 0"

definition mbr_block :: "byte list" where
  "mbr_block = MAGIC @ replicate 12 0 @ fba_ptr 1 @ replicate 486 0 @ [85, 170]"

definition program_block :: "byte list" where
  "program_block = block (MAGIC @ [0, 0, 0, 0] @ fba_ptr 2 @ fba_ptr 1)"

definition component_bytes :: "nat \<Rightarrow> byte \<Rightarrow> byte \<Rightarrow> byte list" where
  "component_bytes n t a = fba_ptr n @ replicate 15 0 @ [t] @ [0, 0, 0, 0, 0, a, 0, 0]"

definition component_block :: "byte list" where
  "component_block = block (MAGIC @ replicate 28 0 @ component_bytes 3 2 1 @ component_bytes 4 2 2
     @ component_bytes 0 1 3)"

definition stage3_block :: "byte list" where
  "stage3_block = block (replicate 24 0 @ [0, 0, 0, 0, 0, 1, 0, 0])"

definition sample_blocks :: "byte list list" where
  "sample_blocks = [mbr_block, program_block, component_block, block (fba_ptr 5), block (fba_ptr 6),
     block [202, 254], stage3_block]"

definition sample_fd :: "byte fd" where
  "sample_fd = \<lparr>fd_data = concat sample_blocks, fd_pos = 0, fd_max = 99, fd_bad = None\<rparr>"

definition sample_disk :: disk where
  "sample_disk = \<lparr>disk_fd = sample_fd, disk_type = disk_type_fba, phy_block_size = 512,
     phy_blocks = 7, geo = \<lparr>heads = 1, sectors = 7, cylinders = 1\<rparr>,
     program_table_ptr = mk_linear 1 512 0\<rparr>"

lemma length_block: "length bs \<le> 512 \<Longrightarrow> length (block bs) = 512"
  by (simp add: block_def)

lemma concat_take_drop:
  assumes "\<forall>x \<in> set xss. length x = n" and "i < length xss"
  shows "take n (drop (i * n) (concat xss)) = xss ! i"
  using assms
proof (induction xss arbitrary: i)
  case (Cons x xss)
  then show ?case by (cases i) (simp_all add: add.commute)
qed simp

lemma length_concat_blocks: "\<forall>x \<in> set xss. length x = n \<Longrightarrow> length (concat xss) = length xss * n"
  by (induction xss) auto

lemma sample_blocks_512: "\<forall>x \<in> set sample_blocks. length x = 512"
  by (simp add: sample_blocks_def mbr_block_def program_block_def component_block_def stage3_block_def length_block
      fba_ptr_def MAGIC_def component_bytes_def)

lemma sample_length: "length (fd_data sample_fd) = 3584"
  using length_concat_blocks [OF sample_blocks_512] by (simp add: sample_fd_def sample_blocks_def)

lemma sample_good: "disk_good sample_disk"
  by (simp add: disk_good_def disk_ok_def sample_disk_def fd_good_def sample_fd_def)

lemma sample_readable: "n < 7 \<Longrightarrow> readable sample_disk (mk_linear n 512 0)"
  using sample_length
  by (simp add: readable_def check_blockptr_def sample_disk_def blockptr_simps ptr_ok_def
      get_blockptr_blockct_def ptr_block_def ptr_count_def)

lemma sample_content: "n < 7 \<Longrightarrow> ptr_content sample_disk (mk_linear n 512 0) = sample_blocks ! n"
  using concat_take_drop [OF sample_blocks_512, of n]
  by (simp add: ptr_content_def ptr_count_def ptr_block_def sample_disk_def sample_fd_def
      get_blockptr_blockct_def blockptr_simps sample_blocks_def)

text \<open>Unpacking a pointer inside a block.\<close>

lemma sample_unpack:
  assumes "n < 256"
  shows "read_packed_blockptr sample_disk (fba_ptr n @ rest) = Inr (mk_linear n 512 0)"
proof -
  have "unat (of_nat n :: byte) = n" using assms by (simp add: unat_of_nat take_bit_nat_def)
  then show ?thesis
    by (simp add: read_packed_blockptr_def get_blockptr_size_def sample_disk_def fba_ptr_def field_def
        be_nat_def)
qed

lemma sample_ok: "disk_ok sample_disk" "get_blockptr_size sample_disk = 8"
    "phy_block_size sample_disk = 512" "disk_type sample_disk = disk_type_fba"
  using sample_good by (simp_all add: disk_good_def get_blockptr_size_def sample_disk_def)

lemma sample_slots: "seg_slots sample_disk (mk_linear n 512 0) = 64"
  by (simp add: seg_slots_def ptr_count_def get_blockptr_blockct_def sample_ok blockptr_simps)

lemma sample_null: "n < 4294967296 \<Longrightarrow> blockptr_is_null sample_disk (mk_linear n sz ct) \<longleftrightarrow> n = 0"
  by (simp add: blockptr_is_null_iff sample_ok mk_linear_def unat_eq_0 [symmetric] unat_of_nat
      take_bit_nat_def)

lemma replicate_8: "replicate 8 x = [x, x, x, x, x, x, x, x]"
  by (simp add: eval_nat_numeral)

lemma length_fba_ptr [simp]: "length (fba_ptr n) = 8"
  by (simp add: fba_ptr_def)

lemma sample_zero_entry:
  "read_packed_blockptr sample_disk (replicate 504 0) = Inr (mk_linear 0 0 0)"
proof -
  have "replicate 504 (0 :: byte) = [0, 0, 0, 0, 0, 0, 0, 0] @ replicate 496 0"
    using replicate_add [of 8 496 "0 :: byte"] by (simp add: replicate_8)
  then show ?thesis
    by (simp add: read_packed_blockptr_def get_blockptr_size_def sample_disk_def field_def be_nat_def)
qed

lemma sample_stores:
  assumes "n < 7" and "0 < k" and "k < 7" and "sample_blocks ! n = block (fba_ptr k)"
  shows "stores sample_disk (mk_linear n 512 0) [mk_linear k 512 0]"
proof -
  let ?p = "mk_linear n 512 0" and ?f = "seg_entry sample_disk (block (fba_ptr k))"
  have b: "block (fba_ptr k) = fba_ptr k @ replicate 504 0"
    by (simp add: block_def fba_ptr_def)
  have f0: "?f 0 = mk_linear k 512 0"
    using assms(3) by (simp add: seg_entry_def segment_entry_def b sample_unpack)
  have f1: "?f 1 = mk_linear 0 0 0"
    by (simp add: seg_entry_def segment_entry_def b sample_ok sample_zero_entry)
  have "[0..<64] = 0 # Suc 0 # [Suc (Suc 0)..<64]"
    by (subst upt_conv_Cons, simp, subst upt_conv_Cons, simp_all)
  then have "[0..<64] = [0, 1] @ [2..<64::nat]"
    by (simp only: append_Cons append_Nil One_nat_def Suc_1 [unfolded One_nat_def])
  then have "seg_table sample_disk ?p = [mk_linear k 512 0] @ mk_linear 0 0 0 # map ?f [2..<64]"
    by (simp add: seg_table_def sample_slots sample_content assms(1,4) f0 f1 [simplified]
        del: upt_rec_numeral)
  then show ?thesis
    using sample_readable [OF assms(1)] assms(2,3) by (auto intro!: stores_end simp: sample_null)
qed

subsection \<open>Its tables\<close>

lemma sample_kernel_component:
  "copy_component_to_memory sample_disk (mk_linear 3 512 0) = ret (block [202, 254])"
proof -
  have c: "ptr_content sample_disk (mk_linear 5 512 0) = block [202, 254]"
    using sample_content [of 5] by (simp add: sample_blocks_def)
  have st: "stores sample_disk (mk_linear 3 512 0) [mk_linear 5 512 0]"
    by (rule sample_stores) (simp_all add: sample_blocks_def)
  have "copy_component_to_memory sample_disk (mk_linear 3 512 0)
      = ret (segment_bytes sample_disk [mk_linear 5 512 0])"
    using sample_readable [of 5] c
    by (intro copy_component_stores [OF st _ sample_good]) (simp_all add: length_block)
  then show ?thesis by (simp add: c)
qed

lemma sample_stage3_component:
  "copy_component_to_memory sample_disk (mk_linear 4 512 0) = ret stage3_block"
proof -
  have c: "ptr_content sample_disk (mk_linear 6 512 0) = stage3_block"
    using sample_content [of 6] by (simp add: sample_blocks_def)
  have st: "stores sample_disk (mk_linear 4 512 0) [mk_linear 6 512 0]"
    by (rule sample_stores) (simp_all add: sample_blocks_def)
  have "copy_component_to_memory sample_disk (mk_linear 4 512 0)
      = ret (segment_bytes sample_disk [mk_linear 6 512 0])"
    using sample_readable [of 6] c
    by (intro copy_component_stores [OF st _ sample_good])
      (simp_all add: length_block stage3_block_def)
  then show ?thesis by (simp add: c)
qed

definition sample_programs :: "disk_blockptr list" where
  "sample_programs = map (seg_entry sample_disk program_block) [1..<64]"

lemma sample_program_content:
  "readable sample_disk (program_table_ptr sample_disk)"
  "ptr_content sample_disk (program_table_ptr sample_disk) = program_block"
  "get_blockptr_blockct sample_disk (program_table_ptr sample_disk) = 0"
  "take MAGIC_LENGTH program_block = MAGIC" "nat (512 div get_blockptr_size sample_disk) = 64"
proof -
  show "readable sample_disk (program_table_ptr sample_disk)"
    using sample_readable [of 1] by (simp add: sample_disk_def)
  show "ptr_content sample_disk (program_table_ptr sample_disk) = program_block"
    using sample_content [of 1] by (simp add: sample_disk_def sample_blocks_def)
  show "get_blockptr_blockct sample_disk (program_table_ptr sample_disk) = 0"
    by (simp add: sample_disk_def get_blockptr_blockct_def blockptr_simps)
qed (simp_all add: program_block_def block_def MAGIC_def MAGIC_LENGTH_def sample_ok)

lemma sample_program_table: "get_program_table sample_disk = ret sample_programs"
  unfolding get_program_table_readable [OF sample_good sample_program_content(1)] sample_program_content
    sample_programs_def
  by simp

lemma sample_program_0: "sample_programs ! 0 = mk_linear 2 512 0"
proof -
  have "drop 8 program_block = fba_ptr 2 @ fba_ptr 1 @ replicate 488 0"
    by (simp add: program_block_def block_def MAGIC_def)
  then have "seg_entry sample_disk program_block 1 = mk_linear 2 512 0"
    by (simp add: seg_entry_def segment_entry_def sample_ok sample_unpack)
  then show ?thesis by (simp add: sample_programs_def)
qed

lemma sample_program_1: "sample_programs ! 1 = mk_linear 1 512 0"
proof -
  have "drop 16 program_block = fba_ptr 1 @ replicate 488 0"
    by (simp add: program_block_def block_def MAGIC_def)
  then have "seg_entry sample_disk program_block (Suc 1) = mk_linear 1 512 0"
    by (simp add: seg_entry_def segment_entry_def sample_ok sample_unpack)
  then show ?thesis by (simp add: sample_programs_def)
qed

definition sample_components :: "(nat \<Rightarrow> byte) \<Rightarrow> component list" where
  "sample_components heap =
     map (\<lambda>k. decode_component sample_disk (component_entry component_block heap (k + 1))) [0..<63]"

text \<open>Program 0 has a component table; its conversion overruns the heap block.\<close>

lemma sample_component_content:
  "ptr_content sample_disk (mk_linear 2 512 0) = component_block"
  "take MAGIC_LENGTH component_block = MAGIC" "get_blockptr_blockct sample_disk (mk_linear 2 512 0) = 0"
  using sample_content [of 2]
  by (simp_all add: sample_blocks_def component_block_def block_def MAGIC_def MAGIC_LENGTH_def
      get_blockptr_blockct_def sample_ok blockptr_simps)

lemma length_component_bytes [simp]: "length (component_bytes n t a) = 32"
  by (simp add: component_bytes_def)

lemma decode_sample:
  assumes "n < 7"
  shows "decode_component sample_disk (component_bytes n t a)
    = \<lparr>segment_ptr = mk_linear n 512 0, comp_type = unat t, address = unat a * 65536\<rparr>"
proof -
  have "seg_entry sample_disk (component_bytes n t a) 0 = mk_linear n 512 0"
    using assms by (simp add: seg_entry_def segment_entry_def component_bytes_def sample_unpack)
  then show ?thesis
    by (simp add: decode_component_def component_bytes_def field_def be_nat_def fba_ptr_def)
qed

lemma sample_entry:
  "component_entry component_block heap 1 = component_bytes 3 2 1"
  "component_entry component_block heap 2 = component_bytes 4 2 2"
  "component_entry component_block heap 3 = component_bytes 0 1 3"
proof -
  have l: "length component_block = 512"
    by (simp add: component_block_def length_block MAGIC_def)
  have b: "component_block = (MAGIC @ replicate 28 0) @ component_bytes 3 2 1 @ component_bytes 4 2 2
     @ component_bytes 0 1 3 @ replicate 384 0"
    by (simp add: component_block_def block_def MAGIC_def)
  have m: "length (MAGIC @ replicate 28 (0 :: byte)) = 32" by (simp add: MAGIC_def)
  show "component_entry component_block heap 1 = component_bytes 3 2 1"
    "component_entry component_block heap 2 = component_bytes 4 2 2"
    "component_entry component_block heap 3 = component_bytes 0 1 3"
    by (simp_all add: component_entry_in l component_entry_size_def b MAGIC_def)
qed

definition sample_objects :: boot_objects where
  "sample_objects = no_objects\<lparr>bo_kernel := mk_linear 3 512 0\<rparr>"

text \<open>
  The identification finds the kernel; an address 0 matches no component, so there is no initrd
  and no parameter file. The entries behind the block do not matter.
\<close>

definition sample_entries :: "component list" where
  "sample_entries =
     [\<lparr>segment_ptr = mk_linear 3 512 0, comp_type = 2, address = 65536\<rparr>,
      \<lparr>segment_ptr = mk_linear 4 512 0, comp_type = 2, address = 131072\<rparr>,
      \<lparr>segment_ptr = mk_linear 0 512 0, comp_type = 1, address = 196608\<rparr>]"

lemma sample_components_take: "take 3 (sample_components heap) = sample_entries"
proof -
  have "[0..<63] = 0 # Suc 0 # Suc (Suc 0) # [Suc (Suc (Suc 0))..<63]"
    by (subst upt_conv_Cons, simp, subst upt_conv_Cons, simp, subst upt_conv_Cons, simp_all)
  then show ?thesis
    by (simp add: sample_components_def sample_entries_def sample_entry
        sample_entry(1) [unfolded One_nat_def] decode_sample numeral_2_eq_2 [symmetric]
        numeral_3_eq_3 [symmetric] del: upt_rec_numeral)
qed

lemma sample_execute:
  "find_index (\<lambda>c. comp_type c = component_execute) (take 3 (sample_components heap)) = Some (Suc 1)"
  unfolding sample_components_take by (simp add: component_execute_def sample_entries_def)

lemma sample_identify:
  "identify_boot_objects sample_disk (sample_components heap) = ret (None, sample_objects)"
proof -
  have s: "field 24 8 stage3_block = 65536" "field 16 8 stage3_block = 0" "field 8 8 stage3_block = 0"
      "field 0 8 stage3_block = 0" "length stage3_block = 512"
    by (simp_all add: stage3_block_def block_def field_def be_nat_def replicate_8)
  have "PSW_DISABLED_WAIT \<noteq> 196608" "65536 mod (PSW_ADDRESS_MASK + 1) = 65536"
    by (simp_all add: PSW_DISABLED_WAIT_def PSW_ADDRESS_MASK_def)
  then show ?thesis
    unfolding identify_boot_objects_prefix [OF sample_execute]
    unfolding identify_boot_objects_def sample_execute
    unfolding sample_components_take sample_entries_def
    using sample_stage3_component
    by (simp add: s find_address_def sample_objects_def Let_def ret_def)
qed

lemma sample_holds: "holds sample_disk sample_objects (block [202, 254]) None None"
  by (simp add: holds_def sample_objects_def no_objects_def sample_kernel_component blockptr_zero_def
      blockptr_is_null_iff sample_ok)

subsection \<open>Configuration and programs\<close>

definition sample_bentry :: cfg_bentry where
  "sample_bentry = cfg_bentry_init\<lparr>title := Some ''Linux'', root := Some ''ftp://host/'',
     kernel := Some ''image'', initrd := Some ''initrd'', parmfile := Some ''parmfile'',
     cmdline := Some ''ro'', action := KERNEL_BOOT\<rparr>"

definition sample_plain :: cfg_bentry where
  "sample_plain = sample_bentry\<lparr>parmfile := Some [], cmdline := Some ''ro''\<rparr>"

definition sample_config :: cfg_toplevel where
  "sample_config = cfg_init\<lparr>boot_default := 0, timeout := 10, bentry_list := [sample_bentry],
     bentry_count := 1\<rparr>"

text \<open>
  Loader modules that succeed and store a text, a \<^verbatim>\<open>kexec\<close> that loads and then switches to the
  new kernel.
\<close>

definition sample_prog :: prog where
  "sample_prog argv f =
     (case argv of
        [m, dest, uri] \<Rightarrow>
          (Exited [(Some ''copied'', None), (Some [], Some [])] 0,
           f\<lparr>files := (files f)(dest := Some ''x'')\<rparr>)
      | _ \<Rightarrow> if argv = kexec_exec_argv then (NoReturn, f)
             else (Exited [(Some [], Some [])] 0, f))"

definition sample_sys :: sys where
  "sample_sys = \<lparr>sys_fs = \<lparr>files = (\<lambda>_. None), creat_err = (\<lambda>_. None), open_err = (\<lambda>_. None),
       close_fails = (\<lambda>_. False), fs_errno = [], capacity = 100000, chunk = 64, bad = (\<lambda>_. None),
       nodes = (\<lambda>_. None), devices = (\<lambda>_. Inl ENOENT)\<rparr>,
     sys_env = [], sys_sig = (\<lambda>_. Handler 1), sys_trace = [], sys_stderr = [], sys_stores = [], sys_arg0 = ''sysload''\<rparr>"

lemma sample_config_wf: "cfg_wf sample_config" "cfg_ints sample_config" "bentry_wf sample_bentry"
  by (simp_all add: cfg_wf_def cfg_ints_def sample_config_def sample_bentry_def bentry_wf_def cfg_init_def
      cfg_bentry_init_def cfg_strinit_def bentry_ints_def action_wf_def bentry_zero_def)

subsection \<open>Loading with the sample modules\<close>

definition sample_uri :: "string \<Rightarrow> string" where
  "sample_uri uri = ''ftp://host/'' @ uri"

definition sample_load :: "string \<Rightarrow> string \<Rightarrow> sys \<Rightarrow> sys" where
  "sample_load dest uri s =
     s\<lparr>sys_fs := (sys_fs s)\<lparr>files := (files (sys_fs s))(dest := Some ''x'')\<rparr>,
       sys_trace := sys_trace s @ [[''/usr/sysload/cl/cl_ftp'', dest, sample_uri uri]]\<rparr>"

lemma sample_absolute: "absolute (sample_uri uri)"
  unfolding absolute_def sample_uri_def
  by (rule exI [of _ "''ftp''"], rule exI [of _ "''//host/'' @ uri"])
    (simp add: isalpha_c_def scheme_char_def ctype_defs)

lemma sample_comp_load:
  assumes "sys_env s = []"
  shows "comp_load sample_prog dest (sample_uri uri) s
    = (Done (0, Some ''copied'', None), sample_load dest uri s)"
proof -
  have m: "module_argv s dest (sample_uri uri)
      = [''/usr/sysload/cl/cl_ftp'', dest, sample_uri uri]"
    using assms by (simp add: module_argv_def module_path_def base_path_def CFG_DEFAULTPATH_def
        COMP_LOAD_MODULE_PATH_def strchr_def sample_uri_def)
  show ?thesis
    using comp_load_Exited [OF sample_absolute, of sample_prog s dest uri
        "[(Some ''copied'', None), (Some [], Some [])]" 0] 
    by (simp add: m sample_prog_def stream_ends_def stream_text_def stream_pieces_def
        List.map_filter_simps exited_ok_def non_empty_def sample_load_def)
qed

lemma sample_load_simps [simp]:
  "sys_env (sample_load d u s) = sys_env s"
  "file_at (sample_load d u s) p = (if p = d then Some ''x'' else file_at s p)"
  "open_err (sys_fs (sample_load d u s)) = open_err (sys_fs s)"
  "bad (sys_fs (sample_load d u s)) = bad (sys_fs s)"
  by (simp_all add: sample_load_def file_at_def)

lemma sample_sys_simps [simp]:
  "sys_env sample_sys = []" "open_err (sys_fs sample_sys) p = None" "bad (sys_fs sample_sys) p = None"
  by (simp_all add: sample_sys_def)

lemma sample_relative:
  "prefix_root (Some ''ftp://host/'') ''image'' = sample_uri ''image''"
  "prefix_root (Some ''ftp://host/'') ''initrd'' = sample_uri ''initrd''"
  "prefix_root (Some ''ftp://host/'') ''parmfile'' = sample_uri ''parmfile''"
  by (simp_all add: prefix_root_def strchr_def str_arg_def sample_uri_def)

lemma sample_kexec:
  assumes "ird \<noteq> []" and "cmd \<noteq> []"
  shows "fst (kexec sample_prog krn ird cmd s) = Stopped"
proof -
  have "sample_prog (kexec_load_argv krn ird cmd) (sys_fs s)
      = (Exited [(Some [], Some [])] 0, sys_fs s)"
    using assms by (simp add: sample_prog_def kexec_load_argv_def kexec_exec_argv_def)
  then have "systemv sample_prog (kexec_load_argv krn ird cmd) s = (Done 0,
      s\<lparr>sys_fs := sys_fs s, sys_trace := sys_trace s @ [kexec_load_argv krn ird cmd]\<rparr>)"
    by (rule systemv_eq(1))
  moreover have "fst (systemv sample_prog kexec_exec_argv t) = Stopped" for t
    by (subst systemv_eq(4)) (simp_all add: sample_prog_def kexec_exec_argv_def)
  ultimately show ?thesis
    by (simp add: kexec_def abind_fst_Stopped)
qed

end
