(* ===== verification/SampleDevices.thy ===== *)
theory SampleDevices
  imports Samples
begin

section \<open>Sample devices\<close>

text \<open>
  A machine with one DASD, bus identifier 0.0.1234, that holds the sample disk: writing into its
  attribute \<^verbatim>\<open>online\<close> makes the file with the device numbers 94:0 appear.
\<close>

definition sample_busid :: string where
  "sample_busid = ''0.0.1234''"

definition sample_block_path :: string where
  "sample_block_path = SYS_PATH_DASD @ ''/'' @ sample_busid @ ''/block:dasda/dev''"

definition sample_kern :: kern where
  "sample_kern =
     \<lparr>store = (\<lambda>path data f. (True, f\<lparr>files :=
        (files f)(path := Some (data @ [nl]), sample_block_path := Some (''94:1'' @ [nl]))\<rparr>)),
      glob = (\<lambda>pattern f. map_option (\<lambda>_. sample_block_path) (files f sample_block_path)),
      listdir = (\<lambda>_ _. None), mknod_err = (\<lambda>_. None)\<rparr>"

definition sample_device :: device where
  "sample_device =
     \<lparr>dev_fd = sample_fd, dev_geo = Some \<lparr>heads = 1, sectors = 7, cylinders = 1\<rparr>,
      dev_dasd = Some (''FBA '', 0), dev_blksz = Some 512, dev_size = Some 7, dev_errno = []\<rparr>"

definition sample_dasd_sys :: "(string + device) \<Rightarrow> sys" where
  "sample_dasd_sys opened = sample_sys\<lparr>sys_fs := (sys_fs sample_sys)
     \<lparr>files := (\<lambda>_. None)(SYS_PATH_DASD @ ''/'' @ sample_busid := Some []),
      devices := (\<lambda>_. opened)\<rparr>\<rparr>"

lemma read_into_good:
  assumes "fd_good fd"
  shows "read_into fd n = (True, take n (fd_rest fd))"
proof -
  obtain bs t where "cfg_read posix_read fd n = (RdOk bs, t)"
    using cfg_read_good [OF assms] by blast
  with fds.cfg_read_takes [OF this] show ?thesis by (simp add: read_into_def)
qed

lemma disk_read_program_table [simp]:
  "disk_read_phy_blocks (d\<lparr>program_table_ptr := q\<rparr>) p = disk_read_phy_blocks d p"
proof -
  have "block_extent (d\<lparr>program_table_ptr := q\<rparr>) p = block_extent d p"
    by (simp add: block_extent_def chs_offset_def)
  moreover have "check_blockptr (d\<lparr>program_table_ptr := q\<rparr>) p = check_blockptr d p"
    by (cases "disk_type d") (simp_all add: check_blockptr_def)
  ultimately show ?thesis by (simp add: disk_read_phy_blocks_def cong: if_cong)
qed

lemma sample_disk_open: "disk_open (Inr sample_device) = ret sample_disk"
proof -
  let ?d = "sample_disk\<lparr>program_table_ptr := blockptr_zero\<rparr>"
  have d: "\<lparr>disk_fd = sample_fd, disk_type = disk_type_fba, phy_block_size = 512, phy_blocks = 7,
      geo = \<lparr>heads = 1, sectors = 7, cylinders = 1\<rparr>, program_table_ptr = blockptr_zero\<rparr> = ?d"
    by (simp add: sample_disk_def)
  have b: "disk_read_phy_blocks sample_disk (mk_linear 0 512 0) = ret mbr_block"
    using disk_read_readable [OF sample_good sample_readable [of 0]] sample_content [of 0]
    by (simp add: sample_blocks_def)
  have n: "mbr_block ! 510 = 85" "mbr_block ! 511 = 170" "length mbr_block = 512"
      "take MAGIC_LENGTH mbr_block = MAGIC"
      "drop 16 mbr_block = fba_ptr 1 @ replicate 486 0 @ [85, 170]"
    by (simp_all add: mbr_block_def MAGIC_def MAGIC_LENGTH_def nth_append fba_ptr_def)
  have p: "read_packed_blockptr ?d (fba_ptr 1 @ w) = Inr (mk_linear 1 512 0)" for w
    using sample_unpack [of 1 w] by (simp add: read_packed_blockptr_def get_blockptr_size_def sample_disk_def)
  have "read_boot_record ?d = ret sample_disk"
    using b n p by (simp add: read_boot_record_def disk_read_scsi_mbr_def sample_ok)
      (simp add: sample_disk_def)
  moreover have "check_blockptr sample_disk (mk_linear 1 512 0) = 0"
    using sample_readable [of 1] by (simp add: readable_def)
  moreover have "get_blockptr_blockct sample_disk (mk_linear 1 512 0) = 0"
    by (simp add: get_blockptr_blockct_def sample_ok blockptr_simps)
  ultimately show ?thesis
    using d
    by (simp add: disk_open_def sample_device_def dasd_disk_type_def strncmp_eq_def c_div_def
        Let_def sample_disk_def)
qed

lemma sample_scan:
  "sscanf_i (''1'' @ [nl]) = Inr (Some 1)" "sscanf_is 2 (''94:1'' @ [nl]) = Inr [94, 1]"
  by (simp_all add: sscanf_i_def scan_i_def scan_i_digits_def scan_sign_def nl_def isspace_def
      isdigit_def base_val_def xdigit_val_def c_int_def int32_def numeral_2_eq_2)

lemma sample_paths:
  "sample_block_path \<noteq> SYS_PATH_DASD @ ''/'' @ sample_busid"
  "sample_block_path \<noteq> SYS_PATH_DASD @ ''/'' @ sample_busid @ ''/online''"
  by (simp_all add: sample_block_path_def sample_busid_def)

lemma sample_set_dasd_online:
  "\<exists>t. set_dasd_online sample_kern sample_busid (sample_dasd_sys opened)
      = (Done (Inr (dasd_node sample_busid)), t)
    \<and> nodes (sys_fs t) (dasd_node sample_busid) = Some (94, 1) \<and> devices (sys_fs t) = (\<lambda>_. opened)"
proof -
  let ?on = "SYS_PATH_DASD @ ''/'' @ sample_busid @ ''/online''"
  let ?s = "sample_dasd_sys opened"
  obtain f where st: "store sample_kern ?on ''1'' (sys_fs ?s) = (True, f)"
    and f: "files f ?on = Some (''1'' @ [nl])" "files f sample_block_path = Some (''94:1'' @ [nl])"
      "open_err f = (\<lambda>_. None)" "bad f = (\<lambda>_. None)" "chunk f = 64" "devices f = (\<lambda>_. opened)"
    using sample_paths
    by (simp add: sample_kern_def sample_dasd_sys_def sample_sys_def)
  let ?t = "?s\<lparr>sys_fs := f, sys_stores := sys_stores ?s @ [(?on, ''1'')]\<rparr>"
  have "fd_good \<lparr>fd_data = c, fd_pos = 0, fd_max = 64, fd_bad = None\<rparr>" for c
    by (simp add: fd_good_def)
  note r = read_into_good [OF this]
  have n: "nl \<noteq> CHR 0x00" by (simp add: nl_def)
  have e: "echo_and_test sample_kern (Some ?on) (Some ''1'') (Some ?on) ?s = (Done 1, ?t)"
    using st f r sample_scan(1) n
    by (simp add: echo_and_test_def store_attr_def open_file_def file_at_def fd_rest_def cstr_def
        sscanf_i_def abind_def split: prod.splits)
  have g: "cfg_glob_filename sample_kern p 50 ?t = (Done (Some sample_block_path), ?t)" for p
    using f by (simp add: cfg_glob_filename_def sample_kern_def sample_block_path_def
        SYS_PATH_DASD_def sample_busid_def)
  have b: "read_node_numbers w sample_block_path ?t = (Done (Inr (94, 1)), ?t)" for w
    using f r sample_scan(2) n
    by (simp add: read_node_numbers_def open_file_def file_at_def fd_rest_def cstr_def)
  have x: "exists_file (SYS_PATH_DASD @ ''/'' @ sample_busid) ?s = (Done True, ?s)"
    by (simp add: sample_dasd_sys_def file_at_def)
  have m: "mknod_err sample_kern p = None" for p by (simp add: sample_kern_def)
  show ?thesis
    using e g b x f m
    by (simp add: set_dasd_online_def make_node_def mknod_def abind_def set_node_def fs_set_def Let_def)
qed

lemma busid_classes_list:
  "busid_classes = [isxdigit, \<lambda>c. c = CHR ''.'', isxdigit, \<lambda>c. c = CHR ''.'', isxdigit, isxdigit,
     isxdigit, isxdigit]"
  by (simp add: busid_classes_def lit_def numeral_eq_Suc)

lemma sample_dasd_uri: "n < 100 \<Longrightarrow>
    dasd_uri (''dasd://('' @ sample_busid @ '','' @ dec n @ '')'') = Inr (Some (sample_busid, int n))"
  by (subst dasd_uri_dec) (simp_all add: sample_busid_def busid_classes_list isxdigit_def
      isdigit_def tolower_def isupper_def)

end
