(* ===== verification/FcpCleanup.thy ===== *)
theory FcpCleanup
  imports BootActions
begin

section \<open>Setting an FCP disk offline\<close>

text \<open>
  What is left of an FCP attached disk after a boot that returns: the SCSI device is deleted, the
  unit, the port and the channel are removed in this order, and the node is gone.
\<close>

text \<open>The SCSI device the search finds, among the entries of the directory.\<close>

definition scsi_found :: "kern \<Rightarrow> string \<Rightarrow> string \<Rightarrow> string \<Rightarrow> sys \<Rightarrow> int list option" where
  "scsi_found kern busid wwpn lun s =
     (case listdir kern SYS_PATH_SCSI (sys_fs s) of
        None \<Rightarrow> None
      | Some ds \<Rightarrow> map_option (\<lambda>i. scsi_numbers (ds ! i))
          (find_index (\<lambda>d. scsi_match s busid wwpn lun d \<and> length (scsi_numbers d) = 4) ds))"

text \<open>No name of the directory holds a number that \<^verbatim>\<open>int\<close> cannot.\<close>

definition scsi_names_ok :: "kern \<Rightarrow> sys \<Rightarrow> bool" where
  "scsi_names_ok kern s \<longleftrightarrow>
     (case listdir kern SYS_PATH_SCSI (sys_fs s) of
        None \<Rightarrow> True | Some ds \<Rightarrow> \<forall>d \<in> set ds. \<exists>ns. sscanf_is 4 d = Inr ns)"

lemma find_scsi_device_eq:
  "scsi_names_ok kern s \<Longrightarrow>
   find_scsi_device kern busid wwpn lun s = (Done (scsi_found kern busid wwpn lun s), s)"
  by (auto simp: find_scsi_device_def scsi_found_def scsi_names_ok_def find_scsi_loop_eq split: option.splits)

definition scsi_delete :: "int list \<Rightarrow> string \<times> string" where
  "scsi_delete ns = (SYS_PATH_SCSI @ ''/'' @ scsi_name ns @ ''/delete'', ''1'')"

definition fcp_teardown :: "string \<Rightarrow> string \<Rightarrow> string \<Rightarrow> int list option \<Rightarrow> (string \<times> string) list" where
  "fcp_teardown busid wwpn lun found =
     (let syspath = SYS_PATH_FCP @ ''/'' @ busid in
      (case found of None \<Rightarrow> [] | Some ns \<Rightarrow> [scsi_delete ns])
      @ [(syspath @ ''/'' @ wwpn @ ''/unit_remove'', lun), (syspath @ ''/port_remove'', wwpn),
         (syspath @ ''/online'', ''0'')])"

lemma delete_scsi_device_stores:
  assumes "scsi_names_ok kern s"
  shows "\<exists>rc t. delete_scsi_device kern busid wwpn lun s = (Done rc, t)
    \<and> sys_stores t = sys_stores s @ (case scsi_found kern busid wwpn lun s of None \<Rightarrow> [] | Some ns \<Rightarrow> [scsi_delete ns])"
proof (cases "scsi_found kern busid wwpn lun s")
  case None
  then show ?thesis using find_scsi_device_eq [OF assms] by (simp add: delete_scsi_device_def)
next
  case (Some ns)
  then show ?thesis
    using find_scsi_device_eq [OF assms, of busid wwpn lun]
      echo_only_Done [of "fst (scsi_delete ns)" "snd (scsi_delete ns)" kern s]
    by (auto simp: delete_scsi_device_def scsi_delete_def)
qed

lemma set_fcp_disk_offline_stores:
  assumes "scsi_names_ok kern s" and "wwpn \<noteq> []" and "lun \<noteq> []"
  shows "\<exists>rc t. set_fcp_disk_offline kern busid wwpn lun s = (Done rc, t)
    \<and> nodes (sys_fs t) (fcp_node busid wwpn lun) = None
    \<and> sys_stores t = sys_stores s @ fcp_teardown busid wwpn lun (scsi_found kern busid wwpn lun s)"
proof -
  let ?p = "SYS_PATH_FCP @ ''/'' @ busid"
  let ?e = "\<lambda>a d. echo_and_test kern (Some a) (Some d) None"
  obtain r0 s0 where 0: "delete_scsi_device kern busid wwpn lun s = (Done r0, s0)"
    "sys_stores s0 = sys_stores s
       @ (case scsi_found kern busid wwpn lun s of None \<Rightarrow> [] | Some ns \<Rightarrow> [scsi_delete ns])"
    using delete_scsi_device_stores [OF assms(1)] by blast
  obtain r1 s1 where 1: "?e (?p @ ''/'' @ wwpn @ ''/unit_remove'') lun s0 = (Done r1, s1)"
    "sys_stores s1 = sys_stores s0 @ [(?p @ ''/'' @ wwpn @ ''/unit_remove'', lun)]"
    using echo_only_Done [of "?p @ ''/'' @ wwpn @ ''/unit_remove''" lun kern s0] assms(3) by auto
  obtain r2 s2 where 2: "?e (?p @ ''/port_remove'') wwpn s1 = (Done r2, s2)"
    "sys_stores s2 = sys_stores s1 @ [(?p @ ''/port_remove'', wwpn)]"
    using echo_only_Done [of "?p @ ''/port_remove''" wwpn kern s1] assms(2) by auto
  obtain r3 s3 where 3: "?e (?p @ ''/online'') ''0'' s2 = (Done r3, s3)"
    "sys_stores s3 = sys_stores s2 @ [(?p @ ''/online'', ''0'')]"
    using echo_only_Done [of "?p @ ''/online''" "''0''" kern s2] by auto
  show ?thesis
    using 0 1 2 3 by (simp add: set_fcp_disk_offline_def Let_def fcp_teardown_def)
qed

text \<open>A boot from an FCP disk that comes back.\<close>

lemma zfcp_boot_cleans_up:
  assumes "zfcp_uri uri = Inr (Some (busid, wwpn, lun, n))"
    and "set_fcp_disk_online kern busid wwpn lun s = (Done (Inr dev), s1)"
    and "open_disk_node dev s1 = (Done (Inr disk), s2)"
    and "boot_bootmap_disk heap prog boot disk n s2 = (Done m, t)"
    and "scsi_names_ok kern t"
  shows "\<exists>u. action_bootmap_boot_zfcp heap kern prog boot uri s = (Done m, u)
    \<and> nodes (sys_fs u) (fcp_node busid wwpn lun) = None
    \<and> sys_stores u = sys_stores t @ fcp_teardown busid wwpn lun (scsi_found kern busid wwpn lun t)"
proof -
  obtain w l where "matches hex64_classes w" "matches hex64_classes l"
    "wwpn = map tolower (drop 1 w)" "lun = map tolower (drop 1 l)"
    using zfcp_uri_cases [of uri] assms(1) by auto
  then have "length wwpn = 18" "length lun = 18" using hex64_length by simp_all
  then have "wwpn \<noteq> []" "lun \<noteq> []" by auto
  from set_fcp_disk_offline_stores [OF assms(5) this] obtain rc u where
    "set_fcp_disk_offline kern busid wwpn lun t = (Done rc, u)"
    "nodes (sys_fs u) (fcp_node busid wwpn lun) = None"
    "sys_stores u = sys_stores t @ fcp_teardown busid wwpn lun (scsi_found kern busid wwpn lun t)" by blast
  then show ?thesis using assms(1-4) by (simp add: action_bootmap_boot_zfcp_def)
qed

end
