(* ===== verification/SampleFcp.thy ===== *)
theory SampleFcp
  imports SampleDevices FcpCleanup
begin

section \<open>A sample FCP disk\<close>

text \<open>
  A machine with one FCP channel that is online, with its port and unit configured and the sample
  disk behind them.
\<close>

definition sample_wwpn :: string where "sample_wwpn = ''0x500507630300c562''"
definition sample_lun :: string where "sample_lun = ''0x401040a200000000''"
definition sample_fcp_path :: string where "sample_fcp_path = SYS_PATH_FCP @ ''/'' @ sample_busid"
definition sample_scsi_path :: string where "sample_scsi_path = SYS_PATH_SCSI @ ''/0:0:1:0''"

definition sample_fcp_kern :: kern where
  "sample_fcp_kern =
     \<lparr>store = (\<lambda>path data f. (True, f)), glob = (\<lambda>pattern f. Some (sample_scsi_path @ ''/block:sda/dev'')),
      listdir = (\<lambda>_ _. Some [''.'', ''..'', ''0:0:1:0'']), mknod_err = (\<lambda>_. None)\<rparr>"

definition sample_fcp_files :: "(string \<times> string) list" where
  "sample_fcp_files =
     [(sample_fcp_path, []), (sample_fcp_path @ ''/online'', ''1'' @ [nl]),
      (sample_fcp_path @ ''/'' @ sample_wwpn, []), (sample_fcp_path @ ''/'' @ sample_wwpn @ ''/'' @ sample_lun, []),
      (sample_scsi_path @ ''/hba_id'', sample_busid @ [nl]), (sample_scsi_path @ ''/wwpn'', sample_wwpn @ [nl]),
      (sample_scsi_path @ ''/fcp_lun'', sample_lun @ [nl]), (sample_scsi_path @ ''/block:sda/dev'', ''8:0'' @ [nl])]"

definition sample_fcp_sys :: sys where
  "sample_fcp_sys = sample_sys\<lparr>sys_fs := (sys_fs sample_sys)
     \<lparr>files := map_of sample_fcp_files, devices := (\<lambda>_. Inr sample_device)\<rparr>\<rparr>"

lemma sample_zfcp_uri:
  "zfcp_uri ''zfcp://(0.0.1234,0x500507630300c562,0x401040a200000000,63)''
    = Inr (Some (sample_busid, sample_wwpn, sample_lun, 63))"
  by code_simp

lemmas fcp_paths = sample_fcp_path_def sample_scsi_path_def SYS_PATH_FCP_def SYS_PATH_SCSI_def
  sample_busid_def sample_wwpn_def sample_lun_def

lemma sample_fcp_files:
  "map_of sample_fcp_files sample_fcp_path = Some []"
  "map_of sample_fcp_files (sample_fcp_path @ ''/online'') = Some (''1'' @ [nl])"
  "map_of sample_fcp_files (sample_fcp_path @ ''/'' @ sample_wwpn) = Some []"
  "map_of sample_fcp_files (sample_fcp_path @ ''/'' @ sample_wwpn @ ''/'' @ sample_lun) = Some []"
  "map_of sample_fcp_files (sample_scsi_path @ ''/hba_id'') = Some (sample_busid @ [nl])"
  "map_of sample_fcp_files (sample_scsi_path @ ''/wwpn'') = Some (sample_wwpn @ [nl])"
  "map_of sample_fcp_files (sample_scsi_path @ ''/fcp_lun'') = Some (sample_lun @ [nl])"
  "map_of sample_fcp_files (sample_scsi_path @ ''/block:sda/dev'') = Some (''8:0'' @ [nl])"
  by code_simp+

text \<open>Reading a file of a machine without errors.\<close>

definition sound :: "sys \<Rightarrow> bool" where
  "sound s \<longleftrightarrow> open_err (sys_fs s) = (\<lambda>_. None) \<and> bad (sys_fs s) = (\<lambda>_. None) \<and> chunk (sys_fs s) = 64"

lemma sound_read_file:
  assumes "sound s" and "file_at s path = Some (c @ [nl])" and "length c + 1 < n" and "CHR 0x00 \<notin> set c"
  shows "read_file path n s = (Done (Some c), s)"
proof -
  let ?fd = "\<lparr>fd_data = c @ [nl], fd_pos = 0, fd_max = 64, fd_bad = None\<rparr>"
  have "fd_good ?fd" by (simp add: fd_good_def)
  then have "read_into ?fd (n - 1) = (True, c @ [nl])"
    using assms(3) by (simp add: read_into_good fd_rest_def)
  then show ?thesis
    using assms(1,2,4) by (simp add: read_file_def open_file_def sound_def)
qed

definition fcp_state :: "sys \<Rightarrow> bool" where
  "fcp_state s \<longleftrightarrow> sound s \<and> files (sys_fs s) = map_of sample_fcp_files"

lemma fcp_file: "fcp_state s \<Longrightarrow> map_of sample_fcp_files p = Some c \<Longrightarrow> file_at s p = Some c"
  by (simp add: fcp_state_def file_at_def)

lemma fcp_no_nul: "CHR 0x00 \<notin> set sample_busid" "CHR 0x00 \<notin> set sample_wwpn" "CHR 0x00 \<notin> set sample_lun"
  "length sample_busid < 19" "length sample_wwpn < 19" "length sample_lun < 19"
  by (simp_all add: sample_busid_def sample_wwpn_def sample_lun_def)

lemma sample_attr:
  assumes "fcp_state s"
  shows "attr_value s ''0:0:1:0'' ''hba_id'' = Some sample_busid"
    and "attr_value s ''0:0:1:0'' ''wwpn'' = Some sample_wwpn"
    and "attr_value s ''0:0:1:0'' ''fcp_lun'' = Some sample_lun"
proof -
  have s: "sound s" using assms by (simp add: fcp_state_def)
  show "attr_value s ''0:0:1:0'' ''hba_id'' = Some sample_busid"
    using sound_read_file [OF s, of "sample_scsi_path @ ''/hba_id''" sample_busid 20]
      fcp_file [OF assms sample_fcp_files(5)] fcp_no_nul by (simp add: attr_value_def sample_scsi_path_def)
  show "attr_value s ''0:0:1:0'' ''wwpn'' = Some sample_wwpn"
    using sound_read_file [OF s, of "sample_scsi_path @ ''/wwpn''" sample_wwpn 20]
      fcp_file [OF assms sample_fcp_files(6)] fcp_no_nul by (simp add: attr_value_def sample_scsi_path_def)
  show "attr_value s ''0:0:1:0'' ''fcp_lun'' = Some sample_lun"
    using sound_read_file [OF s, of "sample_scsi_path @ ''/fcp_lun''" sample_lun 20]
      fcp_file [OF assms sample_fcp_files(7)] fcp_no_nul by (simp add: attr_value_def sample_scsi_path_def)
qed

lemma sample_numbers: "sscanf_is 4 ''0:0:1:0'' = Inr [0, 0, 1, 0]" "sscanf_is 4 ''.'' = Inr []"
  "sscanf_is 4 ''..'' = Inr []" "sscanf_is 2 (''8:0'' @ [nl]) = Inr [8, 0]" "sscanf_i (''1'' @ [nl]) = Inr (Some 1)"
  by code_simp+

lemma sample_names_ok: "scsi_names_ok sample_fcp_kern s"
  by (simp add: scsi_names_ok_def sample_fcp_kern_def sample_numbers)

lemma sample_scsi_found:
  assumes "fcp_state s"
  shows "scsi_found sample_fcp_kern sample_busid sample_wwpn sample_lun s = Some [0, 0, 1, 0]"
  using sample_attr [OF assms]
  by (simp add: scsi_found_def sample_fcp_kern_def scsi_match_def scsi_numbers_def sample_numbers)

lemma sample_scsi_name: "SYS_PATH_SCSI @ ''/'' @ scsi_name [0, 0, 1, 0] = sample_scsi_path"
  by code_simp

lemma sample_fcp_online:
  "\<exists>t. set_fcp_disk_online sample_fcp_kern sample_busid sample_wwpn sample_lun sample_fcp_sys
      = (Done (Inr (fcp_node sample_busid sample_wwpn sample_lun)), t)
    \<and> fcp_state t \<and> nodes (sys_fs t) (fcp_node sample_busid sample_wwpn sample_lun) = Some (8, 0)
    \<and> devices (sys_fs t) = (\<lambda>_. Inr sample_device)
    \<and> sys_stores t = [(sample_fcp_path @ ''/online'', ''1'')]"
proof -
  let ?s = "sample_fcp_sys" and ?on = "sample_fcp_path @ ''/online''"
  define t where "t = ?s\<lparr>sys_stores := [(?on, ''1'')]\<rparr>"
  have st: "fcp_state ?s" "fcp_state t" "sys_stores t = [(?on, ''1'')]" "devices (sys_fs t) = (\<lambda>_. Inr sample_device)"
    by (simp_all add: fcp_state_def sound_def sample_fcp_sys_def sample_sys_def t_def)
  then have f: "open_err (sys_fs t) = (\<lambda>_. None)" "bad (sys_fs t) = (\<lambda>_. None)" "chunk (sys_fs t) = 64"
    by (simp_all add: fcp_state_def sound_def)
  have good: "fd_good \<lparr>fd_data = c, fd_pos = 0, fd_max = 64, fd_bad = None\<rparr>" for c
    by (simp add: fd_good_def)
  note r = read_into_good [OF this]
  have n: "nl \<noteq> CHR 0x00" by (simp add: nl_def)
  have p: "SYS_PATH_FCP @ ''/'' @ sample_busid @ x = sample_fcp_path @ x" for x
    by (simp add: sample_fcp_path_def)
  have stored: "store_attr sample_fcp_kern ?on ''1'' ?s = (Done True, t)"
    by (simp add: store_attr_def sample_fcp_kern_def t_def sample_fcp_sys_def sample_sys_def)
  have e: "echo_and_test sample_fcp_kern (Some ?on) (Some ''1'') (Some ?on) ?s = (Done 1, t)"
    using stored f r fcp_file [OF st(2) sample_fcp_files(2)] sample_numbers(5) n
    by (simp add: echo_and_test_def open_file_def fd_rest_def)
  have c: "configure sample_fcp_kern path echo data t = (Done True, t)" if "map_of sample_fcp_files path \<noteq> None"
    for path echo data
    using fcp_file [OF st(2)] that by (auto simp: configure_def)
  note d = find_scsi_device_eq [OF sample_names_ok, of sample_busid sample_wwpn sample_lun t,
    unfolded sample_scsi_found [OF st(2)]]
  have g: "cfg_glob_filename sample_fcp_kern x 50 t = (Done (Some (sample_scsi_path @ ''/block:sda/dev'')), t)" for x
    by (simp add: cfg_glob_filename_def sample_fcp_kern_def fcp_paths)
  have b: "read_node_numbers w (sample_scsi_path @ ''/block:sda/dev'') t = (Done (Inr (8, 0)), t)" for w
    using f r fcp_file [OF st(2) sample_fcp_files(8)] sample_numbers(4) n
    by (simp add: read_node_numbers_def open_file_def fd_rest_def)
  let ?dev = "fcp_node sample_busid sample_wwpn sample_lun"
  define u where "u = set_node ?dev (Some (8, 0)) (set_node ?dev None (fs_set ?dev None t))"
  have m: "make_node sample_fcp_kern w ?dev (8, 0) t = (Done (Inr ?dev), u)" for w
    by (simp add: make_node_def mknod_def sample_fcp_kern_def u_def abind_def)
  have "map_of sample_fcp_files ?dev = None"
    by code_simp
  then have "fcp_state u"
    using st(2) by (auto simp: u_def fcp_state_def sound_def set_node_def fs_set_def)
  moreover have "set_fcp_disk_online sample_fcp_kern sample_busid sample_wwpn sample_lun ?s = (Done (Inr ?dev), u)"
    using fcp_file [OF st(1) sample_fcp_files(1)] e c d g b m sample_fcp_files
    by (simp add: set_fcp_disk_online_def Let_def p [of "[]", simplified] p abind_def)
  moreover have "nodes (sys_fs u) ?dev = Some (8, 0)" "devices (sys_fs u) = (\<lambda>_. Inr sample_device)"
    "sys_stores u = [(?on, ''1'')]"
    using st by (simp_all add: u_def set_node_def fs_set_def)
  ultimately show ?thesis by blast
qed

end
