(* ===== verification/Netbase.thy ===== *)
theory Netbase
  imports Loader
begin

section \<open>Kernel modules, DHCP and the network\<close>

text \<open>
  Models \<^verbatim>\<open>core/modbase.c\<close>, \<^verbatim>\<open>core/dhcp_request.c\<close> and \<^verbatim>\<open>core/netbase.c\<close>. Pointers to strings
  are \<open>cptr\<close>; a program that is started is a call of the parameter \<open>prog\<close>, recorded in the trace.
\<close>

subsection \<open>Kernel modules\<close>

record mb_conf =
  mb_name :: cptr
  mb_param :: cptr
  mb_kernelversion :: cptr

definition mb_conf_init :: mb_conf where
  "mb_conf_init = \<lparr>mb_name = cfg_strinit, mb_param = cfg_strinit, mb_kernelversion = cfg_strinit\<rparr>"

definition mb_conf_new :: mb_conf where
  "mb_conf_new = mb_conf_init"

definition mb_conf_destroy :: "mb_conf \<Rightarrow> mb_conf" where
  "mb_conf_destroy m =
     m\<lparr>mb_name := cfg_strfree (mb_name m), mb_param := cfg_strfree (mb_param m),
       mb_kernelversion := cfg_strfree (mb_kernelversion m)\<rparr>"

definition mb_conf_reset :: "mb_conf \<Rightarrow> mb_conf" where
  "mb_conf_reset m = (let m = mb_conf_destroy m in mb_conf_init)"

definition mb_conf_print :: "mb_conf \<Rightarrow> string" where
  "mb_conf_print m =
     ''mb_conf:'' @ [nl] @ ''  name='' @ str_arg (mb_name m) @ [nl]
     @ ''  param='' @ str_arg (mb_param m) @ [nl]
     @ ''  kernelversion='' @ str_arg (mb_kernelversion m) @ [nl]"

definition mb_conf_load :: "prog \<Rightarrow> mb_conf \<Rightarrow> unit act" where
  "mb_conf_load prog m =
     abind (cfg_system prog (''/sbin/modprobe '' @ str_arg (mb_name m) @ '' '' @ str_arg (mb_param m)))
       (\<lambda>_. aret ())"

subsection \<open>The DHCP client\<close>

text \<open>
  \<^verbatim>\<open>dns\<close> is a NULL terminated vector of strings, or NULL; the other members are strings or NULL.
\<close>

record dhcp_request =
  dh_ipaddr :: cptr
  dh_netmask :: cptr
  dh_network :: cptr
  dh_broadcast :: cptr
  dh_gateway :: cptr
  dh_domain :: cptr
  dh_dns :: "string list option"
  dh_dhcpsid :: cptr
  dh_dhcpgiaddr :: cptr
  dh_dhcpsiaddr :: cptr
  dh_dhcpchaddr :: cptr
  dh_dhcpshaddr :: cptr
  dh_dhcpsname :: cptr
  dh_leasetime :: int
  dh_renewaltime :: int
  dh_rebindtime :: int
  dh_interface :: cptr
  dh_classid :: cptr
  dh_clientid :: cptr

definition dhcp_req_init :: dhcp_request where
  "dhcp_req_init =
     \<lparr>dh_ipaddr = None, dh_netmask = None, dh_network = None, dh_broadcast = None,
      dh_gateway = None, dh_domain = None, dh_dns = None, dh_dhcpsid = None, dh_dhcpgiaddr = None,
      dh_dhcpsiaddr = None, dh_dhcpchaddr = None, dh_dhcpshaddr = None, dh_dhcpsname = None,
      dh_leasetime = 0, dh_renewaltime = 0, dh_rebindtime = 0, dh_interface = None,
      dh_classid = None, dh_clientid = None\<rparr>"

text \<open>\<^verbatim>\<open>atol\<close>: a value that \<^verbatim>\<open>long\<close> (64 bits on this machine) cannot represent is undefined.\<close>

definition atol :: "string \<Rightarrow> int c_res" where
  "atol s =
     (let (sg, t) = scan_sign (dropWhile isspace s);
          v = sg * int (dec_val (takeWhile isdigit t))
      in if - (2 ^ 63) \<le> v \<and> v < 2 ^ 63 then Inr v else Inl SignedOverflow)"

text \<open>The entries of a comma separated list, as the loop over \<^verbatim>\<open>index(t_ptr, ',')\<close> splits it.\<close>

fun split_list :: "string \<Rightarrow> string list" where
  "split_list [] = [[]]"
| "split_list (c # s) =
     (if c = CHR '','' then [] # split_list s
      else (case split_list s of [] \<Rightarrow> [[c]] | e # es \<Rightarrow> (c # e) # es))"

text \<open>
  One line of the file written by \<^verbatim>\<open>dhcpcd\<close>. Its last character is removed; the key is compared
  with \<^verbatim>\<open>strncmp\<close> over its own length, so a prefix of a keyword selects the first keyword it is a
  prefix of. A line without \<^verbatim>\<open>=\<close> makes \<^verbatim>\<open>index\<close> return NULL.
\<close>

definition dhcp_line :: "string \<Rightarrow> dhcp_request \<Rightarrow> dhcp_request c_res" where
  "dhcp_line input d =
     (let line = cstr input in
      if line = [] then Inl OutOfBounds
      else let line = butlast line in
      (case strchr line CHR ''='' of
         None \<Rightarrow> Inl NullDeref
       | Some len \<Rightarrow>
          let t = drop (len + 1) line; key = (\<lambda>k. strncmp_eq line k len) in
          if key ''IPADDR'' then Inr (d\<lparr>dh_ipaddr := Some t\<rparr>)
          else if key ''NETMASK'' then Inr (d\<lparr>dh_netmask := Some t\<rparr>)
          else if key ''NETWORK'' then Inr (d\<lparr>dh_network := Some t\<rparr>)
          else if key ''BROADCAST'' then Inr (d\<lparr>dh_broadcast := Some t\<rparr>)
          else if key ''GATEWAY'' then Inr (d\<lparr>dh_gateway := Some t\<rparr>)
          else if key ''DOMAIN'' then Inr (d\<lparr>dh_domain := Some t\<rparr>)
          else if key ''DNS'' then
            Inr (d\<lparr>dh_dns := Some ((case dh_dns d of None \<Rightarrow> [] | Some ds \<Rightarrow> ds) @ split_list t)\<rparr>)
          else if key ''DHCPSID'' then Inr (d\<lparr>dh_dhcpsid := Some t\<rparr>)
          else if key ''DHCPGIADDR'' then Inr (d\<lparr>dh_dhcpgiaddr := Some t\<rparr>)
          else if key ''DHCPSIADDR'' then Inr (d\<lparr>dh_dhcpsiaddr := Some t\<rparr>)
          else if key ''DHCPCHADDR'' then Inr (d\<lparr>dh_dhcpchaddr := Some t\<rparr>)
          else if key ''DHCPSHADDR'' then Inr (d\<lparr>dh_dhcpshaddr := Some t\<rparr>)
          else if key ''DHCPSNAME'' then Inr (d\<lparr>dh_dhcpsname := Some t\<rparr>)
          else if key ''LEASETIME'' then ebind (atol t) (\<lambda>v. Inr (d\<lparr>dh_leasetime := v\<rparr>))
          else if key ''RENEWALTIME'' then ebind (atol t) (\<lambda>v. Inr (d\<lparr>dh_renewaltime := v\<rparr>))
          else if key ''REBINDTIME'' then ebind (atol t) (\<lambda>v. Inr (d\<lparr>dh_rebindtime := v\<rparr>))
          else if key ''INTERFACE'' then Inr (d\<lparr>dh_interface := Some t\<rparr>)
          else if key ''CLASSID'' then Inr (d\<lparr>dh_classid := Some t\<rparr>)
          else if key ''CLIENTID'' then Inr (d\<lparr>dh_clientid := Some t\<rparr>)
          else Inr d))"

definition DHCP_CMD :: string where "DHCP_CMD = ''/sbin/dhcpcd''"
definition DHCP_TEMP_DIR :: string where "DHCP_TEMP_DIR = ''/tmp/''"
definition DHCP_MAX_RETRIES :: nat where "DHCP_MAX_RETRIES = 5"

definition dhcp_command :: "cptr \<Rightarrow> int \<Rightarrow> string" where
  "dhcp_command interface t =
     DHCP_CMD @ '' -T -t '' @ printf_d t @ '' -NYRG -L '' @ DHCP_TEMP_DIR @ '' -c /bin/true ''
     @ str_arg interface"

definition dhcpcd :: "prog \<Rightarrow> cptr \<Rightarrow> dhcp_request \<Rightarrow> int \<Rightarrow> dhcp_request option act" where
  "dhcpcd prog interface dhcp t =
     abind (cfg_system prog (dhcp_command interface t)) (\<lambda>status.
     if status \<noteq> 0 then aret None
     else
       let temp_name = DHCP_TEMP_DIR @ ''/dhcpcd-'' @ str_arg interface @ ''.info'' in
       abind (fopen temp_name) (\<lambda>f.
         case f of
           None \<Rightarrow> aret None
         | Some content \<Rightarrow>
             abind (unlink temp_name) (\<lambda>_.
             abind (lift_res (efold dhcp_line (fgets_lines CFG_STR_MAX_LEN content) dhcp))
               (\<lambda>d. aret (Some d)))))"

subsection \<open>Network configurations\<close>

datatype nb_mode = NB_STATIC | NB_DHCP

record nb_conf =
  nb_mode :: nb_mode
  nb_interface :: cptr
  nb_address :: cptr
  nb_mask :: cptr
  nb_gateway :: cptr
  nb_nameserver :: cptr
  nb_domain :: cptr

definition nb_conf_init :: nb_conf where
  "nb_conf_init =
     \<lparr>nb_mode = NB_STATIC, nb_interface = cfg_strinit, nb_address = cfg_strinit,
      nb_mask = cfg_strinit, nb_gateway = cfg_strinit, nb_nameserver = cfg_strinit,
      nb_domain = cfg_strinit\<rparr>"

definition nb_conf_new :: nb_conf where
  "nb_conf_new = nb_conf_init"

definition nb_conf_destroy :: "nb_conf \<Rightarrow> nb_conf" where
  "nb_conf_destroy n =
     n\<lparr>nb_interface := cfg_strfree (nb_interface n), nb_address := cfg_strfree (nb_address n),
       nb_mask := cfg_strfree (nb_mask n), nb_gateway := cfg_strfree (nb_gateway n),
       nb_nameserver := cfg_strfree (nb_nameserver n), nb_domain := cfg_strfree (nb_domain n)\<rparr>"

definition nb_conf_reset :: "nb_conf \<Rightarrow> nb_conf" where
  "nb_conf_reset n = (let n = nb_conf_destroy n in nb_conf_init)"

text \<open>The debug output; the line of the domain prints the name server.\<close>

definition nb_conf_print :: "nb_conf \<Rightarrow> string" where
  "nb_conf_print n =
     ''setup network {'' @ [nl] @ ''  mode ''
     @ (case nb_mode n of NB_STATIC \<Rightarrow> ''static'' | NB_DHCP \<Rightarrow> ''dhcp'') @ [nl]
     @ ''  interface '' @ str_arg (nb_interface n) @ [nl]
     @ ''  address '' @ str_arg (nb_address n) @ [nl]
     @ ''  mask '' @ str_arg (nb_mask n) @ [nl]
     @ ''  gateway '' @ str_arg (nb_gateway n) @ [nl]
     @ ''  nameserver '' @ str_arg (nb_nameserver n) @ [nl]
     @ ''  domain '' @ str_arg (nb_nameserver n) @ [nl] @ ''}'' @ [nl]"

definition copy_lease :: "nb_conf \<Rightarrow> dhcp_request \<Rightarrow> nb_conf c_res" where
  "copy_lease n d =
     ebind (cfg_strcpy (nb_address n) (dh_ipaddr d)) (\<lambda>x. let n = n\<lparr>nb_address := x\<rparr> in
     ebind (cfg_strcpy (nb_mask n) (dh_netmask d)) (\<lambda>x. let n = n\<lparr>nb_mask := x\<rparr> in
     ebind (cfg_strcpy (nb_gateway n) (dh_gateway d)) (\<lambda>x. let n = n\<lparr>nb_gateway := x\<rparr> in
     ebind (case dh_dns d of None \<Rightarrow> Inl NullDeref
         | Some ds \<Rightarrow> cfg_strcpy (nb_nameserver n) (case ds of [] \<Rightarrow> None | s # _ \<Rightarrow> Some s))
       (\<lambda>x. let n = n\<lparr>nb_nameserver := x\<rparr> in
     ebind (cfg_strcpy (nb_domain n) (dh_domain d)) (\<lambda>x. Inr (n\<lparr>nb_domain := x\<rparr>))))))"

text \<open>The loop over the requests; the time allowed doubles with every failed one.\<close>

function dhcp_loop :: "prog \<Rightarrow> nb_conf \<Rightarrow> int \<Rightarrow> nat \<Rightarrow> nb_conf act" where
  "dhcp_loop prog n t retries =
     abind (dhcpcd prog (nb_interface n) dhcp_req_init t) (\<lambda>r.
       case r of
         Some d \<Rightarrow> lift_res (copy_lease n d)
       | None \<Rightarrow>
           abind (lift_res (c_int (t * 2))) (\<lambda>t.
           if retries + 1 \<le> DHCP_MAX_RETRIES then dhcp_loop prog n t (retries + 1)
           else aret n))"
  by pat_completeness auto
termination
  by (relation "measure (\<lambda>(_, _, _, retries). Suc DHCP_MAX_RETRIES - retries)") auto

declare dhcp_loop.simps [simp del]

definition append_line :: "string \<Rightarrow> string \<Rightarrow> cptr \<Rightarrow> unit act" where
  "append_line path what v =
     abind (c_strlen v) (\<lambda>k.
       if 0 < k then abind (write_file path (what @ '' '' @ str_arg v @ [nl])) (\<lambda>_. aret ())
       else aret ())"

definition RESOLV_CONF :: string where "RESOLV_CONF = ''/etc/resolv.conf''"

text \<open>\<^verbatim>\<open>fopen\<close> with mode \<^verbatim>\<open>a+\<close> creates a missing file.\<close>

definition fopen_append :: "string \<Rightarrow> bool act" where
  "fopen_append path =
     abind (query (\<lambda>s. (file_at s path, open_err (sys_fs s) path))) (\<lambda>(f, e).
       case e of Some _ \<Rightarrow> aret False
       | None \<Rightarrow>
          (case f of Some _ \<Rightarrow> aret True
           | None \<Rightarrow> abind (creat path) (\<lambda>c. aret (c = None))))"

definition nb_conf_enable :: "prog \<Rightarrow> nb_conf \<Rightarrow> nb_conf act" where
  "nb_conf_enable prog n =
     abind (if nb_mode n = NB_DHCP then dhcp_loop prog n 10 0 else aret n) (\<lambda>n.
     abind (fopen_append RESOLV_CONF) (\<lambda>ok.
     abind (if ok then
              abind (append_line RESOLV_CONF ''domain'' (nb_domain n)) (\<lambda>_.
              append_line RESOLV_CONF ''nameserver'' (nb_nameserver n))
            else aret ()) (\<lambda>_.
     abind (cfg_system prog ''ifconfig lo 127.0.0.1'') (\<lambda>_.
     abind (c_strlen (nb_interface n)) (\<lambda>i.
     abind (if i = 0 then aret 0 else c_strlen (nb_address n)) (\<lambda>a.
     if i = 0 \<or> a = 0
     then abind (eprint_arg0 ('':invalid network interface or address'' @ [nl])) (\<lambda>_. aret n)
     else abind (c_strlen (nb_mask n)) (\<lambda>m.
       let n = (if m = 0 then n\<lparr>nb_mask := Some ''255.255.255.0''\<rparr> else n) in
       abind (cfg_system prog (''ifconfig '' @ str_arg (nb_interface n) @ '' ''
         @ str_arg (nb_address n) @ '' netmask '' @ str_arg (nb_mask n) @ '' up'')) (\<lambda>_.
       abind (c_strlen (nb_gateway n)) (\<lambda>g.
       if 0 < g
       then abind (cfg_system prog (''route add default gw '' @ str_arg (nb_gateway n))) (\<lambda>_. aret n)
       else aret n)))))))))"

subsection \<open>The test for a hardware address\<close>

text \<open>
  The interfaces of the machine are a parameter: whether a socket can be opened, the list of
  \<^verbatim>\<open>if_nameindex\<close> (index and name), the hardware address that \<^verbatim>\<open>ioctl\<close> reports, and the byte
  order. The loop tests the first byte of the index for the end of the list.
\<close>

record netifs =
  socket_ok :: bool
  if_list :: "(nat \<times> string) list option"
  hwaddr :: "string \<Rightarrow> byte list option"
  big_endian :: bool

definition first_byte :: "bool \<Rightarrow> nat \<Rightarrow> nat" where
  "first_byte be i = (if be then i div 16777216 mod 256 else i mod 256)"

definition hex_digit :: "nat \<Rightarrow> char" where
  "hex_digit d = (if d < 10 then char_of (48 + d) else char_of (87 + d))"

definition hex_byte :: "byte \<Rightarrow> string" where
  "hex_byte b = [hex_digit (unat b div 16), hex_digit (unat b mod 16)]"

fun mac_string :: "byte list \<Rightarrow> string" where
  "mac_string [] = []"
| "mac_string [b] = hex_byte b"
| "mac_string (b # bs) = hex_byte b @ '':'' @ mac_string bs"

fun test_mac_loop :: "netifs \<Rightarrow> string \<Rightarrow> (nat \<times> string) list \<Rightarrow> bool" where
  "test_mac_loop net macaddr [] = False"
| "test_mac_loop net macaddr ((i, name) # ifs) =
     (if first_byte (big_endian net) i = 0 then False
      else (case hwaddr net name of
          None \<Rightarrow> test_mac_loop net macaddr ifs
        | Some a \<Rightarrow>
            if mac_string (take 6 a) = macaddr then True else test_mac_loop net macaddr ifs))"

definition nb_test_mac :: "netifs \<Rightarrow> string \<Rightarrow> bool" where
  "nb_test_mac net macaddr =
     (if \<not> socket_ok net then False
      else (case if_list net of None \<Rightarrow> False | Some ifs \<Rightarrow> test_mac_loop net macaddr ifs))"

subsection \<open>What the network code does\<close>

text \<open>Programs that run to their end, whatever their status.\<close>

definition exits :: "prog \<Rightarrow> bool" where
  "exits prog \<longleftrightarrow> (\<forall>argv f. \<exists>rs st g. prog argv f = (Exited rs st, g))"

definition sh_argv :: "string \<Rightarrow> string list" where
  "sh_argv cmd = [''/bin/sh'', ''-c'', cmd]"

lemma cfg_system_Exited:
  assumes "prog (sh_argv cmd) (sys_fs s) = (Exited rs st, f)"
  shows "cfg_system prog cmd s =
    (Done st, s\<lparr>sys_fs := f, sys_trace := sys_trace s @ [sh_argv cmd]\<rparr>)"
  using assms cfg_system_eq(1) [of prog cmd s "Exited rs st" f] by (simp add: sh_argv_def)

lemma cfg_system_exits:
  assumes "exits prog"
  obtains st t where "cfg_system prog cmd s = (Done st, t)"
    and "sys_trace t = sys_trace s @ [sh_argv cmd]"
proof -
  obtain rs st f where "prog (sh_argv cmd) (sys_fs s) = (Exited rs st, f)"
    using assms unfolding exits_def by blast
  from cfg_system_Exited [where prog = prog, OF this] show ?thesis by (intro that) auto
qed

text \<open>A DHCP server that does not answer: every call of the client fails.\<close>

definition no_lease :: "prog \<Rightarrow> cptr \<Rightarrow> bool" where
  "no_lease prog interface \<longleftrightarrow>
     (\<forall>t f. \<exists>rs st g. prog (sh_argv (dhcp_command interface t)) f = (Exited rs st, g) \<and> st \<noteq> 0)"

lemma dhcpcd_fails:
  assumes "no_lease prog i"
  obtains u where "dhcpcd prog i d t s = (Done None, u)"
    and "sys_trace u = sys_trace s @ [sh_argv (dhcp_command i t)]"
proof -
  obtain rs st f where p: "prog (sh_argv (dhcp_command i t)) (sys_fs s) = (Exited rs st, f)"
    and "st \<noteq> 0"
    using assms unfolding no_lease_def by blast
  with cfg_system_Exited [where prog = prog, OF p] show ?thesis
    by (intro that) (auto simp: dhcpcd_def)
qed

lemma dhcp_loop_fails:
  assumes "no_lease prog (nb_interface n)" and "0 \<le> t" and "t * 2 ^ Suc k < 2147483648"
    and "r + k = DHCP_MAX_RETRIES"
  shows "\<exists>u. dhcp_loop prog n t r s = (Done n, u) \<and> sys_trace u = sys_trace s
     @ map (\<lambda>j. sh_argv (dhcp_command (nb_interface n) (t * 2 ^ j))) [0..<Suc k]"
  using assms(2-4)
proof (induction k arbitrary: t r s)
  case 0
  obtain u where u: "dhcpcd prog (nb_interface n) dhcp_req_init t s = (Done None, u)"
    "sys_trace u = sys_trace s @ [sh_argv (dhcp_command (nb_interface n) t)]"
    using dhcpcd_fails [OF assms(1)] by blast
  moreover have "c_int (t * 2) = Inr (t * 2)" using 0 by (simp add: c_int_def int32_def)
  ultimately show ?case using 0 by (subst dhcp_loop.simps) simp
next
  case (Suc k)
  obtain u where u: "dhcpcd prog (nb_interface n) dhcp_req_init t s = (Done None, u)"
    "sys_trace u = sys_trace s @ [sh_argv (dhcp_command (nb_interface n) t)]"
    using dhcpcd_fails [OF assms(1)] by blast
  have p: "(1 :: int) \<le> 2 ^ k" by simp
  have "(2 :: int) \<le> 2 ^ Suc (Suc k)" using p unfolding power_Suc by linarith
  then have "t * 2 \<le> t * 2 ^ Suc (Suc k)"
    using Suc.prems(1) by (rule mult_left_mono)
  then have c: "c_int (t * 2) = Inr (t * 2)"
    using Suc.prems by (simp add: c_int_def int32_def)
  have "\<exists>v. dhcp_loop prog n (t * 2) (r + 1) u = (Done n, v) \<and> sys_trace v = sys_trace u
     @ map (\<lambda>j. sh_argv (dhcp_command (nb_interface n) (t * 2 * 2 ^ j))) [0..<Suc k]"
    using Suc.prems by (intro Suc.IH) (simp_all add: mult.assoc)
  then obtain v where v: "dhcp_loop prog n (t * 2) (r + 1) u = (Done n, v)"
    "sys_trace v = sys_trace u
     @ map (\<lambda>j. sh_argv (dhcp_command (nb_interface n) (t * 2 * 2 ^ j))) [0..<Suc k]" by blast
  have "map (\<lambda>j. sh_argv (dhcp_command (nb_interface n) (t * 2 ^ j))) [0..<Suc (Suc k)]
    = sh_argv (dhcp_command (nb_interface n) t)
      # map (\<lambda>j. sh_argv (dhcp_command (nb_interface n) (t * 2 * 2 ^ j))) [0..<Suc k]"
    by (subst upt_conv_Cons) (simp_all add: map_Suc_upt [symmetric] mult.assoc del: upt_Suc)
  with u v c Suc.prems show ?case by (subst dhcp_loop.simps) (simp del: upt_Suc)
qed

lemma dhcp_gives_up:
  assumes "no_lease prog (nb_interface n)"
  shows "\<exists>u. dhcp_loop prog n 10 0 s = (Done n, u) \<and> sys_trace u = sys_trace s
     @ map (\<lambda>t. sh_argv (dhcp_command (nb_interface n) t)) [10, 20, 40, 80, 160, 320]"
  using dhcp_loop_fails [OF assms, of 10 5 0 s]
  by (simp add: DHCP_MAX_RETRIES_def upt_conv_Cons del: upt_Suc)

lemma append_line_trace:
  "\<exists>t. append_line path what (Some v) s = (Done (), t) \<and> sys_trace t = sys_trace s"
  by (simp add: append_line_def c_strlen_def abind_def write_file_def Let_def)

lemma fopen_append_trace:
  "\<exists>ok t. fopen_append path s = (Done ok, t) \<and> sys_trace t = sys_trace s"
  by (auto simp: fopen_append_def abind_def creat_def split: option.splits)

definition ifconfig_up :: "string \<Rightarrow> string \<Rightarrow> string \<Rightarrow> string" where
  "ifconfig_up i a m = ''ifconfig '' @ i @ '' '' @ a @ '' netmask '' @ m @ '' up''"

lemma nb_conf_enable_static:
  assumes ex: "exits prog" and "nb_mode n = NB_STATIC"
    and "nb_interface n = Some i" "i \<noteq> []" "nb_address n = Some a" "a \<noteq> []"
    and "nb_mask n = Some m" "nb_gateway n = Some g" "nb_nameserver n = Some ns"
    and "nb_domain n = Some d"
  shows "\<exists>n' t. nb_conf_enable prog n s = (Done n', t) \<and> sys_trace t = sys_trace s
    @ [sh_argv ''ifconfig lo 127.0.0.1'',
       sh_argv (ifconfig_up i a (if m = [] then ''255.255.255.0'' else m))]
    @ (if g = [] then [] else [sh_argv (''route add default gw '' @ g)])"
proof -
  obtain ok ta where a: "fopen_append RESOLV_CONF s = (Done ok, ta)" "sys_trace ta = sys_trace s"
    using fopen_append_trace by blast
  obtain tb where b: "append_line RESOLV_CONF ''domain'' (Some d) ta = (Done (), tb)"
    "sys_trace tb = sys_trace ta" using append_line_trace by blast
  obtain tc where c: "append_line RESOLV_CONF ''nameserver'' (Some ns) tb = (Done (), tc)"
    "sys_trace tc = sys_trace tb" using append_line_trace by blast
  define td where "td = (if ok then tc else ta)"
  have td: "sys_trace td = sys_trace s" using a b c by (simp add: td_def)
  have r: "(if ok then abind (append_line RESOLV_CONF ''domain'' (nb_domain n)) (\<lambda>_.
      append_line RESOLV_CONF ''nameserver'' (nb_nameserver n)) else aret ()) ta = (Done (), td)"
    using b c assms by (simp add: td_def)
  obtain st te where e: "cfg_system prog ''ifconfig lo 127.0.0.1'' td = (Done st, te)"
    "sys_trace te = sys_trace td @ [sh_argv ''ifconfig lo 127.0.0.1'']"
    using cfg_system_exits [OF ex] by blast
  let ?m = "if m = [] then ''255.255.255.0'' else m"
  obtain st' tf where f: "cfg_system prog (ifconfig_up i a ?m) te = (Done st', tf)"
    "sys_trace tf = sys_trace te @ [sh_argv (ifconfig_up i a ?m)]"
    using cfg_system_exits [OF ex] by blast
  obtain st'' tg where g: "cfg_system prog (''route add default gw '' @ g) tf = (Done st'', tg)"
    "sys_trace tg = sys_trace tf @ [sh_argv (''route add default gw '' @ g)]"
    using cfg_system_exits [OF ex] by blast
  have u: "''ifconfig '' @ i @ '' '' @ a @ '' netmask '' @ ?m @ '' up'' = ifconfig_up i a ?m"
    by (simp add: ifconfig_up_def)
  show ?thesis
  proof (cases "g = []")
    case True
    with assms a(1) r e(1) f(1) have "\<exists>n'. nb_conf_enable prog n s = (Done n', tf)"
      using u by (simp add: nb_conf_enable_def abind_def c_strlen_def str_arg_def split: if_splits)
    with True e(2) f(2) td show ?thesis by auto
  next
    case False
    with assms a(1) r e(1) f(1) g(1) have "\<exists>n'. nb_conf_enable prog n s = (Done n', tg)"
      using u by (simp add: nb_conf_enable_def abind_def c_strlen_def str_arg_def split: if_splits)
    with False e(2) f(2) g(2) td show ?thesis by auto
  qed
qed

lemma test_mac_loop_big_endian:
  assumes "big_endian net" and "\<forall>(i, name) \<in> set ifs. i < 16777216"
  shows "\<not> test_mac_loop net macaddr ifs"
  using assms(2)
proof (cases ifs)
  case (Cons x xs)
  then obtain i name where x: "x = (i, name)" by (cases x)
  with assms Cons have "i < 16777216" by simp
  then have "first_byte (big_endian net) i = 0" using assms(1) by (simp add: first_byte_def)
  then show ?thesis using Cons x by simp
qed simp

text \<open>The interfaces the loop looks at: those in front of the first index whose first byte is 0.\<close>

definition scanned :: "netifs \<Rightarrow> (nat \<times> string) list \<Rightarrow> (nat \<times> string) list" where
  "scanned net ifs = takeWhile (\<lambda>x. first_byte (big_endian net) (fst x) \<noteq> 0) ifs"

definition has_address :: "netifs \<Rightarrow> string \<Rightarrow> bool" where
  "has_address net v \<longleftrightarrow> socket_ok net \<and>
     (\<exists>ifs. if_list net = Some ifs \<and>
        (\<exists>x \<in> set (scanned net ifs). \<exists>a. hwaddr net (snd x) = Some a \<and> mac_string (take 6 a) = v))"

lemma test_mac_loop_iff:
  "test_mac_loop net v ifs \<longleftrightarrow>
   (\<exists>x \<in> set (scanned net ifs). \<exists>a. hwaddr net (snd x) = Some a \<and> mac_string (take 6 a) = v)"
proof -
  have "test_mac_loop net v ifs \<longleftrightarrow>
    list_ex (\<lambda>x. \<exists>a. hwaddr net (snd x) = Some a \<and> mac_string (take 6 a) = v) (scanned net ifs)"
    by (induction net v ifs rule: test_mac_loop.induct) (auto simp: scanned_def split: option.splits)
  then show ?thesis by (simp add: list_ex_iff)
qed

lemma nb_test_mac_iff: "nb_test_mac net v \<longleftrightarrow> has_address net v"
  by (simp add: nb_test_mac_def has_address_def test_mac_loop_iff split: option.split)

end
