(* ===== verification/Parser.thy ===== *)
theory Parser
  imports Netbase
begin

section \<open>The actions of the configuration parser\<close>

text \<open>
  Models \<^verbatim>\<open>core/parser.c\<close>, the state functions of \<^verbatim>\<open>core/parser_sysload.c\<close> and the semantic
  actions of the grammar \<^verbatim>\<open>core/sysload.conf.y\<close>. The scanner and the LALR automaton are generated
  by flex and bison; they are a parameter
  of the operations that read a text (theory ParseSysload); here is what a reduction does. Every reduction
  with an action is a constructor of \<open>reduction\<close>, and \<open>exec_reduction\<close> runs its action.
\<close>

subsection \<open>The context of the parser\<close>

record sysload_arguments =
  config_uri :: cptr
  console :: cptr
  only_ui :: cptr

record parser_context =
  pc_file :: "string option"
  pc_uri :: cptr
  pc_filename :: cptr
  pc_errmsg :: cptr
  pc_default :: cptr
  system_depth :: int
  system_first_inactive :: int
  pc_args :: "sysload_arguments option"
  toplevel :: cfg_toplevel
  bentry :: cfg_bentry
  netconf :: nb_conf
  modconf :: mb_conf

definition MAX_SYSTEM_DEPTH :: int where "MAX_SYSTEM_DEPTH = 999"
definition SYSINFO_FILENAME :: string where "SYSINFO_FILENAME = ''/proc/sysinfo''"
definition VMGUEST_ENTRY :: string where "VMGUEST_ENTRY = ''VM00 Name:''"
definition LPAR_ENTRY :: string where "LPAR_ENTRY = ''LPAR Name:''"
definition SETUP_MODULE_PATH :: string where "SETUP_MODULE_PATH = ''setup''"

definition parser_init :: parser_context where
  "parser_init =
     \<lparr>pc_file = None, pc_uri = cfg_strinit, pc_filename = cfg_strinit, pc_errmsg = cfg_strinit,
      pc_default = Some ''0'', system_depth = 0, system_first_inactive = MAX_SYSTEM_DEPTH,
      pc_args = None, toplevel = cfg_new, bentry = cfg_bentry_init, netconf = nb_conf_new,
      modconf = mb_conf_new\<rparr>"

definition parser_destroy :: "parser_context \<Rightarrow> parser_context" where
  "parser_destroy c =
     c\<lparr>pc_uri := cfg_strfree (pc_uri c), pc_filename := cfg_strfree (pc_filename c),
       pc_errmsg := cfg_strfree (pc_errmsg c), pc_default := cfg_strfree (pc_default c),
       netconf := nb_conf_destroy (netconf c), modconf := mb_conf_destroy (modconf c),
       bentry := cfg_bentry_destroy (bentry c)\<rparr>"

definition parser_set_errmsg :: "parser_context \<Rightarrow> string \<Rightarrow> parser_context" where
  "parser_set_errmsg c msg = c\<lparr>pc_errmsg := Some msg\<rparr>"

datatype parse_activity = PA_ACTIVE | PA_INACTIVE

text \<open>The pointer to the arguments is NULL while a boot entry or a kernel argument is parsed.\<close>

definition parser_uimode :: "parser_context \<Rightarrow> cptr c_res" where
  "parser_uimode c =
     (case pc_args c of
        None \<Rightarrow> Inl NullDeref
      | Some a \<Rightarrow>
          (case only_ui a of
             None \<Rightarrow> Inl NullDeref
           | Some u \<Rightarrow> if length u = 0 then Inr None else Inr (Some u)))"

definition parser_active_system :: "parser_context \<Rightarrow> parse_activity" where
  "parser_active_system c =
     (if system_first_inactive c \<le> system_depth c then PA_INACTIVE else PA_ACTIVE)"

definition parser_enter_system :: "parse_activity \<Rightarrow> parser_context \<Rightarrow> parser_context" where
  "parser_enter_system active c =
     (let c = c\<lparr>system_depth := system_depth c + 1\<rparr> in
      if parser_active_system c = PA_ACTIVE \<and> active = PA_INACTIVE
      then c\<lparr>system_first_inactive := system_depth c\<rparr> else c)"

definition parser_exit_system :: "parser_context \<Rightarrow> parser_context" where
  "parser_exit_system c =
     (let c = (if system_first_inactive c = system_depth c
               then c\<lparr>system_first_inactive := MAX_SYSTEM_DEPTH\<rparr> else c)
      in c\<lparr>system_depth := system_depth c - 1\<rparr>)"

subsection \<open>On which system are we running?\<close>

definition sysinfo_value :: "string \<Rightarrow> string \<Rightarrow> string option" where
  "sysinfo_value entry input =
     (let input = cstr input in
      if strncmp_eq input entry (length entry) then
        let pos = drop (length entry) input; pos = drop (strspn pos ('' '' @ [CHR 9])) pos
        in Some (take (strcspn pos ('' '' @ [CHR 9, nl])) pos)
      else None)"

definition parser_sysinfo_test :: "string \<Rightarrow> string \<Rightarrow> bool act" where
  "parser_sysinfo_test entry guestname =
     abind (fopen SYSINFO_FILENAME) (\<lambda>f.
       case f of
         None \<Rightarrow>
           abind (eprint_arg0 ('': fopen not possible for '' @ SYSINFO_FILENAME @ [nl]))
             (\<lambda>_. aret False)
       | Some content \<Rightarrow>
           aret (\<exists>input \<in> set (fgets_lines CFG_STR_MAX_LEN content).
             case sysinfo_value entry input of
               None \<Rightarrow> False | Some v \<Rightarrow> strcasecmp_eq guestname v))"

definition parser_vmguest_test :: "string \<Rightarrow> bool act" where
  "parser_vmguest_test guestname = parser_sysinfo_test VMGUEST_ENTRY guestname"

definition parser_lpar_test :: "string \<Rightarrow> bool act" where
  "parser_lpar_test lparname = parser_sysinfo_test LPAR_ENTRY lparname"

datatype systemid =
  UUID string | MAC string | VMGUEST string | VMGUEST_LPAR string string | LPAR string

datatype systemlist =
  SystemId systemid | SystemOr systemlist systemid | SystemNot systemlist

definition truth :: "bool \<Rightarrow> string" where
  "truth b = (if b then ''true'' else ''false'')"

fun eval_systemid :: "netifs \<Rightarrow> systemid \<Rightarrow> string act" where
  "eval_systemid net (UUID v) = aret v"
| "eval_systemid net (MAC v) = aret (truth (nb_test_mac net v))"
| "eval_systemid net (VMGUEST v) = abind (parser_vmguest_test v) (\<lambda>b. aret (truth b))"
| "eval_systemid net (VMGUEST_LPAR v w) =
     abind (parser_vmguest_test v) (\<lambda>b.
     abind (if b then parser_lpar_test w else aret False) (\<lambda>b. aret (truth b)))"
| "eval_systemid net (LPAR w) = abind (parser_lpar_test w) (\<lambda>b. aret (truth b))"

fun eval_systemlist :: "netifs \<Rightarrow> systemlist \<Rightarrow> string act" where
  "eval_systemlist net (SystemId i) = eval_systemid net i"
| "eval_systemlist net (SystemOr l i) =
     abind (eval_systemlist net l) (\<lambda>a.
     abind (eval_systemid net i) (\<lambda>b.
       aret (if a = ''true'' then a else if b = ''true'' then b else a)))"
| "eval_systemlist net (SystemNot l) =
     abind (eval_systemlist net l) (\<lambda>a. aret (if a = ''true'' then ''false'' else ''true''))"

subsection \<open>Setting up devices\<close>

definition setup_command :: "string \<Rightarrow> string \<Rightarrow> string" where
  "setup_command what args = ''/'' @ SETUP_MODULE_PATH @ ''/setup_'' @ what @ '' '' @ args"

definition run_setup :: "prog \<Rightarrow> string \<Rightarrow> unit act" where
  "run_setup prog cmd =
     abind (query sys_env) (\<lambda>env.
     abind (lift_res (cfg_get_defaultpath cfg_strinit env)) (\<lambda>defaultpath.
     abind (cfg_system prog (str_arg defaultpath @ cmd)) (\<lambda>_. aret ())))"

definition parser_setup_qeth :: "prog \<Rightarrow> string \<Rightarrow> string \<Rightarrow> string \<Rightarrow> unit act" where
  "parser_setup_qeth prog b1 b2 b3 =
     run_setup prog (setup_command ''qeth'' (b1 @ '' '' @ b2 @ '' '' @ b3))"

definition parser_setup_dasd :: "prog \<Rightarrow> string \<Rightarrow> unit act" where
  "parser_setup_dasd prog busid = run_setup prog (setup_command ''dasd'' busid)"

definition parser_setup_zfcp :: "prog \<Rightarrow> string \<Rightarrow> string \<Rightarrow> string \<Rightarrow> unit act" where
  "parser_setup_zfcp prog busid wwpn lun =
     run_setup prog (setup_command ''zfcp'' (busid @ '' '' @ wwpn @ '' '' @ lun))"

subsection \<open>The reductions of the grammar\<close>

datatype modparam = ModName string | ModParam string | ModKernelversion string

datatype netparam =
  NetMode nb_mode | NetAddress string | NetMask string | NetGateway string
| NetNameserver string | NetInterface string

datatype boot_option =
  OptRoot string | OptLock | OptPause string | OptKernel string | OptInitrd string
| OptCmdline string | OptParmfile string | OptInsfile string | OptBootmap string
| OptReboot | OptHalt | OptShell | OptExit

datatype reduction =
  RDefault string | RTimeout string | RPassword string
| RModparam modparam | RSetupModule
| RSetupDasd string | RSetupQeth string string string | RSetupZfcp string string string
| RNetparam netparam | RNetwork
| RUserinterface string string | RUserinterfaceSsh string string
| RExec string
| RTitle string | RLabel string | ROption boot_option | RBootEntry
| RSystem systemlist | RExitSystem
| RKernelNetparam netparam | RKernelNet
| RKsetDasd string | RKsetQeth string string string | RKsetZfcp string string string
| RKsetMod string

text \<open>A URI of the grammar: the scheme with \<^verbatim>\<open>://\<close>, an optional part in brackets, the rest.\<close>

datatype uri = Uri string string | UriBracket string string string

fun uri_string :: "uri \<Rightarrow> cptr c_res" where
  "uri_string (Uri a b) = ebind (cfg_strinitcpy (Some a)) (\<lambda>u. cfg_strcat u (Some b))"
| "uri_string (UriBracket a b d) =
     ebind (cfg_strinitcpy (Some a)) (\<lambda>u.
     ebind (cfg_strcat u (Some b)) (\<lambda>u. cfg_strcat u (Some d)))"

fun set_modparam :: "modparam \<Rightarrow> mb_conf \<Rightarrow> mb_conf" where
  "set_modparam (ModName v) m = m\<lparr>mb_name := Some v\<rparr>"
| "set_modparam (ModParam v) m = m\<lparr>mb_param := Some v\<rparr>"
| "set_modparam (ModKernelversion v) m = m\<lparr>mb_kernelversion := Some v\<rparr>"

fun set_netparam :: "netparam \<Rightarrow> nb_conf \<Rightarrow> nb_conf" where
  "set_netparam (NetMode v) n = n\<lparr>nb_mode := v\<rparr>"
| "set_netparam (NetAddress v) n = n\<lparr>nb_address := Some v\<rparr>"
| "set_netparam (NetMask v) n = n\<lparr>nb_mask := Some v\<rparr>"
| "set_netparam (NetGateway v) n = n\<lparr>nb_gateway := Some v\<rparr>"
| "set_netparam (NetNameserver v) n = n\<lparr>nb_nameserver := Some v\<rparr>"
| "set_netparam (NetInterface v) n = n\<lparr>nb_interface := Some v\<rparr>"

fun set_option :: "boot_option \<Rightarrow> cfg_bentry \<Rightarrow> cfg_bentry" where
  "set_option (OptRoot v) b = b\<lparr>root := Some v\<rparr>"
| "set_option OptLock b = b\<lparr>locked := 1\<rparr>"
| "set_option (OptPause v) b = b\<lparr>pause := Some v\<rparr>"
| "set_option (OptKernel v) b = b\<lparr>action := KERNEL_BOOT, kernel := Some v\<rparr>"
| "set_option (OptInitrd v) b = b\<lparr>initrd := Some v\<rparr>"
| "set_option (OptCmdline v) b = b\<lparr>cmdline := Some v\<rparr>"
| "set_option (OptParmfile v) b = b\<lparr>parmfile := Some v\<rparr>"
| "set_option (OptInsfile v) b = b\<lparr>action := INSFILE_BOOT, insfile := Some v\<rparr>"
| "set_option (OptBootmap v) b = b\<lparr>action := BOOTMAP_BOOT, bootmap := Some v\<rparr>"
| "set_option OptReboot b = b\<lparr>action := REBOOT\<rparr>"
| "set_option OptHalt b = b\<lparr>action := HALT\<rparr>"
| "set_option OptShell b = b\<lparr>action := SHELL\<rparr>"
| "set_option OptExit b = b\<lparr>action := EXIT\<rparr>"

definition is_active :: "parser_context \<Rightarrow> bool" where
  "is_active c \<longleftrightarrow> parser_active_system c = PA_ACTIVE"

text \<open>The guard \<open>(parser_uimode() == NULL) && (parser_active_system() == PA_ACTIVE)\<close>.\<close>

definition when_setup :: "parser_context \<Rightarrow> unit act \<Rightarrow> unit act" where
  "when_setup c m =
     abind (lift_res (parser_uimode c)) (\<lambda>u.
       if u = None \<and> is_active c then m else aret ())"

definition add_ui :: "string \<Rightarrow> string \<Rightarrow> parser_context \<Rightarrow> parser_context act" where
  "add_ui m cmd c =
     abind (lift_res (cfg_add_userinterface (toplevel c)
        (cfg_userinterface_init\<lparr>ui_module := Some m, ui_cmdline := Some cmd\<rparr>)))
       (\<lambda>t. aret (c\<lparr>toplevel := t\<rparr>))"

definition enable_net :: "prog \<Rightarrow> parser_context \<Rightarrow> parser_context act" where
  "enable_net prog c =
     abind (nb_conf_enable prog (netconf c)) (\<lambda>n. aret (c\<lparr>netconf := nb_conf_reset n\<rparr>))"

text \<open>The action of each reduction, in the order of the grammar.\<close>

fun exec_reduction ::
  "netifs \<Rightarrow> prog \<Rightarrow> reduction \<Rightarrow> parser_context \<Rightarrow> parser_context act" where
  "exec_reduction net prog (RDefault v) c =
     aret (if is_active c then c\<lparr>pc_default := Some v\<rparr> else c)"
| "exec_reduction net prog (RTimeout v) c =
     abind (lift_res (parser_uimode c)) (\<lambda>u.
       if u \<noteq> None \<or> \<not> is_active c
       then aret (c\<lparr>toplevel := (toplevel c)\<lparr>timeout := 0\<rparr>\<rparr>)
       else abind (lift_res (sscanf_d v)) (\<lambda>r.
         aret (case r of None \<Rightarrow> c | Some i \<Rightarrow> c\<lparr>toplevel := (toplevel c)\<lparr>timeout := i\<rparr>\<rparr>)))"
| "exec_reduction net prog (RPassword v) c =
     aret (if is_active c then c\<lparr>toplevel := (toplevel c)\<lparr>password := Some v\<rparr>\<rparr> else c)"
| "exec_reduction net prog (RModparam p) c =
     aret (if is_active c then c\<lparr>modconf := set_modparam p (modconf c)\<rparr> else c)"
| "exec_reduction net prog RSetupModule c =
     abind (when_setup c (mb_conf_load prog (modconf c)))
       (\<lambda>_. aret (c\<lparr>modconf := mb_conf_reset (modconf c)\<rparr>))"
| "exec_reduction net prog (RSetupDasd b) c =
     abind (when_setup c (parser_setup_dasd prog b)) (\<lambda>_. aret c)"
| "exec_reduction net prog (RSetupQeth b1 b2 b3) c =
     abind (when_setup c (parser_setup_qeth prog b1 b2 b3)) (\<lambda>_. aret c)"
| "exec_reduction net prog (RSetupZfcp b w l) c =
     abind (when_setup c (parser_setup_zfcp prog b w l)) (\<lambda>_. aret c)"
| "exec_reduction net prog (RNetparam p) c =
     aret (if is_active c then c\<lparr>netconf := set_netparam p (netconf c)\<rparr> else c)"
| "exec_reduction net prog RNetwork c =
     abind (when_setup c (abind (nb_conf_enable prog (netconf c)) (\<lambda>_. aret ())))
       (\<lambda>_. aret (c\<lparr>netconf := nb_conf_reset (netconf c)\<rparr>))"
| "exec_reduction net prog (RUserinterface m cmd) c =
     (if is_active c then
        abind (lift_res (parser_uimode c)) (\<lambda>u. if u = None then add_ui m cmd c else aret c)
      else aret c)"
| "exec_reduction net prog (RUserinterfaceSsh m cmd) c =
     (if is_active c then
        abind (lift_res (parser_uimode c)) (\<lambda>u.
          if u = None then add_ui ''ssh'' cmd c
          else if u = Some m then add_ui m ''/dev/tty'' c else aret c)
      else aret c)"
| "exec_reduction net prog (RExec cmd) c =
     abind (when_setup c (abind (cfg_system prog cmd) (\<lambda>_. aret ()))) (\<lambda>_. aret c)"
| "exec_reduction net prog (RTitle v) c = aret (c\<lparr>bentry := (bentry c)\<lparr>title := Some v\<rparr>\<rparr>)"
| "exec_reduction net prog (RLabel v) c = aret (c\<lparr>bentry := (bentry c)\<lparr>label := Some v\<rparr>\<rparr>)"
| "exec_reduction net prog (ROption opt) c =
     aret (if is_active c then c\<lparr>bentry := set_option opt (bentry c)\<rparr> else c)"
| "exec_reduction net prog RBootEntry c =
     abind (if is_active c
            then abind (lift_res (cfg_add_bentry (toplevel c) (bentry c)))
                   (\<lambda>t. aret (c\<lparr>toplevel := t\<rparr>))
            else aret c)
       (\<lambda>c. aret (let b = cfg_bentry_destroy (bentry c) in c\<lparr>bentry := cfg_bentry_init\<rparr>))"
| "exec_reduction net prog (RSystem l) c =
     abind (eval_systemlist net l) (\<lambda>v.
       aret (parser_enter_system (if v \<noteq> ''true'' then PA_INACTIVE else PA_ACTIVE) c))"
| "exec_reduction net prog RExitSystem c = aret (parser_exit_system c)"
| "exec_reduction net prog (RKernelNetparam p) c =
     aret (c\<lparr>netconf := set_netparam p (netconf c)\<rparr>)"
| "exec_reduction net prog RKernelNet c = enable_net prog c"
| "exec_reduction net prog (RKsetDasd b) c = abind (parser_setup_dasd prog b) (\<lambda>_. aret c)"
| "exec_reduction net prog (RKsetQeth b1 b2 b3) c =
     abind (parser_setup_qeth prog b1 b2 b3) (\<lambda>_. aret c)"
| "exec_reduction net prog (RKsetZfcp b w l) c =
     abind (parser_setup_zfcp prog b w l) (\<lambda>_. aret c)"
| "exec_reduction net prog (RKsetMod v) c =
     abind (mb_conf_load prog ((modconf c)\<lparr>mb_name := Some v\<rparr>))
       (\<lambda>_. aret (c\<lparr>modconf := mb_conf_reset (modconf c)\<rparr>))"

fun exec_reductions ::
  "netifs \<Rightarrow> prog \<Rightarrow> reduction list \<Rightarrow> parser_context \<Rightarrow> parser_context act" where
  "exec_reductions net prog [] c = aret c"
| "exec_reductions net prog (r # rs) c =
     abind (exec_reduction net prog r c) (exec_reductions net prog rs)"

end
