(* ===== verification/Sections.thy ===== *)
theory Sections
  imports Parser
begin

section \<open>System sections\<close>

text \<open>
  Configuration files as trees, the sequence of reductions bison performs on them, and the
  specification of the \<^verbatim>\<open>system\<close> sections: where the parser counts nesting depths, the
  specification passes a flag down the tree. The refinement says that the two agree as long as
  the sections nest less than \<open>MAX_SYSTEM_DEPTH\<close> deep.
\<close>

declare aret_apply [simp del]

subsection \<open>Configuration trees\<close>

text \<open>A list of statements in which sections can nest, at the four places the grammar has them.\<close>

datatype 'a block = Plain 'a | InSystem systemlist "'a block list"

datatype statement =
  DefDefault string | DefTimeout string | DefPassword string
| DefSetupModule "modparam block list"
| DefSetupDasd string | DefSetupQeth string string string | DefSetupZfcp string string string
| DefNetwork "netparam block list"
| DefUserinterface string string | DefUserinterfaceSsh string string
| DefExec string
| DefBootEntry string "string option" "boot_option block list"

fun flatten_block :: "('a \<Rightarrow> reduction list) \<Rightarrow> 'a block \<Rightarrow> reduction list"
  and flatten_blocks :: "('a \<Rightarrow> reduction list) \<Rightarrow> 'a block list \<Rightarrow> reduction list" where
  "flatten_block f (Plain x) = f x"
| "flatten_block f (InSystem l bs) = RSystem l # flatten_blocks f bs @ [RExitSystem]"
| "flatten_blocks f [] = []"
| "flatten_blocks f (b # bs) = flatten_block f b @ flatten_blocks f bs"

fun reductions_of :: "statement \<Rightarrow> reduction list" where
  "reductions_of (DefDefault v) = [RDefault v]"
| "reductions_of (DefTimeout v) = [RTimeout v]"
| "reductions_of (DefPassword v) = [RPassword v]"
| "reductions_of (DefSetupModule ps) = flatten_blocks (\<lambda>p. [RModparam p]) ps @ [RSetupModule]"
| "reductions_of (DefSetupDasd b) = [RSetupDasd b]"
| "reductions_of (DefSetupQeth a b d) = [RSetupQeth a b d]"
| "reductions_of (DefSetupZfcp b w l) = [RSetupZfcp b w l]"
| "reductions_of (DefNetwork ps) = flatten_blocks (\<lambda>p. [RNetparam p]) ps @ [RNetwork]"
| "reductions_of (DefUserinterface m v) = [RUserinterface m v]"
| "reductions_of (DefUserinterfaceSsh m v) = [RUserinterfaceSsh m v]"
| "reductions_of (DefExec v) = [RExec v]"
| "reductions_of (DefBootEntry t l opts) =
     RTitle t # (case l of None \<Rightarrow> [] | Some v \<Rightarrow> [RLabel v])
       @ flatten_blocks (\<lambda>p. [ROption p]) opts @ [RBootEntry]"

type_synonym config_tree = "statement block list"

definition config_reductions :: "config_tree \<Rightarrow> reduction list" where
  "config_reductions ds = flatten_blocks reductions_of ds"

text \<open>How deep sections nest, inside statements included.\<close>

fun nest_block :: "('a \<Rightarrow> nat) \<Rightarrow> 'a block \<Rightarrow> nat"
  and nest_blocks :: "('a \<Rightarrow> nat) \<Rightarrow> 'a block list \<Rightarrow> nat" where
  "nest_block k (Plain x) = k x"
| "nest_block k (InSystem l bs) = Suc (nest_blocks k bs)"
| "nest_blocks k [] = 0"
| "nest_blocks k (b # bs) = max (nest_block k b) (nest_blocks k bs)"

fun nest_def :: "statement \<Rightarrow> nat" where
  "nest_def (DefSetupModule ps) = nest_blocks (\<lambda>_. 0) ps"
| "nest_def (DefNetwork ps) = nest_blocks (\<lambda>_. 0) ps"
| "nest_def (DefBootEntry t l opts) = nest_blocks (\<lambda>_. 0) opts"
| "nest_def _ = 0"

subsection \<open>The specification\<close>

text \<open>
  The counters are out of the way: an active context has depth 0, an inactive one is at its
  first inactive depth.
\<close>

definition strip :: "bool \<Rightarrow> parser_context \<Rightarrow> parser_context" where
  "strip a c = c\<lparr>system_depth := 0, system_first_inactive := (if a then MAX_SYSTEM_DEPTH else 0)\<rparr>"

definition restore :: "parser_context \<Rightarrow> parser_context \<Rightarrow> parser_context" where
  "restore c d =
     d\<lparr>system_depth := system_depth c, system_first_inactive := system_first_inactive c\<rparr>"

fun spec_block ::
  "(bool \<Rightarrow> 'a \<Rightarrow> parser_context \<Rightarrow> parser_context act) \<Rightarrow> netifs \<Rightarrow> bool \<Rightarrow> 'a block
    \<Rightarrow> parser_context \<Rightarrow> parser_context act"
  and spec_blocks ::
  "(bool \<Rightarrow> 'a \<Rightarrow> parser_context \<Rightarrow> parser_context act) \<Rightarrow> netifs \<Rightarrow> bool \<Rightarrow> 'a block list
    \<Rightarrow> parser_context \<Rightarrow> parser_context act" where
  "spec_block g net a (Plain x) c = g a x c"
| "spec_block g net a (InSystem l bs) c =
     abind (eval_systemlist net l) (\<lambda>v.
       let a' = (a \<and> v = ''true'') in
       abind (spec_blocks g net a' bs (strip a' c)) (\<lambda>d. aret (strip a d)))"
| "spec_blocks g net a [] c = aret c"
| "spec_blocks g net a (b # bs) c =
     abind (spec_block g net a b c) (spec_blocks g net a bs)"

fun spec_def ::
  "netifs \<Rightarrow> prog \<Rightarrow> bool \<Rightarrow> statement \<Rightarrow> parser_context \<Rightarrow> parser_context act" where
  "spec_def net prog a (DefSetupModule ps) c =
     abind (spec_blocks (\<lambda>a p. exec_reduction net prog (RModparam p)) net a ps c)
       (exec_reduction net prog RSetupModule)"
| "spec_def net prog a (DefNetwork ps) c =
     abind (spec_blocks (\<lambda>a p. exec_reduction net prog (RNetparam p)) net a ps c)
       (exec_reduction net prog RNetwork)"
| "spec_def net prog a (DefBootEntry t l opts) c =
     abind (exec_reduction net prog (RTitle t) c) (\<lambda>c.
     abind (case l of None \<Rightarrow> aret c | Some v \<Rightarrow> exec_reduction net prog (RLabel v) c) (\<lambda>c.
     abind (spec_blocks (\<lambda>a p. exec_reduction net prog (ROption p)) net a opts c)
       (exec_reduction net prog RBootEntry)))"
| "spec_def net prog a d c = exec_reductions net prog (reductions_of d) c"

subsection \<open>Runs of reductions\<close>

lemma exec_reductions_Nil [simp]: "exec_reductions net prog [] = aret"
  by (rule ext) simp

lemma exec_reductions_append:
  "exec_reductions net prog (rs @ qs) c
    = abind (exec_reductions net prog rs c) (exec_reductions net prog qs)"
  by (induction rs arbitrary: c) (simp_all add: abind_assoc cong: abind_cong)

definition counter_reduction :: "reduction \<Rightarrow> bool" where
  "counter_reduction r \<longleftrightarrow> (case r of RSystem _ \<Rightarrow> True | RExitSystem \<Rightarrow> True | _ \<Rightarrow> False)"

lemma is_active_strip [simp]: "is_active (strip a c) = a"
  by (simp add: is_active_def parser_active_system_def strip_def MAX_SYSTEM_DEPTH_def)

lemma is_active_simps [simp]:
  "is_active (c\<lparr>bentry := b\<rparr>) = is_active c" "is_active (c\<lparr>toplevel := t\<rparr>) = is_active c"
  by (simp_all add: is_active_def parser_active_system_def)

lemma strip_fields [simp]:
  "pc_default (strip a c) = pc_default c" "toplevel (strip a c) = toplevel c"
  "bentry (strip a c) = bentry c" "netconf (strip a c) = netconf c" "modconf (strip a c) = modconf c"
  "pc_args (strip a c) = pc_args c" "strip a (strip b c) = strip a c"
  "parser_uimode (strip a c) = parser_uimode c"
  by (simp_all add: strip_def parser_uimode_def)

lemma restore_strip [simp]:
  "restore c (strip a c) = c"
  "restore c ((strip a c)\<lparr>pc_default := x1\<rparr>) = c\<lparr>pc_default := x1\<rparr>"
  "restore c ((strip a c)\<lparr>toplevel := x2\<rparr>) = c\<lparr>toplevel := x2\<rparr>"
  "restore c ((strip a c)\<lparr>bentry := x3\<rparr>) = c\<lparr>bentry := x3\<rparr>"
  "restore c ((strip a c)\<lparr>netconf := x4\<rparr>) = c\<lparr>netconf := x4\<rparr>"
  "restore c ((strip a c)\<lparr>modconf := x5\<rparr>) = c\<lparr>modconf := x5\<rparr>"
  "restore c ((strip a c)\<lparr>toplevel := x6, bentry := x7\<rparr>) = c\<lparr>toplevel := x6, bentry := x7\<rparr>"
  by (simp_all add: restore_def strip_def)

text \<open>
  A reduction that does not count looks at the counters only through \<open>is_active\<close>, and leaves
  them alone.
\<close>

lemma when_setup_strip [simp]: "when_setup (strip (is_active c) c) m = when_setup c m"
  by (simp add: when_setup_def)

lemma if_abind: "abind (if b then m else n) f = (if b then abind m f else abind n f)"
  by simp

lemma aret_option: "aret (case r of None \<Rightarrow> x | Some i \<Rightarrow> f i)
    = (case r of None \<Rightarrow> aret x | Some i \<Rightarrow> aret (f i))"
  by (cases r) simp_all

lemma option_abind: "abind (case r of None \<Rightarrow> m | Some i \<Rightarrow> n i) f
    = (case r of None \<Rightarrow> abind m f | Some i \<Rightarrow> abind (n i) f)"
  by (cases r) simp_all

lemma exec_reduction_strip:
  assumes "\<not> counter_reduction r"
  shows "exec_reduction net prog r c
    = abind (exec_reduction net prog r (strip (is_active c) c)) (\<lambda>d. aret (restore c d))"
  using assms
  by (cases r) (simp_all add: counter_reduction_def abind_assoc add_ui_def enable_net_def if_abind
      aret_option option_abind cong: abind_cong if_cong option.case_cong)

lemma restore_fields [simp]:
  "system_depth (restore c d) = system_depth c"
  "system_first_inactive (restore c d) = system_first_inactive c"
  "is_active (restore c d) = is_active c" "strip a (restore c d) = strip a d"
  "restore (restore c d) e = restore c e" "restore c (restore e d) = restore c d"
  "restore c (strip a d) = restore c d"
  by (simp_all add: restore_def strip_def is_active_def parser_active_system_def)

lemma exec_reduction_keeps:
  assumes "\<not> counter_reduction r" and "exec_reduction net prog r c s = (Done d, t)"
  shows "system_depth d = system_depth c" and "system_first_inactive d = system_first_inactive c"
proof -
  from assms(2) obtain e where "d = restore c e"
    by (subst (asm) exec_reduction_strip [OF assms(1)]) (auto simp: abind_Done_iff aret_apply)
  then show "system_depth d = system_depth c" "system_first_inactive d = system_first_inactive c"
    by simp_all
qed

subsection \<open>The refinement\<close>

text \<open>A computation from a stripped context ends in a stripped context.\<close>

definition stripped :: "bool \<Rightarrow> parser_context act \<Rightarrow> bool" where
  "stripped a m \<longleftrightarrow> (\<forall>s d t. m s = (Done d, t) \<longrightarrow> strip a d = d)"

lemma stripped_abind:
  assumes "\<And>s d t. m s = (Done d, t) \<Longrightarrow> stripped a (f d)"
  shows "stripped a (abind m f)"
  unfolding stripped_def
proof (intro allI impI)
  fix s d t assume "abind m f s = (Done d, t)"
  then obtain e u where "m s = (Done e, u)" "f e u = (Done d, t)" by (auto simp: abind_Done_iff)
  with assms show "strip a d = d" unfolding stripped_def by blast
qed

lemma stripped_seq:
  assumes "stripped a m" and "\<And>d. strip a d = d \<Longrightarrow> stripped a (f d)"
  shows "stripped a (abind m f)"
proof (rule stripped_abind)
  fix s d t assume "m s = (Done d, t)"
  with assms(1) have "strip a d = d" unfolding stripped_def by blast
  then show "stripped a (f d)" by (rule assms(2))
qed

lemma stripped_aret [simp]: "stripped a (aret d) \<longleftrightarrow> strip a d = d"
  by (auto simp: stripped_def aret_apply)

lemma stripped_cong:
  assumes "stripped a m"
  shows "abind m (\<lambda>d. f (strip a d)) = abind m f"
proof (rule abind_cong_Done)
  fix s d t assume "m s = (Done d, t)"
  with assms have "strip a d = d" unfolding stripped_def by blast
  then show "f (strip a d) t = f d t" by simp
qed

lemma strip_iff: "strip a d = d \<longleftrightarrow>
    system_depth d = 0 \<and> system_first_inactive d = (if a then MAX_SYSTEM_DEPTH else 0)"
  by (cases d) (auto simp: strip_def)

lemma stripped_reduction:
  assumes "\<not> counter_reduction r" and "strip a c = c"
  shows "stripped a (exec_reduction net prog r c)"
  unfolding stripped_def
proof (intro allI impI)
  fix s d t assume "exec_reduction net prog r c s = (Done d, t)"
  from exec_reduction_keeps [OF assms(1) this] assms(2) show "strip a d = d" by (simp add: strip_iff)
qed

lemma stripped_blocks:
  assumes "\<And>a x c. strip a c = c \<Longrightarrow> stripped a (g a x c)"
  shows "strip a c = c \<Longrightarrow> stripped a (spec_block g net a b c)"
    and "strip a c = c \<Longrightarrow> stripped a (spec_blocks g net a bs c)"
  using assms
proof (induction g net a b c and g net a bs c rule: spec_block_spec_blocks.induct)
  case (4 g net a b bs c)
  then show ?case by (simp add: stripped_seq)
qed (simp_all add: assms stripped_abind Let_def)

definition fits :: "parser_context \<Rightarrow> nat \<Rightarrow> bool" where
  "fits c n \<longleftrightarrow>
     (system_first_inactive c = MAX_SYSTEM_DEPTH \<and> system_depth c + int n < MAX_SYSTEM_DEPTH)
     \<or> system_first_inactive c \<le> system_depth c"

lemma fits_restore [simp]: "fits (restore c d) n = fits c n"
  by (simp add: fits_def)

lemma enter_section:
  assumes "fits c (Suc n)"
  defines "e v \<equiv> parser_enter_system (if v \<noteq> ''true'' then PA_INACTIVE else PA_ACTIVE) c"
  shows "is_active (e v) = (is_active c \<and> v = ''true'')" and "fits (e v) n"
    and "strip a (e v) = strip a c"
    and "parser_exit_system (restore (e v) d) = restore c d"
  using assms
  by (auto simp: fits_def parser_enter_system_def is_active_def parser_active_system_def Let_def
      strip_def parser_exit_system_def restore_def)

text \<open>
  The refinement for the statements of any of the four levels, from the refinement of the
  statements themselves.
\<close>

lemma blocks_refine:
  fixes g :: "bool \<Rightarrow> 'a \<Rightarrow> parser_context \<Rightarrow> parser_context act"
  assumes plain: "\<And>x c. fits c (k x) \<Longrightarrow> exec_reductions net prog (f x) c
      = abind (g (is_active c) x (strip (is_active c) c)) (\<lambda>d. aret (restore c d))"
    and keeps: "\<And>a x c. strip a c = c \<Longrightarrow> stripped a (g a x c)"
  shows "fits c (nest_block k b) \<Longrightarrow> exec_reductions net prog (flatten_block f b) c
      = abind (spec_block g net (is_active c) b (strip (is_active c) c)) (\<lambda>d. aret (restore c d))"
    and "fits c (nest_blocks k bs) \<Longrightarrow> exec_reductions net prog (flatten_blocks f bs) c
      = abind (spec_blocks g net (is_active c) bs (strip (is_active c) c)) (\<lambda>d. aret (restore c d))"
  using plain
proof (induction k b and k bs arbitrary: c and c rule: nest_block_nest_blocks.induct)
  case (2 k l bs)
  note enter = enter_section [where n = "nest_blocks k bs"]
  show ?case using 2
    by (simp add: enter abind_assoc exec_reductions_append Let_def cong: abind_cong)
next
  case (4 k b bs)
  have "fits c (nest_block k b)" "fits c (nest_blocks k bs)"
    using 4(3) by (auto simp: fits_def)
  then have one: "exec_reductions net prog (flatten_block f b) c
      = abind (spec_block g net (is_active c) b (strip (is_active c) c)) (\<lambda>d. aret (restore c d))"
    and all: "\<And>d. exec_reductions net prog (flatten_blocks f bs) (restore c d)
      = abind (spec_blocks g net (is_active c) bs (strip (is_active c) d)) (\<lambda>e. aret (restore c e))"
    using 4(1) [OF _ 4(4), of c] 4(2) [OF _ 4(4), of "restore c d" for d] by simp_all
  have "stripped (is_active c) (spec_block g net (is_active c) b (strip (is_active c) c))"
    using keeps by (intro stripped_blocks) simp_all
  then show ?case
    by (simp add: one all abind_assoc exec_reductions_append)
      (rule stripped_cong)
qed (simp_all add: plain)

text \<open>A list of reductions that do not count, and every statement.\<close>

lemma stripped_reductions:
  assumes "\<forall>r \<in> set rs. \<not> counter_reduction r"
  shows "strip a c = c \<Longrightarrow> stripped a (exec_reductions net prog rs c)"
  using assms by (induction rs arbitrary: c) (simp_all add: stripped_seq stripped_reduction)

lemma reductions_refine:
  assumes "\<forall>r \<in> set rs. \<not> counter_reduction r"
  shows "exec_reductions net prog rs c
    = abind (exec_reductions net prog rs (strip (is_active c) c)) (\<lambda>d. aret (restore c d))"
  using assms
proof (induction rs arbitrary: c)
  case (Cons r rs)
  have s: "stripped (is_active c) (exec_reduction net prog r (strip (is_active c) c))"
    using Cons.prems by (intro stripped_reduction) simp_all
  have r: "exec_reductions net prog rs (restore c d)
      = abind (exec_reductions net prog rs (strip (is_active c) d)) (\<lambda>e. aret (restore c e))" for d
    using Cons.IH [of "restore c d"] Cons.prems by simp
  have "exec_reductions net prog (r # rs) c
      = abind (exec_reduction net prog r (strip (is_active c) c))
          (\<lambda>d. exec_reductions net prog rs (restore c d))"
    using Cons.prems by (simp add: exec_reduction_strip [of r net prog c] abind_assoc)
  also have "\<dots> = abind (exec_reduction net prog r (strip (is_active c) c))
      (\<lambda>d. abind (exec_reductions net prog rs d) (\<lambda>e. aret (restore c e)))"
    unfolding r using s by (rule stripped_cong)
  finally show ?case by (simp add: abind_assoc)
qed simp

lemma stripped_reduction_blocks:
  assumes "\<And>x. \<not> counter_reduction (h x)" and "strip a c = c"
  shows "stripped a (spec_blocks (\<lambda>a x. exec_reduction net prog (h x)) net a bs c)"
  using assms by (intro stripped_blocks) (simp_all add: stripped_reduction)

lemma blocks_then_refine:
  fixes h :: "'a \<Rightarrow> reduction" and net :: netifs and prog :: prog
  assumes "\<And>x. \<not> counter_reduction (h x)" and "\<not> counter_reduction r"
    and "fits c (nest_blocks (\<lambda>_. 0) bs)"
  defines "g \<equiv> \<lambda>(a :: bool) x. exec_reduction net prog (h x)"
  shows "exec_reductions net prog (flatten_blocks (\<lambda>x. [h x]) bs @ [r]) c
    = abind (abind (spec_blocks g net (is_active c) bs (strip (is_active c) c))
         (exec_reduction net prog r)) (\<lambda>d. aret (restore c d))"
proof -
  have keep: "strip a c = c \<Longrightarrow> stripped a (g a x c)" for a x c
    by (simp add: g_def stripped_reduction assms(1))
  have s: "stripped (is_active c) (spec_blocks g net (is_active c) bs (strip (is_active c) c))"
    using keep by (intro stripped_blocks) simp_all
  have "exec_reductions net prog (flatten_blocks (\<lambda>x. [h x]) bs) c
      = abind (spec_blocks g net (is_active c) bs (strip (is_active c) c)) (\<lambda>d. aret (restore c d))"
  proof (rule blocks_refine [where k = "\<lambda>_. 0"])
    show "exec_reductions net prog [h x] c
        = abind (g (is_active c) x (strip (is_active c) c)) (\<lambda>d. aret (restore c d))" for x c
      unfolding g_def by simp (rule exec_reduction_strip [OF assms(1)])
  qed (fact keep assms(3))+
  moreover have "exec_reduction net prog r (restore c d)
      = abind (exec_reduction net prog r (strip (is_active c) d)) (\<lambda>e. aret (restore c e))" for d
    using exec_reduction_strip [OF assms(2), of net prog "restore c d"] by simp
  ultimately show "exec_reductions net prog (flatten_blocks (\<lambda>x. [h x]) bs @ [r]) c
    = abind (abind (spec_blocks g net (is_active c) bs (strip (is_active c) c))
         (exec_reduction net prog r)) (\<lambda>d. aret (restore c d))"
    by (simp add: exec_reductions_append abind_assoc)
      (rule stripped_cong [OF s])
qed

lemma counter_reduction_simps [simp]:
  "counter_reduction (RSystem l)" "counter_reduction RExitSystem"
  "\<not> counter_reduction (RDefault v)" "\<not> counter_reduction (RTimeout v)"
  "\<not> counter_reduction (RPassword v)" "\<not> counter_reduction (RModparam p)"
  "\<not> counter_reduction RSetupModule" "\<not> counter_reduction (RSetupDasd v)"
  "\<not> counter_reduction (RSetupQeth v w x)" "\<not> counter_reduction (RSetupZfcp v w x)"
  "\<not> counter_reduction (RNetparam n)" "\<not> counter_reduction RNetwork"
  "\<not> counter_reduction (RUserinterface v w)" "\<not> counter_reduction (RUserinterfaceSsh v w)"
  "\<not> counter_reduction (RExec v)" "\<not> counter_reduction (RTitle v)"
  "\<not> counter_reduction (RLabel v)" "\<not> counter_reduction (ROption q)"
  "\<not> counter_reduction RBootEntry"
  by (simp_all add: counter_reduction_def)

lemma refine_seq:
  assumes "m = abind m' (\<lambda>d. aret (restore c d))" and "stripped a m'"
    and "\<And>d. f (restore c d) = abind (f' (strip a d)) (\<lambda>e. aret (restore c e))"
  shows "abind m f = abind (abind m' f') (\<lambda>d. aret (restore c d))"
  unfolding assms(1) by (simp add: abind_assoc assms(3)) (rule stripped_cong [OF assms(2)])

lemma boot_entry_refines:
  assumes "fits c (nest_blocks (\<lambda>_. 0) opts)"
  shows "exec_reductions net prog (reductions_of (DefBootEntry t l opts)) c
    = abind (spec_def net prog (is_active c) (DefBootEntry t l opts) (strip (is_active c) c))
        (\<lambda>d. aret (restore c d))"
proof -
  let ?h = "RTitle t # (case l of None \<Rightarrow> [] | Some v \<Rightarrow> [RLabel v])"
  let ?a = "is_active c"
  let ?m = "\<lambda>c. abind (spec_blocks (\<lambda>a p. exec_reduction net prog (ROption p)) net ?a opts c)
      (exec_reduction net prog RBootEntry)"
  have h: "\<forall>r \<in> set ?h. \<not> counter_reduction r" by (auto split: option.splits)
  have "exec_reductions net prog (reductions_of (DefBootEntry t l opts)) c
      = abind (exec_reductions net prog ?h c)
          (exec_reductions net prog (flatten_blocks (\<lambda>x. [ROption x]) opts @ [RBootEntry]))"
    by (simp add: exec_reductions_append [symmetric] del: exec_reductions.simps(2))
  also have "\<dots> = abind (abind (exec_reductions net prog ?h (strip ?a c)) ?m)
      (\<lambda>d. aret (restore c d))"
  proof (rule refine_seq)
    show "exec_reductions net prog ?h c
        = abind (exec_reductions net prog ?h (strip ?a c)) (\<lambda>d. aret (restore c d))"
      by (rule reductions_refine [OF h])
    show "stripped ?a (exec_reductions net prog ?h (strip ?a c))"
      using h by (rule stripped_reductions) simp
    show "exec_reductions net prog (flatten_blocks (\<lambda>x. [ROption x]) opts @ [RBootEntry]) (restore c d)
        = abind (?m (strip ?a d)) (\<lambda>e. aret (restore c e))" for d
      using blocks_then_refine [of ROption RBootEntry "restore c d" opts net prog] assms by simp
  qed
  finally show ?thesis
    by (cases l) (simp_all add: abind_assoc cong: abind_cong)
qed

lemma statement_refines:
  assumes "fits c (nest_def x)"
  shows "exec_reductions net prog (reductions_of x) c
    = abind (spec_def net prog (is_active c) x (strip (is_active c) c)) (\<lambda>d. aret (restore c d))"
proof (cases x)
  case (DefSetupModule ps)
  then show ?thesis
    using blocks_then_refine [of RModparam RSetupModule c ps net prog] assms by simp
next
  case (DefNetwork ps)
  then show ?thesis
    using blocks_then_refine [of RNetparam RNetwork c ps net prog] assms by simp
next
  case (DefBootEntry t l opts)
  then show ?thesis using boot_entry_refines [of c opts net prog t l] assms by simp
qed (use reductions_refine [of "reductions_of x" net prog c] in simp_all)

lemma stripped_statement:
  assumes "strip a c = c"
  shows "stripped a (spec_def net prog a x c)"
proof (cases x)
  case (DefBootEntry t l opts)
  then show ?thesis
    using assms
    by (cases l) (auto simp: strip_iff
        intro!: stripped_seq stripped_reduction stripped_reduction_blocks)
qed (use assms stripped_reductions [of "reductions_of x" a c net prog] in
    \<open>auto intro!: stripped_seq stripped_reduction stripped_reduction_blocks\<close>)

text \<open>
  The whole file: the parser with its counters computes what the specification computes with a
  flag.
\<close>

definition spec_config :: "netifs \<Rightarrow> prog \<Rightarrow> config_tree \<Rightarrow> parser_context \<Rightarrow> parser_context act" where
  "spec_config net prog ds c = spec_blocks (spec_def net prog) net True ds c"

lemma config_refines:
  assumes "nest_blocks nest_def ds < 999" and "strip True c = c"
  shows "exec_reductions net prog (config_reductions ds) c = spec_config net prog ds c"
proof -
  have a: "is_active c" using assms(2) is_active_strip [of True c] by simp
  have "fits c (nest_blocks nest_def ds)"
    using assms by (simp add: fits_def strip_iff MAX_SYSTEM_DEPTH_def)
  then have "exec_reductions net prog (config_reductions ds) c
      = abind (spec_config net prog ds c) (\<lambda>d. aret (restore c d))"
    using blocks_refine(2) [of nest_def net prog reductions_of "spec_def net prog" c ds]
      statement_refines stripped_statement a assms(2)
    by (simp add: config_reductions_def spec_config_def)
  moreover have "stripped True (spec_config net prog ds c)"
    unfolding spec_config_def using stripped_statement assms(2) by (intro stripped_blocks)
  then have "abind (spec_config net prog ds c) (\<lambda>d. aret (restore c (strip True d)))
      = abind (spec_config net prog ds c) (\<lambda>d. aret (restore c d))"
    by (rule stripped_cong)
  moreover have "restore c (strip True d) = strip True d" for d
    using assms(2) by (simp only: strip_iff) (simp add: restore_def strip_def)
  ultimately show ?thesis
    using \<open>stripped True (spec_config net prog ds c)\<close>
      stripped_cong [of True "spec_config net prog ds c" aret] by simp
qed

declare aret_apply [simp]

end
