(* ===== verification/ParserLaws.thy ===== *)
theory ParserLaws
  imports Sections
begin

section \<open>Laws of the parser\<close>

text \<open>
  What a \<^verbatim>\<open>system\<close> condition means, that an inactive section does nothing, and that every
  reduction keeps the configuration well formed.
\<close>

subsection \<open>Conditions\<close>

text \<open>The values that \<^verbatim>\<open>/proc/sysinfo\<close> gives to an entry.\<close>

definition sysinfo_values :: "sys \<Rightarrow> string \<Rightarrow> string set" where
  "sysinfo_values s entry =
     {v. \<exists>c. file_at s SYSINFO_FILENAME = Some c \<and>
        (\<exists>input \<in> set (fgets_lines CFG_STR_MAX_LEN c). sysinfo_value entry input = Some v)}"

definition sysinfo_readable :: "sys \<Rightarrow> bool" where
  "sysinfo_readable s \<longleftrightarrow> file_at s SYSINFO_FILENAME \<noteq> None
     \<and> open_err (sys_fs s) SYSINFO_FILENAME = None \<and> bad (sys_fs s) SYSINFO_FILENAME = None"

definition named :: "sys \<Rightarrow> string \<Rightarrow> string \<Rightarrow> bool" where
  "named s entry v \<longleftrightarrow> (\<exists>w \<in> sysinfo_values s entry. strcasecmp_eq v w)"

text \<open>
  A hardware address is searched only among the interfaces the loop reaches; an identifier is not
  compared with anything, its text is taken for the value.
\<close>

fun id_holds :: "netifs \<Rightarrow> sys \<Rightarrow> systemid \<Rightarrow> bool" where
  "id_holds net s (UUID v) \<longleftrightarrow> v = ''true''"
| "id_holds net s (MAC v) \<longleftrightarrow> has_address net v"
| "id_holds net s (VMGUEST v) \<longleftrightarrow> named s VMGUEST_ENTRY v"
| "id_holds net s (VMGUEST_LPAR v w) \<longleftrightarrow> named s VMGUEST_ENTRY v \<and> named s LPAR_ENTRY w"
| "id_holds net s (LPAR w) \<longleftrightarrow> named s LPAR_ENTRY w"

fun system_holds :: "netifs \<Rightarrow> sys \<Rightarrow> systemlist \<Rightarrow> bool" where
  "system_holds net s (SystemId i) \<longleftrightarrow> id_holds net s i"
| "system_holds net s (SystemOr l i) \<longleftrightarrow> system_holds net s l \<or> id_holds net s i"
| "system_holds net s (SystemNot l) \<longleftrightarrow> \<not> system_holds net s l"

lemma sysinfo_test_readable:
  assumes "sysinfo_readable s"
  shows "parser_sysinfo_test entry v s = (Done (named s entry v), s)"
proof -
  from assms obtain c where c: "file_at s SYSINFO_FILENAME = Some c"
    and f: "fopen SYSINFO_FILENAME s = (Done (Some c), s)"
    using fopen_ok unfolding sysinfo_readable_def by blast
  then show ?thesis
    by (auto simp: parser_sysinfo_test_def named_def sysinfo_values_def split: option.splits)
qed

lemma truth_true [simp]: "truth b = ''true'' \<longleftrightarrow> b"
  by (simp add: truth_def)

lemma eval_systemid_readable:
  assumes "sysinfo_readable s"
  shows "\<exists>v. eval_systemid net i s = (Done v, s) \<and> (v = ''true'' \<longleftrightarrow> id_holds net s i)"
  by (cases i) (simp_all add: parser_vmguest_test_def parser_lpar_test_def nb_test_mac_iff
      sysinfo_test_readable [OF assms])

lemma eval_systemlist_readable:
  assumes "sysinfo_readable s"
  shows "\<exists>v. eval_systemlist net l s = (Done v, s) \<and> (v = ''true'' \<longleftrightarrow> system_holds net s l)"
proof (induction l)
  case (SystemId i)
  then show ?case using eval_systemid_readable [OF assms] by simp
next
  case (SystemOr l i)
  obtain b where "eval_systemid net i s = (Done b, s)" "b = ''true'' \<longleftrightarrow> id_holds net s i"
    using eval_systemid_readable [OF assms] by blast
  with SystemOr show ?case by auto
qed auto

text \<open>In any state a condition has a value, and evaluating it changes nothing but \<^verbatim>\<open>stderr\<close>.\<close>

definition only_stderr :: "sys \<Rightarrow> sys \<Rightarrow> bool" where
  "only_stderr s t \<longleftrightarrow> t = s\<lparr>sys_stderr := sys_stderr t\<rparr>"

lemma only_stderr_refl [simp]: "only_stderr s s"
  by (simp add: only_stderr_def)

lemma only_stderr_trans: "only_stderr s t \<Longrightarrow> only_stderr t u \<Longrightarrow> only_stderr s u"
  unfolding only_stderr_def by (metis sys.update_convs(5) sys.surjective sys.select_convs(5))

lemma sysinfo_test_Done: "\<exists>b t. parser_sysinfo_test entry v s = (Done b, t) \<and> only_stderr s t"
proof -
  obtain f where "fopen SYSINFO_FILENAME s = (Done f, s)"
    by (simp add: fopen_def open_file_def)
  then show ?thesis
    by (cases f) (auto simp: parser_sysinfo_test_def eprint_arg0_def only_stderr_def)
qed

lemma eval_systemid_Done: "\<exists>v t. eval_systemid net i s = (Done v, t) \<and> only_stderr s t"
proof (cases i)
  case (VMGUEST_LPAR v w)
  obtain b t where "parser_vmguest_test v s = (Done b, t)" "only_stderr s t"
    using sysinfo_test_Done unfolding parser_vmguest_test_def by blast
  moreover obtain d u where "parser_lpar_test w t = (Done d, u)" "only_stderr t u"
    using sysinfo_test_Done unfolding parser_lpar_test_def by blast
  ultimately show ?thesis using VMGUEST_LPAR by (auto intro: only_stderr_trans)
next
  case (VMGUEST v)
  then show ?thesis using sysinfo_test_Done [of VMGUEST_ENTRY v s]
    by (auto simp: parser_vmguest_test_def)
next
  case (LPAR v)
  then show ?thesis using sysinfo_test_Done [of LPAR_ENTRY v s]
    by (auto simp: parser_lpar_test_def)
qed simp_all

lemma eval_systemlist_Done: "\<exists>v t. eval_systemlist net l s = (Done v, t) \<and> only_stderr s t"
proof (induction l arbitrary: s)
  case (SystemId i)
  then show ?case using eval_systemid_Done by simp
next
  case (SystemOr l i)
  obtain a t where "eval_systemlist net l s = (Done a, t)" "only_stderr s t"
    using SystemOr by blast
  moreover obtain b u where "eval_systemid net i t = (Done b, u)" "only_stderr t u"
    using eval_systemid_Done by blast
  ultimately show ?case by (auto intro: only_stderr_trans)
next
  case (SystemNot l)
  then obtain a t where "eval_systemlist net l s = (Done a, t)" "only_stderr s t" by blast
  then show ?case by auto
qed

subsection \<open>Inactive sections\<close>

text \<open>The context has not changed but for the entry under construction and a timeout set to 0.\<close>

definition same_config :: "parser_context \<Rightarrow> parser_context \<Rightarrow> bool" where
  "same_config c d \<longleftrightarrow> pc_default d = pc_default c \<and> pc_args d = pc_args c
     \<and> (toplevel d)\<lparr>timeout := 0\<rparr> = (toplevel c)\<lparr>timeout := 0\<rparr>"

definition quiet :: "parser_context \<Rightarrow> parser_context act \<Rightarrow> bool" where
  "quiet c m \<longleftrightarrow> (\<forall>s. \<exists>d t. m s = (Done d, t) \<and> same_config c d \<and> strip False d = d
     \<and> only_stderr s t)"

lemma same_config_refl [simp]: "same_config c c"
  by (simp add: same_config_def)

lemma same_config_trans: "same_config c d \<Longrightarrow> same_config d e \<Longrightarrow> same_config c e"
  by (simp add: same_config_def)

lemma quiet_seq:
  assumes "quiet c m"
    and "\<And>d. same_config c d \<Longrightarrow> strip False d = d \<Longrightarrow> quiet d (f d)"
  shows "quiet c (abind m f)"
  unfolding quiet_def
proof
  fix s
  obtain d t where d: "m s = (Done d, t)" "same_config c d" "strip False d = d" "only_stderr s t"
    using assms(1) unfolding quiet_def by blast
  then obtain e u where "f d t = (Done e, u)" "same_config d e" "strip False e = e" "only_stderr t u"
    using assms(2) unfolding quiet_def by blast
  with d show "\<exists>e u. abind m f s = (Done e, u) \<and> same_config c e \<and> strip False e = e \<and> only_stderr s u"
    by (auto intro: same_config_trans only_stderr_trans)
qed

lemma quiet_from: "quiet d m \<Longrightarrow> same_config c d \<Longrightarrow> quiet c m"
  unfolding quiet_def by (meson same_config_trans)

definition ui_ok :: "parser_context \<Rightarrow> bool" where
  "ui_ok c \<longleftrightarrow> (\<exists>a u. pc_args c = Some a \<and> only_ui a = Some u)"

lemma ui_ok_same: "same_config c d \<Longrightarrow> ui_ok c \<Longrightarrow> ui_ok d"
  by (simp add: ui_ok_def same_config_def)

lemma ui_ok_uimode: "ui_ok c \<Longrightarrow> \<exists>u. parser_uimode c = Inr u"
  by (auto simp: ui_ok_def parser_uimode_def)

text \<open>The reductions of a file, without those of the kernel command line.\<close>

definition file_reduction :: "reduction \<Rightarrow> bool" where
  "file_reduction r \<longleftrightarrow> \<not> counter_reduction r
     \<and> (case r of RKernelNetparam _ \<Rightarrow> False | RKernelNet \<Rightarrow> False | RKsetDasd _ \<Rightarrow> False
        | RKsetQeth _ _ _ \<Rightarrow> False | RKsetZfcp _ _ _ \<Rightarrow> False | RKsetMod _ \<Rightarrow> False | _ \<Rightarrow> True)"

lemma quiet_reduction:
  assumes "file_reduction r" and c: "strip False c = c" and ui: "ui_ok c"
  shows "quiet c (exec_reduction net prog r c)"
  unfolding quiet_def
proof
  fix s
  have n: "\<not> is_active c" using is_active_strip [of False c] c by simp
  obtain u where u: "parser_uimode c = Inr u" using ui_ok_uimode [OF ui] by blast
  have "\<exists>d. exec_reduction net prog r c s = (Done d, s) \<and> same_config c d"
    using assms(1) n u
    by (cases r) (simp_all add: file_reduction_def when_setup_def same_config_def Let_def)
  then obtain d where d: "exec_reduction net prog r c s = (Done d, s)" "same_config c d" by blast
  have "\<not> counter_reduction r" using assms(1) by (simp add: file_reduction_def)
  from exec_reduction_keeps [OF this d(1)] c have "strip False d = d" by (simp add: strip_iff)
  with d show "\<exists>d t. exec_reduction net prog r c s = (Done d, t) \<and> same_config c d
      \<and> strip False d = d \<and> only_stderr s t" by auto
qed

lemma quiet_reductions:
  assumes "\<forall>r \<in> set rs. file_reduction r" and "strip False c = c" and "ui_ok c"
  shows "quiet c (exec_reductions net prog rs c)"
  using assms
proof (induction rs arbitrary: c)
  case Nil
  then show ?case by (simp add: quiet_def)
next
  case (Cons r rs)
  then show ?case by (auto intro!: quiet_seq quiet_reduction intro: ui_ok_same)
qed

lemma quiet_blocks:
  assumes "\<And>x c. strip False c = c \<Longrightarrow> ui_ok c \<Longrightarrow> quiet c (g False x c)"
  shows "strip False c = c \<Longrightarrow> ui_ok c \<Longrightarrow> \<not> a \<Longrightarrow> quiet c (spec_block g net a b c)"
    and "strip False c = c \<Longrightarrow> ui_ok c \<Longrightarrow> \<not> a \<Longrightarrow> quiet c (spec_blocks g net a bs c)"
  using assms
proof (induction g net a b c and g net a bs c rule: spec_block_spec_blocks.induct)
  case (2 g net a l bs c)
  have q: "quiet c (spec_blocks g net False bs c)"
    using 2 by simp
  show ?case unfolding quiet_def
  proof
    fix s
    obtain v t where v: "eval_systemlist net l s = (Done v, t)" "only_stderr s t"
      using eval_systemlist_Done by blast
    obtain d u where "spec_blocks g net False bs c t = (Done d, u)" "same_config c d"
        "strip False d = d" "only_stderr t u"
      using q unfolding quiet_def by blast
    with v 2(2,4) show "\<exists>d u. spec_block g net a (InSystem l bs) c s = (Done d, u)
        \<and> same_config c d \<and> strip False d = d \<and> only_stderr s u"
      by (auto intro: only_stderr_trans)
  qed
next
  case (3 g net a c)
  then show ?case by (simp add: quiet_def)
next
  case (4 g net a b bs c)
  then show ?case by (auto intro!: quiet_seq intro: ui_ok_same)
qed simp

lemma file_reduction_simps [simp]:
  "file_reduction (RDefault v)" "file_reduction (RTimeout v)" "file_reduction (RPassword v)"
  "file_reduction (RModparam p)" "file_reduction RSetupModule" "file_reduction (RSetupDasd v)"
  "file_reduction (RSetupQeth v w x)" "file_reduction (RSetupZfcp v w x)"
  "file_reduction (RNetparam n)" "file_reduction RNetwork" "file_reduction (RUserinterface v w)"
  "file_reduction (RUserinterfaceSsh v w)" "file_reduction (RExec v)" "file_reduction (RTitle v)"
  "file_reduction (RLabel v)" "file_reduction (ROption q)" "file_reduction RBootEntry"
  by (simp_all add: file_reduction_def)

lemma quiet_statement:
  assumes "strip False c = c" and "ui_ok c"
  shows "quiet c (spec_def net prog False x c)"
proof (cases x)
  case (DefBootEntry t l opts)
  have "quiet c (abind (spec_blocks (\<lambda>a p. exec_reduction net prog (ROption p)) net False opts
      (c\<lparr>bentry := b\<rparr>)) (exec_reduction net prog RBootEntry))" for b
  proof (rule quiet_from)
    show "same_config c (c\<lparr>bentry := b\<rparr>)" by (simp add: same_config_def)
    have "strip False (c\<lparr>bentry := b\<rparr>) = c\<lparr>bentry := b\<rparr>" "ui_ok (c\<lparr>bentry := b\<rparr>)"
      using assms by (simp_all add: strip_iff ui_ok_def)
    then show "quiet (c\<lparr>bentry := b\<rparr>) (abind (spec_blocks (\<lambda>a p. exec_reduction net prog (ROption p))
        net False opts (c\<lparr>bentry := b\<rparr>)) (exec_reduction net prog RBootEntry))"
      by (auto simp del: exec_reduction.simps intro!: quiet_seq quiet_reduction quiet_blocks
          intro: ui_ok_same)
  qed
  then show ?thesis using DefBootEntry by (cases l) simp_all
qed (use assms quiet_reductions [of "reductions_of x" c net prog] in
    \<open>auto intro!: quiet_seq quiet_reduction quiet_blocks intro: ui_ok_same\<close>)

lemma config_at_depth:
  assumes "fits c (nest_blocks nest_def ds)"
  shows "exec_reductions net prog (config_reductions ds) c
    = abind (spec_blocks (spec_def net prog) net (is_active c) ds (strip (is_active c) c))
        (\<lambda>d. aret (restore c d))"
  using blocks_refine(2) [of nest_def net prog reductions_of "spec_def net prog" c ds]
    statement_refines stripped_statement assms by (simp add: config_reductions_def)

lemma inactive_quiet:
  assumes "\<not> is_active c" and "ui_ok c"
  shows "\<exists>d t. exec_reductions net prog (config_reductions ds) c s = (Done d, t)
    \<and> same_config c d \<and> system_depth d = system_depth c
    \<and> system_first_inactive d = system_first_inactive c \<and> only_stderr s t"
proof -
  have f: "fits c (nest_blocks nest_def ds)"
    using assms(1) by (simp add: fits_def is_active_def parser_active_system_def split: if_splits)
  have "quiet (strip False c) (spec_blocks (spec_def net prog) net False ds (strip False c))"
    using assms(2) quiet_statement by (intro quiet_blocks) (simp_all add: ui_ok_def)
  then obtain d t where "spec_blocks (spec_def net prog) net False ds (strip False c) s = (Done d, t)"
    "same_config (strip False c) d" "only_stderr s t"
    unfolding quiet_def by blast
  then show ?thesis unfolding config_at_depth [OF f] using assms(1) by (simp add: same_config_def restore_def)
qed

text \<open>A section whose condition holds is its contents, one whose condition fails is nothing.\<close>

lemma true_section:
  assumes "fits c (Suc (nest_blocks nest_def bs))" and "is_active c"
    and "eval_systemlist net l s = (Done ''true'', t)"
  shows "exec_reductions net prog (config_reductions [InSystem l bs]) c s
    = exec_reductions net prog (config_reductions bs) c t"
proof -
  have f: "fits c (nest_blocks nest_def bs)" "fits c (nest_blocks nest_def [InSystem l bs])"
    using assms(1) by (auto simp: fits_def)
  show ?thesis
    unfolding config_at_depth [OF f(1)] config_at_depth [OF f(2)]
    using assms(2,3) by (simp add: abind_assoc Let_def del: aret_apply)
qed

lemma false_section:
  assumes "fits c (Suc (nest_blocks nest_def bs))" and "ui_ok c"
    and "eval_systemlist net l s = (Done v, t)" and "v \<noteq> ''true''"
  shows "\<exists>d u. exec_reductions net prog (config_reductions [InSystem l bs]) c s = (Done d, u)
    \<and> same_config c d \<and> system_depth d = system_depth c
    \<and> system_first_inactive d = system_first_inactive c \<and> only_stderr t u"
proof -
  have f: "fits c (nest_blocks nest_def [InSystem l bs])"
    using assms(1) by (auto simp: fits_def)
  have "quiet (strip False c) (spec_blocks (spec_def net prog) net False bs (strip False c))"
    using assms(2) quiet_statement by (intro quiet_blocks) (simp_all add: ui_ok_def)
  then obtain d u where d: "spec_blocks (spec_def net prog) net False bs (strip False c) t = (Done d, u)"
    "same_config (strip False c) d" "only_stderr t u"
    unfolding quiet_def by blast
  then show ?thesis
    unfolding config_at_depth [OF f] using assms(3,4)
    by (simp add: same_config_def Let_def restore_def)
qed
subsection \<open>Well-formed configurations\<close>

definition ctx_wf :: "parser_context \<Rightarrow> bool" where
  "ctx_wf c \<longleftrightarrow> cfg_wf (toplevel c) \<and> int32 (timeout (toplevel c))
     \<and> (\<forall>b \<in> set (bentry_list (toplevel c)). bentry_ints b)
     \<and> bentry_wf (bentry c) \<and> bentry_ints (bentry c) \<and> pc_default c \<noteq> None"

lemma bentry_ints_init [simp]: "bentry_ints cfg_bentry_init"
  by (simp add: bentry_ints_def cfg_bentry_init_def bentry_zero_def action_wf_def)

lemma ctx_wf_init [simp]: "ctx_wf parser_init"
  by (simp add: ctx_wf_def parser_init_def cfg_new_def) (simp add: cfg_init_def)

lemma set_option_wf:
  assumes "bentry_wf b" and "bentry_ints b"
  shows "bentry_wf (set_option p b)" and "bentry_ints (set_option p b)"
  using assms by (cases p; simp add: bentry_wf_def bentry_ints_def action_wf_def)+

lemma cfg_wf_updates [simp]:
  "cfg_wf (t\<lparr>timeout := i\<rparr>) = cfg_wf t" "cfg_wf (t\<lparr>boot_default := i\<rparr>) = cfg_wf t"
  "cfg_wf t \<Longrightarrow> cfg_wf (t\<lparr>password := Some p\<rparr>)"
  by (simp_all add: cfg_wf_def)

lemma cfg_add_userinterface_keeps:
  assumes "cfg_add_userinterface t u = Inr t'" and "cfg_wf t"
  shows "cfg_wf t'" and "timeout t' = timeout t" and "bentry_list t' = bentry_list t"
proof -
  from assms have w: "ui_wf u"
    by (cases "ui_module u"; cases "ui_cmdline u")
      (simp_all add: cfg_add_userinterface_def cfg_userinterface_initcopy_def
        cfg_userinterface_copy_def cfg_simps ui_wf_def)
  from cfg_add_userinterface_wf [OF assms(2) w] assms w
  show "cfg_wf t'" "timeout t' = timeout t" "bentry_list t' = bentry_list t"
    by (auto simp: cfg_wf_def)
qed

lemma add_ui_wf:
  assumes "add_ui m v c s = (Done d, t)" and "ctx_wf c"
  shows "ctx_wf d"
proof -
  from assms(1) obtain x where x: "d = c\<lparr>toplevel := x\<rparr>"
    and a: "cfg_add_userinterface (toplevel c)
      (cfg_userinterface_init\<lparr>ui_module := Some m, ui_cmdline := Some v\<rparr>) = Inr x"
    by (auto simp: add_ui_def abind_Done_iff lift_res_def split: sum.splits)
  from assms(2) have "cfg_wf (toplevel c)" by (simp add: ctx_wf_def)
  from cfg_add_userinterface_keeps [OF a this] assms(2) show ?thesis by (simp add: x ctx_wf_def)
qed

lemma sscanf_d_int32: "sscanf_d s = Inr (Some i) \<Longrightarrow> int32 i"
  by (auto simp: sscanf_d_def c_int_def Let_def split: prod.splits if_splits)

lemma lift_res_Done_iff: "lift_res r s = (Done x, t) \<longleftrightarrow> r = Inr x \<and> t = s"
  by (cases r) auto

lemma system_fields [simp]:
  "toplevel (parser_enter_system a c) = toplevel c" "bentry (parser_enter_system a c) = bentry c"
  "pc_default (parser_enter_system a c) = pc_default c"
  "toplevel (parser_exit_system c) = toplevel c" "bentry (parser_exit_system c) = bentry c"
  "pc_default (parser_exit_system c) = pc_default c"
  "pc_args (parser_enter_system a c) = pc_args c" "pc_args (parser_exit_system c) = pc_args c"
  "pc_uri (parser_enter_system a c) = pc_uri c" "pc_uri (parser_exit_system c) = pc_uri c"
  by (simp_all add: parser_enter_system_def parser_exit_system_def Let_def)

lemma exec_reduction_wf:
  assumes "exec_reduction net prog r c s = (Done d, t)" and "ctx_wf c"
  shows "ctx_wf d"
proof (cases r)
  case (RTimeout v)
  from assms(1) RTimeout obtain u where u: "parser_uimode c = Inr u"
    by (cases "parser_uimode c") simp_all
  show ?thesis
  proof (cases "u \<noteq> None \<or> \<not> is_active c")
    case True
    with assms RTimeout u show ?thesis by (auto simp: ctx_wf_def)
  next
    case False
    with assms(1) RTimeout u obtain r where "sscanf_d v = Inr r"
      by (cases "sscanf_d v") simp_all
    with False assms RTimeout u show ?thesis
      by (cases r) (auto simp: ctx_wf_def dest: sscanf_d_int32)
  qed
next
  case (ROption p)
  with assms show ?thesis by (auto simp: ctx_wf_def set_option_wf split: if_splits)
next
  case RBootEntry
  from assms(2) have w: "cfg_wf (toplevel c)" "bentry_wf (bentry c)" "bentry_ints (bentry c)"
    by (simp_all add: ctx_wf_def)
  then have "cfg_wf ((toplevel c)\<lparr>bentry_list := bentry_list (toplevel c) @ [bentry c],
      bentry_count := bentry_count (toplevel c) + 1\<rparr>)"
    by (simp add: cfg_wf_def ball_Un)
  with w RBootEntry assms show ?thesis
    by (cases "is_active c") (simp_all add: cfg_add_bentry_wf ctx_wf_def ball_Un, auto)
next
  case (RUserinterface m v)
  with assms show ?thesis
    by (auto simp: abind_Done_iff lift_res_Done_iff split: if_splits intro: add_ui_wf)
next
  case (RUserinterfaceSsh m v)
  with assms show ?thesis
    by (auto simp: abind_Done_iff lift_res_Done_iff split: if_splits intro: add_ui_wf)
next
  case (RSystem l)
  with assms show ?thesis
    by (auto simp: abind_Done_iff ctx_wf_def)
next
  case RExitSystem
  with assms show ?thesis by (auto simp: ctx_wf_def)
qed (use assms in \<open>auto simp: abind_Done_iff ctx_wf_def bentry_wf_def bentry_ints_def enable_net_def
      split: if_splits\<close>)

end
