(* ===== verification/ParseSysload.thy ===== *)
theory ParseSysload
  imports ParserLaws
begin

section \<open>Parsing configuration files, boot entries and arguments\<close>

text \<open>
  Models the rest of \<^verbatim>\<open>core/parser_sysload.c\<close> and \<^verbatim>\<open>core/parser.c\<close>, and the actions of the
  scanner \<^verbatim>\<open>core/sysload.conf.l\<close>: line numbers, unrecognized characters, and the stack of
  include files. The pattern matching of the scanner and the automaton of the parser are
  generated by flex and bison; they are the fields of the record \<open>grammar\<close>. The matching of every
  text begins in the initial start condition.
\<close>

subsection \<open>Scanner and automaton\<close>

text \<open>
  \<open>Token t s\<close> is a token with its text \<^verbatim>\<open>yytext\<close>, \<open>IncludeUri\<close> an include line, \<open>Newline\<close> the end of a
  line. \<open>g_step\<close> takes the next token: the reductions performed before the token after it is
  needed, and the new state of the automaton or the message of a syntax error; \<open>g_finish\<close> is the
  same at the end of the input.
\<close>

datatype 't lexeme = Token 't string | Unrecognized string | Newline | IncludeUri string

record ('t, 'p) grammar =
  g_lex :: "string \<Rightarrow> 't lexeme list"
  g_unrecognized :: 't
  g_start :: 'p
  g_step :: "'p \<Rightarrow> 't \<Rightarrow> reduction list \<times> (string + 'p)"
  g_finish :: "'p \<Rightarrow> reduction list \<times> string option"

text \<open>
  The variables of the scanner that live between two calls of \<^verbatim>\<open>yyparse\<close>: the saved buffers of
  the include stack with their line numbers, and \<^verbatim>\<open>lineno\<close>. The length of the stack is \<^verbatim>\<open>top\<close>.
\<close>

type_synonym 't incl_stack = "('t lexeme list \<times> nat) list"
type_synonym 't scan_state = "'t incl_stack \<times> nat"

definition scan_init :: "'t scan_state" where "scan_init = ([], 1)"

definition MAX_INCL_DEPTH :: nat where "MAX_INCL_DEPTH = 20"

definition URI_TEMP_FILENAME :: "nat \<Rightarrow> string" where
  "URI_TEMP_FILENAME n = ''/tmp/sysloadparser-'' @ printf_d (int n) @ ''.cfg''"

definition open_incl_uri :: "prog \<Rightarrow> string \<Rightarrow> string \<Rightarrow> string option act" where
  "open_incl_uri prog uri localname =
     abind (comp_load prog localname uri) (\<lambda>(rc, info, errmsg).
     if rc \<noteq> 0 then
       abind (eprint (case errmsg of None \<Rightarrow> ''error while opening URI''
                      | Some m \<Rightarrow> ''unable to open URI - '' @ m)) (\<lambda>_. aret None)
     else abind (open_file localname) (\<lambda>f.
       case f of
         Inl e \<Rightarrow> abind (eprint (''unable to open local URI copy '' @ in_quotes localname @ '' - '' @ e))
           (\<lambda>_. aret None)
       | Inr fd \<Rightarrow> aret (Some (stream_data fd))))"

text \<open>
  \<^verbatim>\<open>yyerror\<close> prints its message with the message itself as the format: a percent sign in it makes
  \<^verbatim>\<open>fprintf\<close> read arguments that were not passed.
\<close>

definition yyerror :: "string \<Rightarrow> string \<Rightarrow> nat \<Rightarrow> parser_context \<Rightarrow> parser_context act" where
  "yyerror msg yytext lineno c =
     (let tmpstr = ''uri:???URI???:'' @ msg @ '' near symbol '' @ in_quotes yytext @ '' in line ''
        @ printf_d (int lineno) @ [nl]
      in if CHR ''%'' \<in> set tmpstr then bad_act Uninitialized
         else abind (eprint tmpstr) (\<lambda>_. aret (parser_set_errmsg c tmpstr)))"

subsection \<open>Running the parser\<close>

text \<open>One token is given to the automaton; None is a syntax error, which has been reported.\<close>

definition feed ::
  "netifs \<Rightarrow> prog \<Rightarrow> reduction list \<times> (string + 'p) \<Rightarrow> string \<Rightarrow> nat \<Rightarrow> parser_context
   \<Rightarrow> ('p option \<times> parser_context) act" where
  "feed net prog r yytext lineno c =
     abind (exec_reductions net prog (fst r) c) (\<lambda>c.
       case snd r of
         Inl msg \<Rightarrow> abind (yyerror msg yytext lineno c) (\<lambda>c. aret (None, c))
       | Inr p \<Rightarrow> aret (Some p, c))"

text \<open>
  The lexemes of one text. The result is the state of the automaton at the end of the text, or,
  after a syntax error, the buffers that are left on the include stack; and the line number.
\<close>

function run_lexemes ::
  "('t, 'p) grammar \<Rightarrow> netifs \<Rightarrow> prog \<Rightarrow> nat \<Rightarrow> 'p \<Rightarrow> nat \<Rightarrow> 't lexeme list \<Rightarrow> parser_context
   \<Rightarrow> (('t incl_stack + 'p) \<times> nat \<times> parser_context) act"
where
  "run_lexemes g net prog depth p lineno [] c = aret (Inr p, lineno, c)"
| "run_lexemes g net prog depth p lineno (Newline # ls) c =
     run_lexemes g net prog depth p (lineno + 1) ls c"
| "run_lexemes g net prog depth p lineno (Token t yytext # ls) c =
     abind (feed net prog (g_step g p t) yytext lineno c) (\<lambda>(q, c).
       case q of
         None \<Rightarrow> aret (Inl [], lineno, c)
       | Some q \<Rightarrow> run_lexemes g net prog depth q lineno ls c)"
| "run_lexemes g net prog depth p lineno (Unrecognized yytext # ls) c =
     abind (eprint (''unrecognized character '' @ in_quotes yytext @ [nl])) (\<lambda>_.
     abind (feed net prog (g_step g p (g_unrecognized g)) yytext lineno c) (\<lambda>(q, c).
       case q of
         None \<Rightarrow> aret (Inl [], lineno, c)
       | Some q \<Rightarrow> run_lexemes g net prog depth q lineno ls c))"
| "run_lexemes g net prog depth p lineno (IncludeUri uri # ls) c =
     (if MAX_INCL_DEPTH \<le> depth then run_lexemes g net prog depth p lineno ls c
      else if parser_active_system c \<noteq> PA_ACTIVE then run_lexemes g net prog depth p lineno ls c
      else abind (open_incl_uri prog uri (URI_TEMP_FILENAME depth)) (\<lambda>f.
        case f of
          None \<Rightarrow> run_lexemes g net prog depth p lineno ls c
        | Some content \<Rightarrow>
            abind (run_lexemes g net prog (Suc depth) p 1 (g_lex g content) c) (\<lambda>(r, l, c).
              case r of
                Inl saved \<Rightarrow> aret (Inl (saved @ [(ls, lineno)]), l, c)
              | Inr q \<Rightarrow> run_lexemes g net prog depth q lineno ls c)))"
  by pat_completeness auto
termination
  by (relation "measures [\<lambda>(_, _, _, depth, _, _, _, _). MAX_INCL_DEPTH - depth,
      \<lambda>(_, _, _, _, _, _, ls, _). length ls]") auto

text \<open>
  At the end of a text the scanner goes on with the buffer on top of the include stack. After a
  syntax error in an include file the stack is not empty when the next \<^verbatim>\<open>yyparse\<close> begins.
\<close>

fun run_saved ::
  "('t, 'p) grammar \<Rightarrow> netifs \<Rightarrow> prog \<Rightarrow> 't incl_stack \<Rightarrow> ('t incl_stack + 'p) \<times> nat \<times> parser_context
   \<Rightarrow> (bool \<times> 't scan_state \<times> parser_context) act"
where
  "run_saved g net prog stack (Inl saved, lineno, c) = aret (False, (saved @ stack, lineno), c)"
| "run_saved g net prog [] (Inr p, lineno, c) =
     abind (feed net prog (case g_finish g p of (rs, None) \<Rightarrow> (rs, Inr ())
         | (rs, Some msg) \<Rightarrow> (rs, Inl msg)) [] lineno c)
       (\<lambda>(q, c). aret (q \<noteq> None, ([], lineno), c))"
| "run_saved g net prog ((ls, lineno) # stack) (Inr p, _, c) =
     abind (run_lexemes g net prog (length stack) p lineno ls c) (run_saved g net prog stack)"

definition yyparse ::
  "('t, 'p) grammar \<Rightarrow> netifs \<Rightarrow> prog \<Rightarrow> string \<Rightarrow> 't scan_state \<Rightarrow> parser_context
   \<Rightarrow> (bool \<times> 't scan_state \<times> parser_context) act" where
  "yyparse g net prog text s c =
     abind (run_lexemes g net prog (length (fst s)) (g_start g) (snd s) (g_lex g text) c)
       (run_saved g net prog (fst s))"

subsection \<open>The configuration file\<close>

definition parser_open_incl_uri ::
  "prog \<Rightarrow> string \<Rightarrow> parser_context \<Rightarrow> (bool \<times> parser_context) act" where
  "parser_open_incl_uri prog uri c =
     (let name = URI_TEMP_FILENAME 999; c = c\<lparr>pc_filename := Some name\<rparr> in
      abind (comp_load prog name uri) (\<lambda>(rc, info, errmsg).
      if rc \<noteq> 0 then
        aret (False, parser_set_errmsg c (case errmsg of None \<Rightarrow> ''error while opening URI''
          | Some m \<Rightarrow> ''unable to open URI - '' @ m))
      else abind (open_file name) (\<lambda>f.
        case f of
          Inl e \<Rightarrow> aret (False, parser_set_errmsg c
            (''unable to open local URI copy '' @ in_quotes name @ '' - '' @ e))
        | Inr fd \<Rightarrow> aret (True, c\<lparr>pc_file := Some (stream_data fd), pc_uri := Some uri\<rparr>))))"

definition parse_global ::
  "('t, 'p) grammar \<Rightarrow> netifs \<Rightarrow> prog \<Rightarrow> 't scan_state \<Rightarrow> cfg_toplevel \<Rightarrow> parser_context
   \<Rightarrow> (bool \<times> 't scan_state \<times> parser_context) act" where
  "parse_global g net prog sc config c =
     (case pc_file c of
        None \<Rightarrow> bad_act NullDeref
      | Some text \<Rightarrow> yyparse g net prog text sc (c\<lparr>toplevel := config\<rparr>))"

fun find_label :: "string \<Rightarrow> cfg_bentry list \<Rightarrow> nat \<Rightarrow> nat option c_res" where
  "find_label d [] idx = Inr None"
| "find_label d (b # bs) idx =
     (case label b of
        None \<Rightarrow> Inl NullDeref
      | Some l \<Rightarrow> if d = l then Inr (Some idx) else find_label d bs (idx + 1))"

definition resolve_label :: "string \<Rightarrow> cfg_toplevel \<Rightarrow> (string + cfg_toplevel) c_res" where
  "resolve_label d config =
     ebind (find_label d (take (bentry_count config) (bentry_list config)) 0) (\<lambda>r.
       Inr (case r of
          None \<Rightarrow> Inl ''Invalid default boot label.''
        | Some idx \<Rightarrow> Inr (config\<lparr>boot_default := int idx\<rparr>)))"

definition resolve_default :: "string \<Rightarrow> cfg_toplevel \<Rightarrow> (string + cfg_toplevel) c_res" where
  "resolve_default d config =
     (if strspn d ''0123456789'' = length d then
        ebind (sscanf_d d) (\<lambda>r.
          case r of
            None \<Rightarrow> resolve_label d config
          | Some idx \<Rightarrow>
              if idx < 0 \<or> int (bentry_count config) \<le> idx
              then Inr (Inl ''Invalid default boot index.'')
              else Inr (Inr (config\<lparr>boot_default := idx\<rparr>)))
      else resolve_label d config)"

definition parse_sysload ::
  "('t, 'p) grammar \<Rightarrow> netifs \<Rightarrow> prog \<Rightarrow> 't scan_state \<Rightarrow> sysload_arguments
   \<Rightarrow> (string option \<times> 't scan_state \<times> cfg_toplevel) act" where
  "parse_sysload g net prog sc args =
     (let config = cfg_init; c = parser_init\<lparr>pc_args := Some args\<rparr> in
      case config_uri args of None \<Rightarrow> bad_act NullDeref
      | Some uri \<Rightarrow>
        abind (parser_open_incl_uri prog uri c) (\<lambda>(ok, c).
        if \<not> ok
        then aret (Some (''Error accessing config file '' @ in_quotes uri @ '': '' @ str_arg (pc_errmsg c)),
               sc, config)
        else abind (parse_global g net prog sc config c) (\<lambda>(ok, sc, c).
        if \<not> ok
        then aret (Some (''Error parsing config URI '' @ in_quotes (str_arg (pc_uri c)) @ '': ''
               @ str_arg (pc_errmsg c)), sc, toplevel c)
        else case pc_default c of None \<Rightarrow> bad_act NullDeref
        | Some d \<Rightarrow>
          abind (lift_res (resolve_default d (toplevel c))) (\<lambda>r.
          case r of
            Inl m \<Rightarrow> aret (Some m, sc, toplevel c)
          | Inr config \<Rightarrow> aret (None, sc, config)))))"

subsection \<open>Boot entries and kernel arguments\<close>

text \<open>
  A boot entry that a user interface has sent. The arguments are NULL; without an entry in the
  text the list is NULL.
\<close>

definition parse_sysload_boot_entry ::
  "('t, 'p) grammar \<Rightarrow> netifs \<Rightarrow> prog \<Rightarrow> 't scan_state \<Rightarrow> string
   \<Rightarrow> (string option \<times> 't scan_state \<times> cfg_bentry) act" where
  "parse_sysload_boot_entry g net prog sc str =
     abind (yyparse g net prog str sc (parser_init\<lparr>toplevel := cfg_new\<rparr>)) (\<lambda>(ok, sc, c).
       if ok then
         (case bentry_list (toplevel c) of
            [] \<Rightarrow> bad_act NullDeref
          | b # _ \<Rightarrow> abind (lift_res (cfg_bentry_copy cfg_bentry_init b)) (\<lambda>b. aret (None, sc, b)))
       else aret (Some ''Error parsing boot entry.'', sc, cfg_bentry_init))"

definition parse_kernel_argument ::
  "('t, 'p) grammar \<Rightarrow> netifs \<Rightarrow> prog \<Rightarrow> string \<Rightarrow> 't scan_state \<Rightarrow> 't scan_state act" where
  "parse_kernel_argument g net prog karg sc =
     abind (yyparse g net prog karg sc (parser_init\<lparr>toplevel := cfg_new\<rparr>)) (\<lambda>(ok, sc, c). aret sc)"

definition blanks :: string where
  "blanks = '' '' @ [CHR 9, nl]"

text \<open>
  The words that start with a pattern; the length of a word is at least that of the pattern,
  which is not empty.
\<close>

lemma strcspn_le: "strcspn s r \<le> length s"
  by (simp add: strcspn_def length_takeWhile_le)

function kernel_params :: "string \<Rightarrow> string \<Rightarrow> string list" where
  "kernel_params pat pos =
     (case strstr pos pat of
        None \<Rightarrow> []
      | Some p \<Rightarrow>
          let paramlen = strcspn p blanks in
          if paramlen = 0 then [] else take paramlen p # kernel_params pat (drop paramlen p))"
  by pat_completeness auto
termination
proof (relation "measure (\<lambda>(_, pos). length pos)")
  fix pat pos p x assume "strstr pos pat = Some p" "x = strcspn p blanks" "x \<noteq> 0"
  moreover from this have "length p \<le> length pos" using strstr_suffix by blast
  ultimately show "((pat, drop x p), pat, pos) \<in> measure (\<lambda>(_, pos). length pos)"
    using strcspn_le [of p blanks] by simp
qed simp

declare kernel_params.simps [simp del]

fun act_fold :: "('a \<Rightarrow> 'b \<Rightarrow> 'b act) \<Rightarrow> 'a list \<Rightarrow> 'b \<Rightarrow> 'b act" where
  "act_fold f [] x = aret x"
| "act_fold f (a # as) x = abind (f a x) (act_fold f as)"

definition CMDLINE_FILENAME :: string where "CMDLINE_FILENAME = ''/proc/cmdline''"

definition parse_kernel_cmdline ::
  "('t, 'p) grammar \<Rightarrow> netifs \<Rightarrow> prog \<Rightarrow> 't scan_state \<Rightarrow> 't scan_state act" where
  "parse_kernel_cmdline g net prog sc =
     abind (fopen CMDLINE_FILENAME) (\<lambda>f.
       case f of
         None \<Rightarrow> abind (eprint_arg0 ('': fopen not possible for '' @ CMDLINE_FILENAME @ [nl])) (\<lambda>_. aret sc)
       | Some content \<Rightarrow>
           act_fold (\<lambda>input sc.
             abind (act_fold (parse_kernel_argument g net prog) (kernel_params ''kset='' (cstr input)) sc)
               (act_fold (parse_kernel_argument g net prog) (kernel_params ''knet='' (cstr input))))
             (fgets_lines CFG_STR_MAX_LEN content) sc)"

subsection \<open>The arguments of the program\<close>

datatype parse_result = PA_VALID | PA_DONE | PA_ERROR

text \<open>
  \<^verbatim>\<open>getopt\<close> with the option string \<^verbatim>\<open>ou:vh\<close>: \<open>cl\<close> is the rest of the current group of option
  letters, \<open>non\<close> collects the other arguments, which \<^verbatim>\<open>getopt\<close> moves behind the options. The letter
  \<^verbatim>\<open>o\<close> takes no argument, so \<^verbatim>\<open>optarg\<close> is NULL when it is copied. Unknown letters and a missing
  argument are reported by \<^verbatim>\<open>getopt\<close>, and the loop goes on.
\<close>

definition finish_arguments ::
  "string list \<Rightarrow> sysload_arguments \<Rightarrow> (parse_result \<times> sysload_arguments) act" where
  "finish_arguments non a =
     (case non of
        [uri] \<Rightarrow> aret (PA_VALID, a\<lparr>config_uri := Some uri\<rparr>)
      | _ \<Rightarrow> abind (query sys_arg0) (\<lambda>arg.
          abind (eprint_arg0 ('': invalid argument(s). Try `'' @ arg @ '' -h'' @ [CHR 0x27]
            @ '' for more information.'' @ [nl])) (\<lambda>_. aret (PA_ERROR, a))))"

function getopt_loop ::
  "string \<Rightarrow> string list \<Rightarrow> string list \<Rightarrow> sysload_arguments \<Rightarrow> (parse_result \<times> sysload_arguments) act"
where
  "getopt_loop [] [] non a = finish_arguments non a"
| "getopt_loop [] (x # xs) non a =
     (if x = ''--'' then finish_arguments (non @ xs) a
      else if 1 < length x \<and> hd x = CHR ''-'' then getopt_loop (tl x) xs non a
      else getopt_loop [] xs (non @ [x]) a)"
| "getopt_loop (c # cl) xs non a =
     (if c = CHR ''o'' then bad_act NullDeref
      else if c = CHR ''u'' then
        (if cl \<noteq> [] then getopt_loop [] xs non (a\<lparr>only_ui := Some cl\<rparr>)
         else (case xs of
             [] \<Rightarrow> abind (eprint_arg0 ('': option requires an argument -- '' @ in_quotes [c] @ [nl]))
               (\<lambda>_. getopt_loop [] [] non a)
           | v # ys \<Rightarrow> getopt_loop [] ys non (a\<lparr>only_ui := Some v\<rparr>)))
      else if c = CHR ''v'' \<or> c = CHR ''h'' then aret (PA_DONE, a)
      else abind (eprint_arg0 ('': invalid option -- '' @ in_quotes [c] @ [nl]))
             (\<lambda>_. getopt_loop cl xs non a))"
  by pat_completeness auto
termination
  by (relation "measures [\<lambda>(cl, xs, _, _). length (concat xs) + length xs + length cl]")
    (auto split: list.splits)

definition parse_arguments :: "string list \<Rightarrow> (parse_result \<times> sysload_arguments) act" where
  "parse_arguments argv =
     getopt_loop [] (drop 1 argv) []
       \<lparr>config_uri = cfg_strinit, console = cfg_strinit, only_ui = cfg_strinit\<rparr>"

subsection \<open>What the parser guarantees\<close>

lemma yyerror_wf: "yyerror msg tok ln c s = (Done d, t) \<Longrightarrow> ctx_wf c \<Longrightarrow> ctx_wf d"
  by (auto simp: yyerror_def eprint_def parser_set_errmsg_def ctx_wf_def Let_def split: if_splits)

lemma exec_reductions_wf:
  "exec_reductions net prog rs c s = (Done d, t) \<Longrightarrow> ctx_wf c \<Longrightarrow> ctx_wf d"
  by (induction rs arbitrary: c s) (auto simp: abind_Done_iff dest: exec_reduction_wf)

lemma feed_wf:
  assumes "feed net prog r yytext lineno c s = (Done (q, d), t)" and "ctx_wf c"
  shows "ctx_wf d"
proof -
  from assms(1) obtain e u where e: "exec_reductions net prog (fst r) c s = (Done e, u)"
    and d: "(case snd r of Inl msg \<Rightarrow> abind (yyerror msg yytext lineno e) (\<lambda>c. aret (None, c))
       | Inr p \<Rightarrow> aret (Some p, e)) u = (Done (q, d), t)"
    by (auto simp: feed_def abind_Done_iff)
  from exec_reductions_wf [OF e assms(2)] d show ?thesis
    by (cases "snd r") (auto simp: abind_Done_iff intro: yyerror_wf)
qed

lemma run_lexemes_wf:
  "run_lexemes g net prog depth p lineno ls c s = (Done (r, l, d), t) \<Longrightarrow> ctx_wf c \<Longrightarrow> ctx_wf d"
proof (induction g net prog depth p lineno ls c arbitrary: s r l d t rule: run_lexemes.induct)
  case (3 g net prog depth p lineno tok yytext ls c)
  then obtain q e u where f: "feed net prog (g_step g p tok) yytext lineno c s = (Done (q, e), u)"
    and n: "(case q of None \<Rightarrow> aret (Inl [], lineno, e)
       | Some q \<Rightarrow> run_lexemes g net prog depth q lineno ls e) u = (Done (r, l, d), t)"
    by (auto simp: abind_Done_iff)
  from feed_wf [OF f 3(3)] have wf: "ctx_wf e" .
  show ?case
  proof (cases q)
    case None
    with n wf show ?thesis by simp
  next
    case (Some p')
    with n have "run_lexemes g net prog depth p' lineno ls e u = (Done (r, l, d), t)" by simp
    from 3(1) [OF refl this wf] show ?thesis .
  qed
next
  case (4 g net prog depth p lineno yytext ls c)
  then obtain v q e u where
    f: "feed net prog (g_step g p (g_unrecognized g)) yytext lineno c v = (Done (q, e), u)"
    and n: "(case q of None \<Rightarrow> aret (Inl [], lineno, e)
       | Some q \<Rightarrow> run_lexemes g net prog depth q lineno ls e) u = (Done (r, l, d), t)"
    by (auto simp: abind_Done_iff)
  from feed_wf [OF f 4(3)] have wf: "ctx_wf e" .
  show ?case
  proof (cases q)
    case None
    with n wf show ?thesis by simp
  next
    case (Some p')
    with n have "run_lexemes g net prog depth p' lineno ls e u = (Done (r, l, d), t)" by simp
    from 4(1) [OF refl this wf] show ?thesis .
  qed
next
  case (5 g net prog depth p lineno uri ls c)
  show ?case
  proof (cases "MAX_INCL_DEPTH \<le> depth \<or> parser_active_system c \<noteq> PA_ACTIVE")
    case True
    with 5 show ?thesis by (auto split: if_splits)
  next
    case False
    then have act: "\<not> MAX_INCL_DEPTH \<le> depth" "\<not> parser_active_system c \<noteq> PA_ACTIVE" by auto
    from 5(6) act obtain f u where f: "(case f of
          None \<Rightarrow> run_lexemes g net prog depth p lineno ls c
        | Some content \<Rightarrow>
            abind (run_lexemes g net prog (Suc depth) p (Suc 0) (g_lex g content) c) (\<lambda>(r, l, c).
              case r of
                Inl saved \<Rightarrow> aret (Inl (saved @ [(ls, lineno)]), l, c)
              | Inr q \<Rightarrow> run_lexemes g net prog depth q lineno ls c)) u = (Done (r, l, d), t)"
      by (auto simp: abind_Done_iff)
    show ?thesis
    proof (cases f)
      case None
      with f have "run_lexemes g net prog depth p lineno ls c u = (Done (r, l, d), t)" by simp
      from 5(3) [OF act this 5(7)] show ?thesis .
    next
      case (Some content)
      with f obtain r' l' e v where
        e: "run_lexemes g net prog (Suc depth) p (Suc 0) (g_lex g content) c u = (Done (r', l', e), v)"
        and w: "(case r' of Inl saved \<Rightarrow> aret (Inl (saved @ [(ls, lineno)]), l', e)
              | Inr q \<Rightarrow> run_lexemes g net prog depth q lineno ls e) v = (Done (r, l, d), t)"
        by (auto simp: abind_Done_iff)
      have wf: "ctx_wf e" using 5(4) [OF act e [folded One_nat_def] 5(7)] .
      show ?thesis
      proof (cases r')
        case (Inl saved)
        with w wf show ?thesis by simp
      next
        case (Inr q)
        with w have "run_lexemes g net prog depth q lineno ls e v = (Done (r, l, d), t)" by simp
        from 5(5) [OF act refl this wf] show ?thesis .
      qed
    qed
  qed
qed simp_all

lemma run_saved_wf:
  "run_saved g net prog stack x s = (Done (ok, sc, d), t) \<Longrightarrow> ctx_wf (snd (snd x)) \<Longrightarrow> ctx_wf d"
proof (induction g net prog stack x arbitrary: s ok sc d t rule: run_saved.induct)
  case (2 g net prog p lineno c)
  then show ?case by (auto simp: abind_Done_iff intro: feed_wf)
next
  case (3 g net prog ls lineno stack p uu c)
  then obtain r l e u where e: "run_lexemes g net prog (length stack) p lineno ls c s = (Done (r, l, e), u)"
    and n: "run_saved g net prog stack (r, l, e) u = (Done (ok, sc, d), t)"
    by (auto simp: abind_Done_iff)
  from run_lexemes_wf [OF e] 3(3) have "ctx_wf e" by simp
  then show ?case using 3(1) [OF n] by simp
qed simp

lemma yyparse_wf:
  assumes "yyparse g net prog text sc c s = (Done (ok, sc', d), t)" and "ctx_wf c"
  shows "ctx_wf d"
proof -
  from assms(1) obtain x u where
    x: "run_lexemes g net prog (length (fst sc)) (g_start g) (snd sc) (g_lex g text) c s = (Done x, u)"
    and n: "run_saved g net prog (fst sc) x u = (Done (ok, sc', d), t)"
    by (auto simp: yyparse_def abind_Done_iff)
  obtain r l e where "x = (r, l, e)" by (cases x)
  with x have "ctx_wf (snd (snd x))" using run_lexemes_wf assms(2) by fastforce
  from run_saved_wf [OF n this] show ?thesis .
qed

text \<open>
  The reductions of a text without include lines and unrecognized characters, when the automaton
  accepts it: running the parser is running the reductions.
\<close>

fun read_lexemes :: "('t, 'p) grammar \<Rightarrow> 'p \<Rightarrow> 't lexeme list \<Rightarrow> (reduction list \<times> 'p) option" where
  "read_lexemes g p [] = Some ([], p)"
| "read_lexemes g p (Newline # ls) = read_lexemes g p ls"
| "read_lexemes g p (Token t yytext # ls) =
     (case g_step g p t of
        (rs, Inl msg) \<Rightarrow> None
      | (rs, Inr q) \<Rightarrow> map_option (apfst ((@) rs)) (read_lexemes g q ls))"
| "read_lexemes g p (l # ls) = None"

definition text_reductions :: "('t, 'p) grammar \<Rightarrow> string \<Rightarrow> reduction list option" where
  "text_reductions g text =
     (case read_lexemes g (g_start g) (g_lex g text) of
        None \<Rightarrow> None
      | Some (rs, p) \<Rightarrow>
          (case g_finish g p of (rs', None) \<Rightarrow> Some (rs @ rs') | (rs', Some msg) \<Rightarrow> None))"

definition newlines :: "'t lexeme list \<Rightarrow> nat" where
  "newlines ls = length (filter (\<lambda>l. l = Newline) ls)"

lemma newlines_Cons [simp]: "newlines (l # ls) = (if l = Newline then 1 else 0) + newlines ls"
  by (simp add: newlines_def)

lemma newlines_Nil [simp]: "newlines [] = 0"
  by (simp add: newlines_def)

lemma run_lexemes_read:
  "read_lexemes g p ls = Some (rs, q) \<Longrightarrow>
   run_lexemes g net prog depth p lineno ls c
     = abind (exec_reductions net prog rs c) (\<lambda>c. aret (Inr q, lineno + newlines ls, c))"
proof (induction g p ls arbitrary: rs lineno c rule: read_lexemes.induct)
  case (3 g p tok yytext ls)
  then obtain rs1 p' rs2 where s: "g_step g p tok = (rs1, Inr p')"
    and r: "read_lexemes g p' ls = Some (rs2, q)" and rs: "rs = rs1 @ rs2"
    by (auto split: prod.splits sum.splits)
  have "run_lexemes g net prog depth p' lineno ls
      = (\<lambda>c. abind (exec_reductions net prog rs2 c) (\<lambda>c. aret (Inr q, lineno + newlines ls, c)))"
    by (rule ext) (rule 3(1) [OF s [symmetric] refl r])
  then show ?case
    by (simp add: rs feed_def s exec_reductions_append abind_assoc del: aret_apply)
qed (auto simp del: aret_apply)

lemma yyparse_text:
  assumes "text_reductions g text = Some rs"
  shows "yyparse g net prog text ([], n) c
    = abind (exec_reductions net prog rs c) (\<lambda>c. aret (True, ([], n + newlines (g_lex g text)), c))"
proof -
  from assms obtain rs1 p rs2 where r: "read_lexemes g (g_start g) (g_lex g text) = Some (rs1, p)"
    and f: "g_finish g p = (rs2, None)" and rs: "rs = rs1 @ rs2"
    by (auto simp: text_reductions_def split: option.splits prod.splits)
  show ?thesis
    by (simp add: yyparse_def run_lexemes_read [OF r] abind_assoc f rs exec_reductions_append feed_def
        del: aret_apply)
qed

lemma find_label_eq:
  assumes "\<forall>b \<in> set bs. label b \<noteq> None"
  shows "find_label d bs i = Inr (map_option (\<lambda>k. i + k) (find_index (\<lambda>b. label b = Some d) bs))"
  using assms
  by (induction d bs i rule: find_label.induct)
    (auto simp: option.map_comp comp_def intro!: option.map_cong split: option.splits)

lemma find_index_less: "find_index P xs = Some i \<Longrightarrow> i < length xs"
  by (simp add: find_index_Some)

lemma resolve_label_wf:
  assumes "cfg_wf c"
  shows "resolve_label d c =
    Inr (case find_index (\<lambda>b. label b = Some d) (bentry_list c) of
      None \<Rightarrow> Inl ''Invalid default boot label.'' | Some i \<Rightarrow> Inr (c\<lparr>boot_default := int i\<rparr>))"
  using assms find_label_eq [of "bentry_list c" d 0]
  by (simp add: resolve_label_def cfg_wf_def bentry_wf_def split: option.splits)

lemma resolve_default_valid:
  assumes "cfg_wf c" and "resolve_default d c = Inr (Inr c')"
  shows "\<exists>i. c' = c\<lparr>boot_default := i\<rparr> \<and> 0 \<le> i \<and> i < int (bentry_count c)"
proof -
  have l: "\<exists>i. c' = c\<lparr>boot_default := i\<rparr> \<and> 0 \<le> i \<and> i < int (bentry_count c)"
    if "resolve_label d c = Inr (Inr c')"
    using that assms(1) find_index_less [of _ "bentry_list c"]
    by (auto simp: resolve_label_wf cfg_wf_def split: option.splits)
  show ?thesis
  proof (cases "strspn d ''0123456789'' = length d")
    case True
    with assms(2) obtain r where r: "sscanf_d d = Inr r"
      by (cases "sscanf_d d") (simp_all add: resolve_default_def)
    with True assms(2) l show ?thesis
      by (cases r) (auto simp: resolve_default_def split: if_splits)
  next
    case False
    with assms(2) l show ?thesis by (simp add: resolve_default_def)
  qed
qed

lemma parser_open_incl_uri_fields:
  assumes "parser_open_incl_uri prog uri c s = (Done (ok, d), t)"
  shows "bentry d = bentry c \<and> pc_default d = pc_default c"
proof -
  let ?name = "URI_TEMP_FILENAME 999"
  from assms obtain rc i m u where l: "comp_load prog ?name uri s = (Done (rc, i, m), u)"
    by (auto simp: parser_open_incl_uri_def Let_def abind_Done_iff)
  show ?thesis
  proof (cases "rc = 0")
    case True
    with assms l obtain f v where "open_file ?name u = (Done f, v)"
      by (auto simp: parser_open_incl_uri_def Let_def abind_Done_iff)
    with True assms l show ?thesis
      by (cases f) (auto simp: parser_open_incl_uri_def Let_def parser_set_errmsg_def)
  next
    case False
    with assms l show ?thesis
      by (auto simp: parser_open_incl_uri_def Let_def parser_set_errmsg_def)
  qed
qed

lemma parse_sysload_valid:
  assumes "parse_sysload g net prog sc args s = (Done (None, sc', cfg), t)"
  shows "cfg_wf cfg \<and> 0 \<le> boot_default cfg \<and> boot_default cfg < int (bentry_count cfg)
    \<and> int32 (timeout cfg) \<and> (\<forall>b \<in> set (bentry_list cfg). bentry_ints b)"
proof -
  from assms obtain uri where uri: "config_uri args = Some uri"
    by (cases "config_uri args") (simp_all add: parse_sysload_def Let_def)
  let ?c = "parser_init\<lparr>pc_args := Some args\<rparr>"
  from assms uri obtain ok c u where o: "parser_open_incl_uri prog uri ?c s = (Done (ok, c), u)"
    by (auto simp: parse_sysload_def Let_def abind_Done_iff)
  have ok: ok using assms uri o by (cases ok) (simp_all add: parse_sysload_def Let_def)
  have w: "ctx_wf (c\<lparr>toplevel := cfg_init\<rparr>)"
    using parser_open_incl_uri_fields [OF o] by (simp add: ctx_wf_def cfg_wf_def parser_init_def cfg_strinit_def cfg_init_def)
  from assms uri o ok obtain ok' sce d v where p: "parse_global g net prog sc cfg_init c u = (Done (ok', sce, d), v)"
    by (auto simp: parse_sysload_def Let_def abind_Done_iff)
  have ok': ok' using assms uri o ok p by (cases ok') (simp_all add: parse_sysload_def Let_def)
  from p obtain inp where "yyparse g net prog inp sc (c\<lparr>toplevel := cfg_init\<rparr>) u
      = (Done (ok', sce, d), v)"
    by (cases "pc_file c") (simp_all add: parse_global_def)
  then have d: "ctx_wf d" by (rule yyparse_wf [OF _ w])
  then obtain l where l: "pc_default d = Some l" by (auto simp: ctx_wf_def)
  from assms uri o ok p ok' l obtain r where r: "resolve_default l (toplevel d) = Inr r"
    and "(case r of Inl m \<Rightarrow> aret (Some m, sce, toplevel d) | Inr config \<Rightarrow> aret (None, sce, config)) v
      = (Done (None, sc', cfg), t)"
    by (auto simp: parse_sysload_def Let_def abind_Done_iff lift_res_Done_iff)
  then have "resolve_default l (toplevel d) = Inr (Inr cfg)" by (cases r) simp_all
  with d resolve_default_valid [of "toplevel d" l cfg] show ?thesis
    by (auto simp: ctx_wf_def)
qed

text \<open>A file without include lines: parsing it is the specification of its sections.\<close>

definition spec_parse ::
  "netifs \<Rightarrow> prog \<Rightarrow> config_tree \<Rightarrow> 't scan_state \<Rightarrow> parser_context
   \<Rightarrow> (string option \<times> 't scan_state \<times> cfg_toplevel) act" where
  "spec_parse net prog ds sc c =
     abind (spec_config net prog ds c) (\<lambda>d.
     abind (lift_res (resolve_default (str_arg (pc_default d)) (toplevel d))) (\<lambda>r.
       case r of Inl m \<Rightarrow> aret (Some m, sc, toplevel d) | Inr config \<Rightarrow> aret (None, sc, config)))"

definition opened :: "sysload_arguments \<Rightarrow> string \<Rightarrow> string \<Rightarrow> parser_context" where
  "opened args uri content =
     parser_init\<lparr>pc_args := Some args, pc_filename := Some (URI_TEMP_FILENAME 999),
       pc_file := Some content, pc_uri := Some uri, toplevel := cfg_init\<rparr>"

lemma opened_wf: "ctx_wf (opened args uri content)"
  by (simp add: opened_def ctx_wf_def cfg_wf_def parser_init_def cfg_strinit_def cfg_init_def)

lemma parse_sysload_tree:
  assumes "config_uri args = Some uri"
    and "comp_load prog (URI_TEMP_FILENAME 999) uri s = (Done (0, i, m), t)"
    and "open_file (URI_TEMP_FILENAME 999) t = (Done (Inr fd), u)"
    and "text_reductions g (stream_data fd) = Some (config_reductions ds)"
    and "nest_blocks nest_def ds < 999"
  shows "parse_sysload g net prog ([], n) args s
    = spec_parse net prog ds ([], n + newlines (g_lex g (stream_data fd)))
        (opened args uri (stream_data fd)) u"
proof -
  let ?c = "opened args uri (stream_data fd)"
  have o: "parser_open_incl_uri prog uri (parser_init\<lparr>pc_args := Some args\<rparr>) s
      = (Done (True, ?c\<lparr>toplevel := toplevel parser_init\<rparr>), u)"
    using assms(2,3) by (simp add: parser_open_incl_uri_def Let_def parser_init_def opened_def)
  have "strip True ?c = ?c" by (simp add: opened_def strip_iff parser_init_def)
  from config_refines [OF assms(5) this]
  have e: "exec_reductions net prog (config_reductions ds) ?c = spec_config net prog ds ?c" .
  have y: "parse_global g net prog ([], n) cfg_init (?c\<lparr>toplevel := toplevel parser_init\<rparr>)
      = abind (spec_config net prog ds ?c)
          (\<lambda>d. aret (True, ([], n + newlines (g_lex g (stream_data fd))), d))"
    using yyparse_text [OF assms(4), of net prog n ?c] e
    by (simp add: parse_global_def opened_def)
  show ?thesis
  proof (cases "spec_config net prog ds ?c u")
    case (Pair x v)
    show ?thesis
    proof (cases x)
      case (Done d)
      with Pair e have "ctx_wf d" using exec_reductions_wf opened_wf by metis
      then obtain l where "pc_default d = Some l" by (auto simp: ctx_wf_def)
      with assms(1) o y Pair Done show ?thesis
        by (simp add: parse_sysload_def spec_parse_def Let_def str_arg_def)
    next
      case Stopped
      with assms(1) o y Pair show ?thesis by (simp add: parse_sysload_def spec_parse_def Let_def)
    next
      case Spin
      with assms(1) o y Pair show ?thesis by (simp add: parse_sysload_def spec_parse_def Let_def)
    next
      case Bad
      with assms(1) o y Pair show ?thesis by (simp add: parse_sysload_def spec_parse_def Let_def)
    qed
  qed
qed

end
