(* ===== verification/SampleConfig.thy ===== *)
theory SampleConfig
  imports Samples ParseSysload
begin

section \<open>A sample configuration file\<close>

text \<open>
  A configuration with a section for one z/VM guest, the state of a machine that runs this guest,
  and a grammar whose lexemes carry the reductions: the tokens of the text \<open>''x''\<close>, which the
  sample loader module delivers, are the statements of the sample tree.
\<close>

definition sample_boot :: statement where
  "sample_boot = DefBootEntry ''Linux'' (Some ''linux'')
     [Plain (OptRoot ''ftp://host/''), Plain (OptKernel ''image'')]"

definition sample_tree :: config_tree where
  "sample_tree = [InSystem (SystemId (VMGUEST ''linux1'')) [Plain sample_boot],
     Plain (DefDefault ''linux'')]"

definition sample_grammar :: "(reduction list, unit) grammar" where
  "sample_grammar = \<lparr>g_lex = (\<lambda>text. if text = ''x''
       then [Token (config_reductions sample_tree) text, Newline] else []),
     g_unrecognized = [], g_start = (), g_step = (\<lambda>p rs. (rs, Inr p)), g_finish = (\<lambda>p. ([], None))\<rparr>"

definition sample_guest :: sys where
  "sample_guest = sample_sys\<lparr>sys_fs := (sys_fs sample_sys)
     \<lparr>files := (\<lambda>_. None)(SYSINFO_FILENAME := Some (''VM00 Name: LINUX1'' @ [nl]))\<rparr>\<rparr>"

definition sample_args :: sysload_arguments where
  "sample_args = \<lparr>config_uri = Some (sample_uri ''conf''), console = Some [], only_ui = Some []\<rparr>"

definition sample_net :: netifs where
  "sample_net = \<lparr>socket_ok = True, if_list = Some [(1, ''eth0'')],
     hwaddr = (\<lambda>_. Some [0, 17, 34, 51, 68, 85]), big_endian = True\<rparr>"

lemma sample_sysinfo: "sysinfo_readable sample_guest"
  by (simp add: sysinfo_readable_def sample_guest_def file_at_def)

lemma sample_text: "text_reductions sample_grammar ''x'' = Some (config_reductions sample_tree)"
  by (simp add: text_reductions_def sample_grammar_def)

lemma sample_newlines: "1 + newlines (g_lex sample_grammar ''x'') = 2"
  by (simp add: sample_grammar_def)

lemma sample_nest: "nest_blocks nest_def sample_tree = 1"
  by (simp add: sample_tree_def sample_boot_def)

lemma sample_condition: "named sample_guest VMGUEST_ENTRY ''linux1''"
proof -
  let ?line = "''VM00 Name: LINUX1'' @ [nl]"
  have "fgets_line CFG_STR_MAX_LEN ?line = ?line"
    by (simp add: fgets_line_def nl_def CFG_STR_MAX_LEN_def)
  then have "fgets_lines CFG_STR_MAX_LEN ?line = [?line]"
    by (simp add: fgets_lines.simps CFG_STR_MAX_LEN_def)
  moreover have "sysinfo_value VMGUEST_ENTRY ?line = Some ''LINUX1''"
    by (simp add: sysinfo_value_def VMGUEST_ENTRY_def cstr_def nl_def strncmp_eq_def strspn_def
        strcspn_def)
  moreover have "strcasecmp_eq ''linux1'' ''LINUX1''"
    by code_simp
  ultimately show ?thesis
    by (auto simp: named_def sysinfo_values_def sample_guest_def file_at_def)
qed

definition sample_entry :: cfg_bentry where
  "sample_entry = cfg_bentry_init\<lparr>title := Some ''Linux'', label := Some ''linux'',
     root := Some ''ftp://host/'', kernel := Some ''image'', action := KERNEL_BOOT\<rparr>"

definition sample_result :: cfg_toplevel where
  "sample_result = cfg_init\<lparr>boot_default := 0, bentry_list := [sample_entry], bentry_count := 1\<rparr>"

definition sample_top :: cfg_toplevel where
  "sample_top = cfg_init\<lparr>bentry_list := [sample_entry], bentry_count := 1\<rparr>"

lemma sample_add: "cfg_add_bentry cfg_init sample_entry = Inr sample_top"
  by (subst cfg_add_bentry_wf)
    (simp_all add: sample_top_def cfg_wf_def cfg_init_def sample_entry_def bentry_wf_def
      cfg_bentry_init_def cfg_strinit_def)

lemma sample_default: "resolve_default ''linux'' sample_top = Inr (Inr sample_result)"
  by (simp add: resolve_default_def resolve_label_def sample_result_def sample_entry_def strspn_def
      sample_top_def)

lemma sample_boot_spec:
  assumes "is_active c" and "bentry c = cfg_bentry_init" and "toplevel c = cfg_init"
  shows "spec_def net prog True sample_boot c s
    = (Done (c\<lparr>toplevel := sample_top, bentry := cfg_bentry_init\<rparr>), s)"
proof -
  have "set_option (OptKernel ''image'') (set_option (OptRoot ''ftp://host/'')
      (cfg_bentry_init\<lparr>title := Some ''Linux'', label := Some ''linux''\<rparr>)) = sample_entry"
    by (simp add: sample_entry_def)
  with assms sample_add show ?thesis by (simp add: sample_boot_def)
qed

lemma sample_spec:
  assumes "sysinfo_readable s" and "named s VMGUEST_ENTRY ''linux1''"
  shows "spec_parse net prog sample_tree sc (opened sample_args u x) s = (Done (None, sc, sample_result), s)"
proof -
  let ?c = "opened sample_args u x"
  have v: "parser_vmguest_test ''linux1'' s = (Done True, s)"
    using sysinfo_test_readable [OF assms(1)] assms(2) by (simp add: parser_vmguest_test_def)
  have c: "bentry (strip True ?c) = cfg_bentry_init" "toplevel (strip True ?c) = cfg_init"
    by (simp_all add: opened_def parser_init_def)
  have "spec_config net prog sample_tree ?c s = (Done (strip True
      ((strip True ?c)\<lparr>toplevel := sample_top, bentry := cfg_bentry_init\<rparr>)\<lparr>pc_default := Some ''linux''\<rparr>), s)"
    using v by (simp add: spec_config_def sample_tree_def truth_def sample_boot_spec [OF _ c])
  then show ?thesis using sample_default
    by (simp add: spec_parse_def str_arg_def)
qed

text \<open>The state after loading the file still describes the guest.\<close>

lemma sample_loaded:
  defines "t \<equiv> sample_load (URI_TEMP_FILENAME 999) ''conf'' sample_guest"
  shows "comp_load sample_prog (URI_TEMP_FILENAME 999) (sample_uri ''conf'') sample_guest
      = (Done (0, Some ''copied'', None), t)"
    and "\<exists>fd. open_file (URI_TEMP_FILENAME 999) t = (Done (Inr fd), t) \<and> stream_data fd = ''x''"
    and "sysinfo_readable t" and "named t VMGUEST_ENTRY ''linux1''"
proof -
  show "comp_load sample_prog (URI_TEMP_FILENAME 999) (sample_uri ''conf'') sample_guest
      = (Done (0, Some ''copied'', None), t)"
    unfolding t_def by (rule sample_comp_load) (simp add: sample_guest_def sample_sys_def)
  have o: "open_err (sys_fs t) p = None" "bad (sys_fs t) p = None" for p
    by (simp_all add: t_def sample_guest_def)
  have "file_at t (URI_TEMP_FILENAME 999) = Some ''x''" by (simp add: t_def)
  from open_file_ok [OF this o]
  show "\<exists>fd. open_file (URI_TEMP_FILENAME 999) t = (Done (Inr fd), t) \<and> stream_data fd = ''x''"
    by (auto simp: stream_data_good)
  have "URI_TEMP_FILENAME 999 \<noteq> SYSINFO_FILENAME"
    by (simp add: URI_TEMP_FILENAME_def SYSINFO_FILENAME_def)
  then have f: "file_at t SYSINFO_FILENAME = file_at sample_guest SYSINFO_FILENAME"
    by (simp add: t_def)
  with sample_sysinfo o show "sysinfo_readable t" by (simp add: sysinfo_readable_def)
  from f sample_condition show "named t VMGUEST_ENTRY ''linux1''"
    by (simp add: named_def sysinfo_values_def)
qed

lemma sample_parse:
  "\<exists>t. parse_sysload sample_grammar sample_net sample_prog scan_init sample_args sample_guest
     = (Done (None, ([], 2), sample_result), t)"
proof -
  let ?t = "sample_load (URI_TEMP_FILENAME 999) ''conf'' sample_guest"
  obtain fd where fd: "open_file (URI_TEMP_FILENAME 999) ?t = (Done (Inr fd), ?t)" "stream_data fd = ''x''"
    using sample_loaded(2) by blast
  have "config_uri sample_args = Some (sample_uri ''conf'')" by (simp add: sample_args_def)
  from parse_sysload_tree [OF this sample_loaded(1) fd(1), of sample_grammar sample_tree sample_net 1]
  show ?thesis
    using sample_text sample_nest fd(2)
    by (simp add: scan_init_def sample_newlines sample_spec [OF sample_loaded(3,4)] del: One_nat_def)
qed

end
