(* ===== verification/UiControl.thy ===== *)
theory UiControl
  imports ParseSysload
begin

section \<open>Controlling the user interfaces\<close>

text \<open>
  Models \<^verbatim>\<open>core/ui_control.c\<close>: starting the user interface modules as clients, waiting for their
  output, a signal or the timeout, and ending the clients that are left. What the kernel answers
  is a parameter: the outcome of every \<^verbatim>\<open>pipe\<close> and \<^verbatim>\<open>fork\<close>, the process identifiers \<^verbatim>\<open>waitpid\<close>
  returns, and for every turn of the loop the signals delivered before \<^verbatim>\<open>select\<close>, the processes
  that exist, and the result of \<^verbatim>\<open>select\<close> with what \<^verbatim>\<open>read\<close> returns. When the turns are used up
  \<^verbatim>\<open>select\<close> blocks for ever, the outcome \<open>Spin\<close>.
\<close>

subsection \<open>Clients\<close>

datatype ui_status = UI_RUNNING | UI_CLEAN_EXIT | UI_PROBLEM_EXIT

record ui_info =
  ui_pid :: int
  pipe_in :: int
  pipe_out :: int
  collected_str :: cptr
  ui_stat :: ui_status

datatype signal = SIGALRM | SIGUSR1 | SIGTERM | SIGKILL

text \<open>
  The state of \<^verbatim>\<open>userinterface\<close> and what it has done: the signals sent with \<^verbatim>\<open>kill\<close>, the calls of
  \<^verbatim>\<open>alarm\<close>, and the messages to \<^verbatim>\<open>syslog\<close>. \<open>rcvd_sig\<close> and the state of the scanner are static
  variables that survive the call.
\<close>

record 't ui_state =
  ui_clients :: "ui_info list"
  ui_kills :: "(int \<times> signal) list"
  ui_alarms :: "int list"
  ui_log :: "string list"
  rcvd_sig :: "signal option"
  ui_scan :: "'t scan_state"
  ui_boot :: cfg_bentry
  ui_config :: cfg_toplevel

definition log_ui :: "string \<Rightarrow> 't ui_state \<Rightarrow> 't ui_state" where
  "log_ui m st = st\<lparr>ui_log := ui_log st @ [m]\<rparr>"

text \<open>The results of \<^verbatim>\<open>waitpid\<close>: terminated children with their status, then 0 or -1.\<close>

type_synonym waits = "(int \<times> int) list \<times> int"

definition build_waitset :: "(int \<Rightarrow> bool) \<Rightarrow> ui_info list \<Rightarrow> int set" where
  "build_waitset alive cs = pipe_in ` {c \<in> set cs. alive (ui_pid c)}"

definition mark_terminated :: "int \<Rightarrow> int \<Rightarrow> ui_info list \<Rightarrow> ui_info list" where
  "mark_terminated pid status cs =
     map (\<lambda>c. if ui_pid c = pid
       then c\<lparr>ui_stat := (if exited_ok status then UI_CLEAN_EXIT else UI_PROBLEM_EXIT)\<rparr> else c) cs"

text \<open>The last result, 0 or -1, is compared with the clients too; it leaves \<^verbatim>\<open>status\<close> as it was.\<close>

fun remove_terminated :: "(int \<times> int) list \<Rightarrow> int \<Rightarrow> int \<Rightarrow> ui_info list \<Rightarrow> ui_info list" where
  "remove_terminated [] final status cs = mark_terminated final status cs"
| "remove_terminated ((pid, st) # ws) final status cs =
     (if 0 < pid then remove_terminated ws final st (mark_terminated pid st cs)
      else mark_terminated pid status cs)"

definition remove_terminated_clients :: "waits \<Rightarrow> 't ui_state \<Rightarrow> 't ui_state" where
  "remove_terminated_clients w st =
     st\<lparr>ui_clients := remove_terminated (fst w) (snd w) 0 (ui_clients st)\<rparr>"

definition ui_timeout :: "cfg_toplevel \<Rightarrow> cfg_bentry option c_res" where
  "ui_timeout config =
     (if boot_default config < 0 \<or> int (bentry_count config) \<le> boot_default config then Inr None
      else if length (bentry_list config) \<le> nat (boot_default config) then Inl OutOfBounds
      else ebind (cfg_bentry_copy cfg_bentry_init (bentry_list config ! nat (boot_default config)))
             (\<lambda>b. Inr (Some b)))"

definition read_from_client :: "cptr \<Rightarrow> string + string \<Rightarrow> (cptr \<times> string list) c_res" where
  "read_from_client collstr r =
     (case r of
        Inr input \<Rightarrow>
          ebind (cfg_strcat collstr (Some (cstr (take CFG_STR_MAX_LEN input)))) (\<lambda>s. Inr (s, []))
      | Inl e \<Rightarrow> Inr (collstr, [''error reading from pipe - '' @ e]))"

definition search_for_client :: "int \<Rightarrow> ui_info list \<Rightarrow> nat \<times> string list" where
  "search_for_client fd cs =
     (case find_index (\<lambda>c. pipe_in c = fd) cs of
        Some i \<Rightarrow> (i, []) | None \<Rightarrow> (0, [''client not found!'']))"

definition collect_input :: "int \<Rightarrow> string + string \<Rightarrow> waits \<Rightarrow> 't ui_state \<Rightarrow> (nat \<times> 't ui_state) c_res"
where
  "collect_input fd input w st =
     (let (cnr, msg) = search_for_client fd (ui_clients st); cs = ui_clients st in
      if length cs \<le> cnr then Inl OutOfBounds
      else ebind (read_from_client (collected_str (cs ! cnr)) input) (\<lambda>(collstr, msg').
        Inr (cnr, remove_terminated_clients w (st\<lparr>ui_log := ui_log st @ msg @ msg',
              ui_clients := cs[cnr := (cs ! cnr)\<lparr>collected_str := collstr\<rparr>]\<rparr>))))"

definition check_collected ::
  "('t, 'p) grammar \<Rightarrow> netifs \<Rightarrow> prog \<Rightarrow> nat \<Rightarrow> 't ui_state \<Rightarrow> (bool \<times> 't ui_state) act" where
  "check_collected g net prog cnr st =
     (if ui_stat (ui_clients st ! cnr) = UI_CLEAN_EXIT then
        (case collected_str (ui_clients st ! cnr) of
           None \<Rightarrow> bad_act NullDeref
         | Some str \<Rightarrow>
             abind (parse_sysload_boot_entry g net prog (ui_scan st) str) (\<lambda>(errmsg, sc, boot).
               case errmsg of
                 None \<Rightarrow> aret (True, st\<lparr>ui_scan := sc, ui_boot := boot\<rparr>)
               | Some m \<Rightarrow> aret (False, log_ui (''parse error in:'' @ str)
                   (st\<lparr>ui_scan := sc, ui_boot := boot\<rparr>))))
      else aret (False, st))"

definition check_input_from_client ::
  "('t, 'p) grammar \<Rightarrow> netifs \<Rightarrow> prog \<Rightarrow> int \<Rightarrow> string + string \<Rightarrow> waits \<Rightarrow> 't ui_state
   \<Rightarrow> (bool \<times> 't ui_state) act" where
  "check_input_from_client g net prog fd input w st =
     abind (lift_res (collect_input fd input w st)) (\<lambda>(cnr, st). check_collected g net prog cnr st)"

subsection \<open>Starting the clients\<close>

text \<open>
  What \<^verbatim>\<open>pipe\<close> and \<^verbatim>\<open>fork\<close> do for one client: the descriptors of the pipe, then an error, the process
  identifier in the parent, or 0 in the child, where \<^verbatim>\<open>execl\<close> replaces the process or fails.
\<close>

datatype ui_start =
  PipeFails string | ForkFails int int string | Parent int int int | Child int int "string option"

datatype select_result =
  Interrupted signal | SelectFailed string | Ready "(int \<times> (string + string) \<times> waits) list"

record ui_turn =
  turn_signals :: "signal list"
  turn_alive :: "int \<Rightarrow> bool"
  turn_select :: select_result

record ui_kernel =
  uk_malloc :: bool
  uk_start :: "nat \<Rightarrow> ui_start"
  uk_turns :: "ui_turn list"
  uk_term_waits :: waits
  uk_kill_waits :: waits

definition UI_MODULE_PATH :: string where "UI_MODULE_PATH = ''ui''"

definition ui_module_call :: "string \<Rightarrow> cfg_userinterface \<Rightarrow> string" where
  "ui_module_call path u = path @ ''/'' @ UI_MODULE_PATH @ ''/ui_'' @ str_arg (ui_module u)"

definition ui_module_argv :: "string \<Rightarrow> cfg_userinterface \<Rightarrow> string list" where
  "ui_module_argv path u =
     rev (takeWhile (\<lambda>c. c \<noteq> CHR ''/'') (rev (ui_module_call path u)))
     # (case ui_cmdline u of None \<Rightarrow> [] | Some c \<Rightarrow> [c])"

definition set_client :: "nat \<Rightarrow> (ui_info \<Rightarrow> ui_info) \<Rightarrow> 't ui_state \<Rightarrow> 't ui_state" where
  "set_client i f st = st\<lparr>ui_clients := (ui_clients st)[i := f (ui_clients st ! i)]\<rparr>"

text \<open>The result is whether all clients have been started; otherwise control goes to the clean up.\<close>

fun start_clients ::
  "ui_kernel \<Rightarrow> nat \<Rightarrow> cfg_userinterface list \<Rightarrow> 't ui_state \<Rightarrow> (bool \<times> 't ui_state) act" where
  "start_clients k i [] st = aret (True, st)"
| "start_clients k i (u # us) st =
     (case uk_start k i of
        PipeFails e \<Rightarrow> aret (False, log_ui (''error creating pipe - '' @ e) st)
      | ForkFails a b e \<Rightarrow>
          aret (False, log_ui (''fork failed - '' @ e) (set_client i (\<lambda>c. c\<lparr>pipe_in := a,
            pipe_out := b, ui_stat := UI_RUNNING, ui_pid := - 1\<rparr>) st))
      | Parent a b pid \<Rightarrow>
          start_clients k (Suc i) us (set_client i (\<lambda>c. c\<lparr>pipe_in := a, pipe_out := b,
            ui_stat := UI_RUNNING, ui_pid := pid\<rparr>) st)
      | Child a b e \<Rightarrow>
          abind (query sys_env) (\<lambda>env.
          abind (lift_res (cfg_get_defaultpath cfg_strinit env)) (\<lambda>path.
          case e of
            None \<Rightarrow>
              abind (modify (\<lambda>s. s\<lparr>sys_trace := sys_trace s
                @ [ui_module_call (str_arg path) u # ui_module_argv (str_arg path) u]\<rparr>)) (\<lambda>_. stop)
          | Some e \<Rightarrow>
              aret (False, log_ui (''cannot start process - '' @ e) (set_client i (\<lambda>c.
                c\<lparr>pipe_in := a, pipe_out := b, ui_pid := 0, ui_stat := UI_PROBLEM_EXIT\<rparr>) st)))))"

subsection \<open>Waiting\<close>

text \<open>The descriptors that \<^verbatim>\<open>select\<close> reports are served in ascending order until one is the selection.\<close>

fun service ::
  "('t, 'p) grammar \<Rightarrow> netifs \<Rightarrow> prog \<Rightarrow> (int \<times> (string + string) \<times> waits) list \<Rightarrow> 't ui_state
   \<Rightarrow> (bool \<times> 't ui_state) act" where
  "service g net prog [] st = aret (False, st)"
| "service g net prog ((fd, input, w) # evs) st =
     abind (check_input_from_client g net prog fd input w st) (\<lambda>(ok, st).
       if ok then aret (True, st) else service g net prog evs st)"

definition receive :: "signal list \<Rightarrow> 't ui_state \<Rightarrow> 't ui_state" where
  "receive sigs st = st\<lparr>rcvd_sig := (if sigs = [] then rcvd_sig st else Some (last sigs))\<rparr>"

definition ui_select :: "int \<Rightarrow> 't ui_state \<Rightarrow> 't ui_state" where
  "ui_select time_out st = st\<lparr>ui_alarms := ui_alarms st @ [max 0 time_out]\<rparr>"

fun ui_loop ::
  "('t, 'p) grammar \<Rightarrow> netifs \<Rightarrow> prog \<Rightarrow> ui_turn list \<Rightarrow> int \<Rightarrow> 't ui_state \<Rightarrow> (bool \<times> 't ui_state) act"
where
  "ui_loop g net prog [] endtime st = spin"
| "ui_loop g net prog (turn # turns) endtime st =
     (let wset = build_waitset (turn_alive turn) (ui_clients st);
          st = ui_select endtime (receive (turn_signals turn) st) in
      case turn_select turn of
        SelectFailed e \<Rightarrow> aret (False, log_ui (''select failed - '' @ e) st)
      | Interrupted sig \<Rightarrow>
          let st = receive [sig] st in
          if rcvd_sig st = Some SIGUSR1 then
            ui_loop g net prog turns 0
              (if endtime \<noteq> 0
               then log_ui ''TIMEOUT STOPPED BY USER'' (st\<lparr>ui_config := (ui_config st)\<lparr>timeout := 0\<rparr>\<rparr>)
               else st)
          else abind (lift_res (ui_timeout (ui_config st))) (\<lambda>b. aret (case b of
            None \<Rightarrow> (False, st) | Some b \<Rightarrow> (True, st\<lparr>ui_boot := b\<rparr>)))
      | Ready evs \<Rightarrow>
          abind (service g net prog (sort_key fst (filter (\<lambda>e. fst e \<in> wset) evs)) st) (\<lambda>(ok, st).
            if ok then aret (True, st) else ui_loop g net prog turns endtime st))"

subsection \<open>Ending the clients\<close>

definition kill_running :: "signal \<Rightarrow> 't ui_state \<Rightarrow> 't ui_state" where
  "kill_running sig st =
     st\<lparr>ui_kills := ui_kills st
       @ map (\<lambda>c. (ui_pid c, sig)) (filter (\<lambda>c. ui_stat c = UI_RUNNING) (ui_clients st))\<rparr>"

definition ui_cleanup :: "ui_kernel \<Rightarrow> 't ui_state \<Rightarrow> 't ui_state" where
  "ui_cleanup k st =
     (let st = kill_running SIGTERM st;
          st = remove_terminated_clients (uk_term_waits k) st;
          st = kill_running SIGKILL st;
          st = remove_terminated_clients (uk_kill_waits k) st
      in st\<lparr>ui_clients := map (\<lambda>c. c\<lparr>collected_str := cfg_strfree (collected_str c)\<rparr>) (ui_clients st)\<rparr>)"

definition client_init :: ui_info where
  "client_init = \<lparr>ui_pid = 0, pipe_in = 0, pipe_out = 0, collected_str = cfg_strinit,
     ui_stat = UI_PROBLEM_EXIT\<rparr>"

definition ui_initial ::
  "cfg_toplevel \<Rightarrow> cfg_bentry \<Rightarrow> signal option \<Rightarrow> 't scan_state \<Rightarrow> 't ui_state" where
  "ui_initial config boot sig sc =
     \<lparr>ui_clients = replicate (ui_count config) client_init, ui_kills = [], ui_alarms = [],
      ui_log = [], rcvd_sig = sig, ui_scan = sc, ui_boot = boot, ui_config = config\<rparr>"

lemma ui_initial_fields [simp]:
  "ui_clients (ui_initial config boot sig sc) = replicate (ui_count config) client_init"
  "ui_kills (ui_initial config boot sig sc) = []" "ui_alarms (ui_initial config boot sig sc) = []"
  "ui_config (ui_initial config boot sig sc) = config"
  by (simp_all add: ui_initial_def)

text \<open>From the initialized client array to the label \<^verbatim>\<open>cleanup_and_return\<close>.\<close>

definition run_clients ::
  "('t, 'p) grammar \<Rightarrow> netifs \<Rightarrow> prog \<Rightarrow> ui_kernel \<Rightarrow> string \<Rightarrow> 't ui_state \<Rightarrow> (bool \<times> 't ui_state) act"
where
  "run_clients g net prog k startup_msg st =
     (let config = ui_config st in
      if timeout config \<le> 0 \<and> ui_count config = 0
      then aret (False, log_ui ''nothing to do for the userinteface'' (log_ui startup_msg st))
      else
        abind (query sys_env) (\<lambda>env.
        abind (lift_res (ebind (cfg_set_env_str CFG_STARTUP_MSG (Some startup_msg) env)
            (cfg_set_env config))) (\<lambda>env.
        abind (modify (sys_env_update (\<lambda>_. env))) (\<lambda>_.
        abind (start_clients k 0 (take (ui_count config) (ui_list config)) st) (\<lambda>(ok, st).
          if ok then ui_loop g net prog (uk_turns k)
            (if 0 < timeout config then timeout config else 0) st
          else aret (False, st))))))"

definition userinterface ::
  "('t, 'p) grammar \<Rightarrow> netifs \<Rightarrow> prog \<Rightarrow> ui_kernel \<Rightarrow> string \<Rightarrow> cfg_toplevel \<Rightarrow> cfg_bentry
   \<Rightarrow> signal option \<Rightarrow> 't scan_state \<Rightarrow> (bool \<times> 't ui_state) act" where
  "userinterface g net prog k startup_msg config boot sig sc =
     (let st = ui_initial config boot sig sc in
      if \<not> uk_malloc k then aret (False, log_ui ''malloc failed'' (st\<lparr>ui_clients := []\<rparr>))
      else abind (run_clients g net prog k startup_msg st) (\<lambda>(ret, st). aret (ret, ui_cleanup k st)))"

subsection \<open>What stays as it is while waiting\<close>

text \<open>The process identifiers and pipes of the clients.\<close>

definition ui_ids :: "ui_info list \<Rightarrow> (int \<times> int \<times> int) list" where
  "ui_ids cs = map (\<lambda>c. (ui_pid c, pipe_in c, pipe_out c)) cs"

lemma mark_terminated_ids [simp]: "ui_ids (mark_terminated pid st cs) = ui_ids cs"
  by (simp add: ui_ids_def mark_terminated_def)

lemma remove_terminated_ids [simp]: "ui_ids (remove_terminated ws final st cs) = ui_ids cs"
  by (induction ws final st cs rule: remove_terminated.induct) simp_all

lemma ui_ids_length: "ui_ids cs = ui_ids cs' \<Longrightarrow> length cs = length cs'"
  unfolding ui_ids_def by (metis length_map)

lemma ui_ids_pids: "ui_ids cs = ui_ids cs' \<Longrightarrow> ui_pid ` set cs = ui_pid ` set cs'"
proof -
  assume "ui_ids cs = ui_ids cs'"
  then have "map fst (ui_ids cs) = map fst (ui_ids cs')" by simp
  then have "map ui_pid cs = map ui_pid cs'" by (simp add: ui_ids_def comp_def)
  then show ?thesis by (metis list.set_map)
qed

lemma mark_terminated_running:
  "c \<in> set (mark_terminated pid st cs) \<Longrightarrow> ui_stat c = UI_RUNNING \<Longrightarrow> c \<in> set cs"
  by (auto simp: mark_terminated_def split: if_splits)

lemma remove_terminated_running:
  "c \<in> set (remove_terminated ws final st cs) \<Longrightarrow> ui_stat c = UI_RUNNING \<Longrightarrow> c \<in> set cs"
  by (induction ws final st cs rule: remove_terminated.induct)
    (auto split: if_splits dest: mark_terminated_running)

text \<open>
  Waiting does not touch the clients' identities, sends no signal, and changes nothing of the
  configuration but the timeout.
\<close>

definition waiting :: "'t ui_state \<Rightarrow> 't ui_state \<Rightarrow> bool" where
  "waiting st st' \<longleftrightarrow> ui_ids (ui_clients st') = ui_ids (ui_clients st) \<and> ui_kills st' = ui_kills st
     \<and> (ui_config st')\<lparr>timeout := 0\<rparr> = (ui_config st)\<lparr>timeout := 0\<rparr>"

lemma waiting_refl [simp]: "waiting st st"
  by (simp add: waiting_def)

lemma waiting_trans: "waiting st st' \<Longrightarrow> waiting st' st'' \<Longrightarrow> waiting st st''"
  by (simp add: waiting_def)

lemma waiting_updates [simp]:
  "waiting st (log_ui m st') = waiting st st'" "waiting st (ui_select e st') = waiting st st'"
  "waiting st (receive sigs st') = waiting st st'" "waiting st (st'\<lparr>ui_boot := b\<rparr>) = waiting st st'"
  "waiting st (st'\<lparr>ui_scan := sc\<rparr>) = waiting st st'"
  by (simp_all add: waiting_def log_ui_def ui_select_def receive_def)

text \<open>A selection: a client that has exited cleanly has sent a text that is parsed to the entry.\<close>

definition selected :: "('t, 'p) grammar \<Rightarrow> netifs \<Rightarrow> prog \<Rightarrow> 't ui_state \<Rightarrow> bool" where
  "selected g net prog st \<longleftrightarrow>
     (\<exists>c \<in> set (ui_clients st). ui_stat c = UI_CLEAN_EXIT \<and>
        (\<exists>str sc s sc' t. collected_str c = Some str \<and>
           parse_sysload_boot_entry g net prog sc str s = (Done (None, sc', ui_boot st), t)))"

lemma ui_ids_collected [simp]:
  "i < length cs \<Longrightarrow> ui_ids (cs[i := (cs ! i)\<lparr>collected_str := v\<rparr>]) = ui_ids cs"
  by (simp add: ui_ids_def map_update list_update_same_conv)

lemma collect_input_waiting:
  assumes "collect_input fd input w st = Inr (i, st')"
  shows "waiting st st'" and "i < length (ui_clients st')"
proof -
  obtain j msg where j: "search_for_client fd (ui_clients st) = (j, msg)" by fastforce
  with assms have l: "j < length (ui_clients st)"
    by (cases "j < length (ui_clients st)") (simp_all add: collect_input_def Let_def)
  let ?r = "read_from_client (collected_str (ui_clients st ! j)) input"
  from assms j l obtain v msg' where "?r = Inr (v, msg')"
    by (cases ?r) (auto simp: collect_input_def Let_def)
  define st1 where "st1 = remove_terminated_clients w (st\<lparr>ui_log := ui_log st @ msg @ msg',
      ui_clients := (ui_clients st)[j := (ui_clients st ! j)\<lparr>collected_str := v\<rparr>]\<rparr>)"
  have "collect_input fd input w st = Inr (j, st1)"
    using \<open>?r = _\<close> j l by (simp add: collect_input_def Let_def st1_def)
  then have "i = j" and st': "st' = st1" using assms by simp_all
  from l show "waiting st st'"
    by (simp add: st' st1_def waiting_def remove_terminated_clients_def)
  then have "length (ui_clients st') = length (ui_clients st)"
    unfolding waiting_def by (intro ui_ids_length) simp
  with l \<open>i = j\<close> show "i < length (ui_clients st')" by simp
qed

lemma check_collected_waiting:
  assumes "check_collected g net prog i st s = (Done (ok, st'), t)" and "i < length (ui_clients st)"
  shows "waiting st st'" and "ok \<Longrightarrow> selected g net prog st'"
proof -
  let ?c = "ui_clients st ! i"
  have c: "?c \<in> set (ui_clients st)" using assms(2) by simp
  have "waiting st st' \<and> (ok \<longrightarrow> selected g net prog st')"
  proof (cases "ui_stat ?c = UI_CLEAN_EXIT")
    case True
    with assms(1) obtain str where str: "collected_str ?c = Some str"
      by (cases "collected_str ?c") (simp_all add: check_collected_def)
    with True assms(1) obtain err sc boot u where p:
      "parse_sysload_boot_entry g net prog (ui_scan st) str s = (Done (err, sc, boot), u)"
      by (auto simp: check_collected_def abind_Done_iff)
    show ?thesis
    proof (cases err)
      case None
      with True assms(1) str p have "ok" "st' = st\<lparr>ui_scan := sc, ui_boot := boot\<rparr>"
        by (simp_all add: check_collected_def)
      moreover have "?c \<in> set (ui_clients st')" using c by (simp add: calculation)
      then have "selected g net prog st'"
        unfolding selected_def using True str p None calculation
        by (intro bexI [where x = ?c] conjI exI [where x = str]) (simp_all del: split_paired_Ex, blast)
      ultimately show ?thesis by simp
    qed (use True assms(1) str p in \<open>auto simp: check_collected_def\<close>)
  qed (use assms(1) in \<open>auto simp: check_collected_def\<close>)
  then show "waiting st st'" and "ok \<Longrightarrow> selected g net prog st'" by simp_all
qed

lemma check_input_waiting:
  assumes "check_input_from_client g net prog fd input w st s = (Done (ok, st'), t)"
  shows "waiting st st'" and "ok \<Longrightarrow> selected g net prog st'"
proof -
  from assms obtain i st1 where c: "collect_input fd input w st = Inr (i, st1)"
    and d: "check_collected g net prog i st1 s = (Done (ok, st'), t)"
    by (auto simp: check_input_from_client_def abind_Done_iff lift_res_Done_iff)
  note l = collect_input_waiting [OF c]
  note k = check_collected_waiting [OF d l(2)]
  from l(1) k(1) show "waiting st st'" by (rule waiting_trans)
  from k(2) show "ok \<Longrightarrow> selected g net prog st'" .
qed

lemma service_waiting:
  assumes "service g net prog evs st s = (Done (ok, st'), t)"
  shows "waiting st st'" and "ok \<Longrightarrow> selected g net prog st'"
proof -
  have "waiting st st' \<and> (ok \<longrightarrow> selected g net prog st')"
    using assms
  proof (induction evs arbitrary: st s)
    case (Cons e evs)
    obtain fd input w where e: "e = (fd, input, w)" by (cases e)
    from Cons(2) e obtain o1 st1 u where c: "check_input_from_client g net prog fd input w st s
        = (Done (o1, st1), u)"
      and r: "(if o1 then aret (True, st1) else service g net prog evs st1) u = (Done (ok, st'), t)"
      by (auto simp: abind_Done_iff)
    note k = check_input_waiting [OF c]
    show ?case
    proof (cases o1)
      case False
      with r Cons(1) [of st1 u] k(1) show ?thesis by (auto intro: waiting_trans)
    qed (use k r in auto)
  qed simp
  then show "waiting st st'" and "ok \<Longrightarrow> selected g net prog st'" by simp_all
qed

text \<open>Waiting ends with a selection, or with the default entry after a signal, or fails.\<close>

lemma ui_loop_result:
  assumes "ui_loop g net prog turns e st s = (Done (ok, st'), t)"
  shows "waiting st st'"
    and "ok \<Longrightarrow> selected g net prog st' \<or> ui_timeout (ui_config st') = Inr (Some (ui_boot st'))"
proof -
  have "waiting st st' \<and> (ok \<longrightarrow>
      selected g net prog st' \<or> ui_timeout (ui_config st') = Inr (Some (ui_boot st')))"
    using assms
  proof (induction turns arbitrary: e st s)
    case (Cons turn turns)
    let ?st = "ui_select e (receive (turn_signals turn) st)"
    show ?case
    proof (cases "turn_select turn")
      case (Interrupted sig)
      let ?si = "receive [sig] ?st"
      show ?thesis
      proof (cases "rcvd_sig ?si = Some SIGUSR1")
        case True
        define st1 where "st1 = (if e \<noteq> 0 then log_ui ''TIMEOUT STOPPED BY USER''
            (?si\<lparr>ui_config := (ui_config ?si)\<lparr>timeout := 0\<rparr>\<rparr>) else ?si)"
        from Cons(2) True Interrupted have "ui_loop g net prog turns 0 st1 s = (Done (ok, st'), t)"
          by (simp add: st1_def Let_def)
        moreover have "waiting st st1"
          by (simp add: st1_def waiting_def log_ui_def receive_def ui_select_def)
        ultimately show ?thesis using Cons(1) by (blast intro: waiting_trans)
      next
        case False
        with Cons(2) Interrupted obtain b where b: "ui_timeout (ui_config ?si) = Inr b"
          and "(ok, st') = (case b of None \<Rightarrow> (False, ?si) | Some b \<Rightarrow> (True, ?si\<lparr>ui_boot := b\<rparr>))"
          by (auto simp: Let_def abind_Done_iff lift_res_Done_iff)
        then show ?thesis by (cases b) simp_all
      qed
    next
      case (SelectFailed m)
      with Cons(2) show ?thesis by (auto simp: Let_def)
    next
      case (Ready evs)
      from Cons(2) Ready obtain evs' o1 st1 u where c: "service g net prog evs' ?st s = (Done (o1, st1), u)"
        and r: "(if o1 then aret (True, st1) else ui_loop g net prog turns e st1) u = (Done (ok, st'), t)"
        by (auto simp: Let_def abind_Done_iff)
      note k = service_waiting [OF c]
      have w: "waiting st st1" using k(1) by (simp add: waiting_def receive_def ui_select_def)
      show ?thesis
      proof (cases o1)
        case False
        with r Cons(1) [of e st1 u] w show ?thesis by (auto intro: waiting_trans)
      qed (use k w r in auto)
    qed
  qed simp
  then show "waiting st st'"
    and "ok \<Longrightarrow> selected g net prog st' \<or> ui_timeout (ui_config st') = Inr (Some (ui_boot st'))"
    by simp_all
qed

subsection \<open>Starting and ending the clients\<close>

text \<open>A client after its fork.\<close>

fun forked :: "ui_start \<Rightarrow> ui_info" where
  "forked (PipeFails e) = client_init"
| "forked (ForkFails a b e) = client_init\<lparr>pipe_in := a, pipe_out := b, ui_stat := UI_RUNNING, ui_pid := - 1\<rparr>"
| "forked (Parent a b pid) = client_init\<lparr>pipe_in := a, pipe_out := b, ui_stat := UI_RUNNING, ui_pid := pid\<rparr>"
| "forked (Child a b e) = client_init\<lparr>pipe_in := a, pipe_out := b, ui_pid := 0, ui_stat := UI_PROBLEM_EXIT\<rparr>"

definition in_parent :: "ui_kernel \<Rightarrow> nat \<Rightarrow> bool" where
  "in_parent k i \<longleftrightarrow> (\<exists>a b pid. uk_start k i = Parent a b pid \<and> 0 < pid)"

lemma in_parent_forked:
  "in_parent k i \<Longrightarrow> 0 < ui_pid (forked (uk_start k i)) \<and> ui_stat (forked (uk_start k i)) = UI_RUNNING"
  by (auto simp: in_parent_def)

lemma start_clients_parents:
  assumes "ui_clients st = pre @ replicate (length us) client_init" and "length pre = n"
    and "\<forall>i < j. in_parent k (n + i)" and "j \<le> length us"
  shows "start_clients k n us st = start_clients k (n + j) (drop j us)
    (st\<lparr>ui_clients := pre @ map (\<lambda>i. forked (uk_start k i)) [n..<n + j]
       @ replicate (length us - j) client_init\<rparr>)"
  using assms
proof (induction j arbitrary: n us pre st)
  case 0
  then show ?case by (simp add: 0(1) [symmetric])
next
  case (Suc j)
  then obtain u us' where us: "us = u # us'" by (cases us) auto
  from Suc(4) obtain a b pid where p: "uk_start k n = Parent a b pid"
    by (metis in_parent_def add_0_right zero_less_Suc)
  let ?st = "st\<lparr>ui_clients := (pre @ [forked (uk_start k n)]) @ replicate (length us') client_init\<rparr>"
  have one: "start_clients k n us st = start_clients k (Suc n) us' ?st"
    using Suc(2,3) by (simp add: us p set_client_def list_update_append nth_append)
  have "\<forall>i < j. in_parent k (Suc n + i)" using Suc(4) by (metis Suc_less_eq add_Suc_shift)
  then have "start_clients k (Suc n) us' ?st = start_clients k (Suc n + j) (drop j us')
    (?st\<lparr>ui_clients := (pre @ [forked (uk_start k n)]) @ map (\<lambda>i. forked (uk_start k i)) [Suc n..<Suc n + j]
       @ replicate (length us' - j) client_init\<rparr>)"
    using Suc(3,5) by (intro Suc.IH) (simp_all add: us)
  then show ?case using one by (simp add: us upt_conv_Cons del: upt_Suc)
qed

lemma kill_running_kills [simp]: "set (ui_kills (kill_running sig st)) = set (ui_kills st)
    \<union> (\<lambda>c. (ui_pid c, sig)) ` {c \<in> set (ui_clients st). ui_stat c = UI_RUNNING}"
  by (auto simp: kill_running_def)

lemma kill_running_clients [simp]: "ui_clients (kill_running sig st) = ui_clients st"
  by (simp add: kill_running_def)

lemma remove_terminated_clients_simps [simp]:
  "ui_kills (remove_terminated_clients w st) = ui_kills st"
  "ui_clients (remove_terminated_clients w st) = remove_terminated (fst w) (snd w) 0 (ui_clients st)"
  by (simp_all add: remove_terminated_clients_def)

text \<open>
  The clean up signals only clients, first with \<^verbatim>\<open>SIGTERM\<close>; a client that is still running at its
  end has been sent both signals.
\<close>

lemma ui_cleanup_kills:
  shows "fst ` set (ui_kills (ui_cleanup k st)) \<subseteq> fst ` set (ui_kills st) \<union> ui_pid ` set (ui_clients st)"
    and "c \<in> set (ui_clients (ui_cleanup k st)) \<Longrightarrow> ui_stat c = UI_RUNNING
      \<Longrightarrow> {(ui_pid c, SIGTERM), (ui_pid c, SIGKILL)} \<subseteq> set (ui_kills (ui_cleanup k st))"
proof -
  define cs where "cs = ui_clients st"
  define cs1 where "cs1 = remove_terminated (fst (uk_term_waits k)) (snd (uk_term_waits k)) 0 cs"
  define cs2 where "cs2 = remove_terminated (fst (uk_kill_waits k)) (snd (uk_kill_waits k)) 0 cs1"
  have kills: "set (ui_kills (ui_cleanup k st)) = set (ui_kills st)
      \<union> (\<lambda>c. (ui_pid c, SIGTERM)) ` {c \<in> set cs. ui_stat c = UI_RUNNING}
      \<union> (\<lambda>c. (ui_pid c, SIGKILL)) ` {c \<in> set cs1. ui_stat c = UI_RUNNING}"
    by (simp add: ui_cleanup_def Let_def cs_def cs1_def)
  have pids: "ui_pid ` set cs1 = ui_pid ` set cs"
    by (rule ui_ids_pids) (simp add: cs1_def)
  have "fst ` (\<lambda>c. (ui_pid c, sig)) ` {c \<in> set x. ui_stat c = UI_RUNNING} \<subseteq> ui_pid ` set x"
    for sig :: signal and x by auto
  from this [of SIGTERM cs] this [of SIGKILL cs1]
  show "fst ` set (ui_kills (ui_cleanup k st)) \<subseteq> fst ` set (ui_kills st) \<union> ui_pid ` set (ui_clients st)"
    unfolding kills image_Un pids cs_def by (intro Un_least) (blast+)
  assume c: "c \<in> set (ui_clients (ui_cleanup k st))" "ui_stat c = UI_RUNNING"
  moreover have "ui_clients (ui_cleanup k st)
      = map (\<lambda>c. c\<lparr>collected_str := cfg_strfree (collected_str c)\<rparr>) cs2"
    by (simp add: ui_cleanup_def Let_def cs_def cs1_def cs2_def)
  ultimately obtain d where e: "d \<in> set cs2" "c = d\<lparr>collected_str := cfg_strfree (collected_str d)\<rparr>"
    by (metis (no_types, lifting) image_iff list.set_map)
  then have d: "d \<in> set cs2" "ui_pid d = ui_pid c" "ui_stat d = UI_RUNNING" using c(2) by simp_all
  from d(1,3) have "d \<in> set cs1" unfolding cs2_def by (rule remove_terminated_running)
  moreover from this d(3) have "d \<in> set cs" unfolding cs1_def by (rule remove_terminated_running)
  ultimately show "{(ui_pid c, SIGTERM), (ui_pid c, SIGKILL)} \<subseteq> set (ui_kills (ui_cleanup k st))"
    unfolding kills using d by (auto simp: image_iff)
qed

lemma ui_cleanup_first_kills:
  "\<exists>ks. ui_kills (ui_cleanup k st) = ui_kills st
     @ map (\<lambda>c. (ui_pid c, SIGTERM)) (filter (\<lambda>c. ui_stat c = UI_RUNNING) (ui_clients st)) @ ks"
  by (simp add: ui_cleanup_def Let_def kill_running_def remove_terminated_clients_def)

subsection \<open>The whole of userinterface\<close>

lemma ui_timeout_cong: "c\<lparr>timeout := 0\<rparr> = d\<lparr>timeout := 0\<rparr> \<Longrightarrow> ui_timeout c = ui_timeout d"
proof -
  have "ui_timeout (c\<lparr>timeout := 0\<rparr>) = ui_timeout c" for c by (simp add: ui_timeout_def)
  then show "c\<lparr>timeout := 0\<rparr> = d\<lparr>timeout := 0\<rparr> \<Longrightarrow> ui_timeout c = ui_timeout d" by metis
qed

lemma start_clients_keeps:
  "start_clients k n us st s = (Done (ok, st'), t) \<Longrightarrow>
   ui_kills st' = ui_kills st \<and> ui_config st' = ui_config st"
proof (induction k n us st arbitrary: s rule: start_clients.induct)
  case (2 k i u us st)
  show ?case
  proof (cases "uk_start k i")
    case (Parent a b pid)
    with 2 show ?thesis by (fastforce simp: set_client_def)
  next
    case (Child a b e)
    with 2(2) show ?thesis
      by (cases e) (auto simp: abind_Done_iff set_client_def log_ui_def)
  qed (use 2(2) in \<open>auto simp: set_client_def log_ui_def\<close>)
qed simp

text \<open>The two ways through a call that has something to do.\<close>

lemma run_clients_cases:
  assumes "run_clients g net prog k msg st s = (Done (r, st'), t)"
  obtains "\<not> r" "st' = log_ui ''nothing to do for the userinteface'' (log_ui msg st)"
      "ui_count (ui_config st) = 0"
  | u v where
      "start_clients k 0 (take (ui_count (ui_config st)) (ui_list (ui_config st))) st u
        = (Done (False, st'), v)" "\<not> r"
  | u st1 v where
      "start_clients k 0 (take (ui_count (ui_config st)) (ui_list (ui_config st))) st u
        = (Done (True, st1), v)"
      "ui_loop g net prog (uk_turns k)
        (if 0 < timeout (ui_config st) then timeout (ui_config st) else 0) st1 v = (Done (r, st'), t)"
proof (cases "timeout (ui_config st) \<le> 0 \<and> ui_count (ui_config st) = 0")
  case True
  with assms that(1) show ?thesis by (simp add: run_clients_def Let_def)
next
  case False
  with assms obtain u ok st1 v where
    c: "start_clients k 0 (take (ui_count (ui_config st)) (ui_list (ui_config st))) st u
        = (Done (ok, st1), v)"
    and d: "(if ok then ui_loop g net prog (uk_turns k)
            (if 0 < timeout (ui_config st) then timeout (ui_config st) else 0) st1
          else aret (False, st1)) v = (Done (r, st'), t)"
    by (auto simp: run_clients_def Let_def abind_Done_iff)
  show ?thesis
  proof (cases ok)
    case True
    with c d that(3) show ?thesis by simp
  next
    case False
    with c d that(2) show ?thesis by simp
  qed
qed

lemma userinterface_cases:
  assumes "userinterface g net prog k msg config boot sig sc s = (Done (r, st), t)"
  obtains "\<not> r" "ui_kills st = []" "ui_clients st = []"
  | st1 u where "run_clients g net prog k msg (ui_initial config boot sig sc) s = (Done (r, st1), u)"
      "st = ui_cleanup k st1"
proof (cases "uk_malloc k")
  case True
  with assms that(2) show ?thesis by (auto simp: userinterface_def Let_def abind_Done_iff)
next
  case False
  with assms that(1) show ?thesis
    by (auto simp: userinterface_def ui_initial_def log_ui_def)
qed

lemma ui_cleanup_fields [simp]:
  "ui_boot (ui_cleanup k st) = ui_boot st" "ui_config (ui_cleanup k st) = ui_config st"
  "ui_alarms (ui_cleanup k st) = ui_alarms st"
  by (simp_all add: ui_cleanup_def Let_def kill_running_def remove_terminated_clients_def)

text \<open>The entry of a successful call is the default entry or one that a client has sent.\<close>

lemma userinterface_selection:
  assumes "userinterface g net prog k msg config boot sig sc s = (Done (True, st), t)"
  shows "ui_timeout config = Inr (Some (ui_boot st))
    \<or> (\<exists>str sc' s' sc'' t'. parse_sysload_boot_entry g net prog sc' str s'
          = (Done (None, sc'', ui_boot st), t'))"
  using assms
proof (cases rule: userinterface_cases)
  case (2 st1 u)
  from 2(1) show ?thesis
  proof (cases rule: run_clients_cases)
    case (3 v st0 w)
    have c: "ui_config st0 = config"
      using start_clients_keeps [OF 3(1)] by (simp add: ui_initial_def)
    note r = ui_loop_result [OF 3(2)]
    then have "ui_timeout (ui_config st1) = ui_timeout config"
      using c by (intro ui_timeout_cong) (simp add: waiting_def)
    with r(2) 2(2) show ?thesis by (auto simp: selected_def)
  qed simp_all
qed simp_all

text \<open>When every fork succeeds, the only processes that are sent signals are the clients.\<close>

lemma start_clients_all:
  assumes "ui_clients st = replicate (length us) client_init" and "\<forall>i < length us. in_parent k i"
  shows "start_clients k 0 us st
    = aret (True, st\<lparr>ui_clients := map (\<lambda>i. forked (uk_start k i)) [0..<length us]\<rparr>)"
  using start_clients_parents [of st "[]" us 0 "length us" k] assms by simp

lemma userinterface_kills:
  assumes "userinterface g net prog k msg config boot sig sc s = (Done (r, st), t)"
    and "\<forall>i < ui_count config. in_parent k i" and "cfg_wf config"
  shows "fst ` set (ui_kills st) \<subseteq> (\<lambda>i. ui_pid (forked (uk_start k i))) ` {..< ui_count config}"
    and "\<forall>c \<in> set (ui_clients st). ui_stat c = UI_RUNNING \<longrightarrow>
      {(ui_pid c, SIGTERM), (ui_pid c, SIGKILL)} \<subseteq> set (ui_kills st)"
proof -
  let ?pids = "(\<lambda>i. ui_pid (forked (uk_start k i))) ` {..< ui_count config}"
  have "fst ` set (ui_kills st) \<subseteq> ?pids \<and> (\<forall>c \<in> set (ui_clients st). ui_stat c = UI_RUNNING \<longrightarrow>
      {(ui_pid c, SIGTERM), (ui_pid c, SIGKILL)} \<subseteq> set (ui_kills st))"
    using assms(1)
  proof (cases rule: userinterface_cases)
    case (2 st1 u)
    let ?st = "ui_initial config boot sig sc"
    have start: "start_clients k 0 (take (ui_count config) (ui_list config)) ?st
        = aret (True, ?st\<lparr>ui_clients := map (\<lambda>i. forked (uk_start k i)) [0..<ui_count config]\<rparr>)"
      using start_clients_all [of ?st "ui_list config" k] assms(2,3)
      by (simp add: ui_initial_def cfg_wf_def)
    have k: "ui_kills st1 = [] \<and> ui_pid ` set (ui_clients st1) \<subseteq> ?pids"
      using 2(1)
    proof (cases rule: run_clients_cases)
      case (3 v st0 w)
      then have st0: "st0 = ?st\<lparr>ui_clients := map (\<lambda>i. forked (uk_start k i)) [0..<ui_count config]\<rparr>"
        using start by (simp add: ui_initial_def)
      have "ui_pid ` set (ui_clients st1) = ui_pid ` set (ui_clients st0)"
        using ui_loop_result(1) [OF 3(2)] by (intro ui_ids_pids) (simp add: waiting_def)
      with ui_loop_result(1) [OF 3(2)] show ?thesis
        by (auto simp: st0 waiting_def ui_initial_def)
    qed (use start in \<open>simp_all add: log_ui_def ui_initial_def\<close>)
    have "fst ` set (ui_kills st) \<subseteq> ui_pid ` set (ui_clients st1)"
      using ui_cleanup_kills(1) [where k = k and st = st1] k 2(2) by simp
    with k have "fst ` set (ui_kills st) \<subseteq> ?pids" by (blast intro: subset_trans)
    then show ?thesis using ui_cleanup_kills(2) [where k = k and st = st1] 2(2) by simp
  qed simp
  then show "fst ` set (ui_kills st) \<subseteq> ?pids"
    and "\<forall>c \<in> set (ui_clients st). ui_stat c = UI_RUNNING \<longrightarrow>
      {(ui_pid c, SIGTERM), (ui_pid c, SIGKILL)} \<subseteq> set (ui_kills st)" by blast+
qed

text \<open>
  When a client cannot be started, those started before it are sent \<^verbatim>\<open>SIGTERM\<close>: in the parent
  after a failed fork, with -1 as the process identifier of the client; and in the child itself
  after a failed \<^verbatim>\<open>execl\<close>.
\<close>

lemma filter_running_forked:
  assumes "\<forall>i < j. in_parent k i"
  shows "map (\<lambda>c. (ui_pid c, SIGTERM)) (filter (\<lambda>c. ui_stat c = UI_RUNNING)
      (map (\<lambda>i. forked (uk_start k i)) [0..<j]))
    = map (\<lambda>i. (ui_pid (forked (uk_start k i)), SIGTERM)) [0..<j]"
proof -
  have "filter (\<lambda>c. ui_stat c = UI_RUNNING) (map (\<lambda>i. forked (uk_start k i)) [0..<j])
      = map (\<lambda>i. forked (uk_start k i)) [0..<j]"
    using assms in_parent_forked by (intro filter_True) auto
  then show ?thesis by simp
qed

lemma start_clients_stops:
  assumes "ui_clients st = replicate (length us) client_init"
    and "\<forall>i < j. in_parent k i" and "j < length us"
    and "(\<exists>a b e. uk_start k j = ForkFails a b e) \<or> (\<exists>a b e. uk_start k j = Child a b (Some e))"
    and "cfg_get_defaultpath cfg_strinit (sys_env s) = Inr path"
  shows "\<exists>st' t. start_clients k 0 us st s = (Done (False, st'), t)
    \<and> ui_kills st' = ui_kills st
    \<and> ui_clients st' = map (\<lambda>i. forked (uk_start k i)) [0..<Suc j]
        @ replicate (length us - Suc j) client_init"
proof -
  define cs where "cs = map (\<lambda>i. forked (uk_start k i)) [0..<j] @ replicate (length us - j) client_init"
  obtain u rest where r: "drop j us = u # rest" using assms(3) by (metis Cons_nth_drop_Suc)
  have m: "replicate (length us - j) client_init = client_init # replicate (length us - Suc j) client_init"
    using assms(3) by (metis Suc_diff_Suc replicate_Suc)
  have upd: "cs ! j = client_init" "cs[j := x] = map (\<lambda>i. forked (uk_start k i)) [0..<j]
      @ x # replicate (length us - Suc j) client_init" for x
    by (simp_all add: cs_def m list_update_append nth_append)
  have "start_clients k 0 us st = start_clients k j (u # rest) (st\<lparr>ui_clients := cs\<rparr>)"
    using start_clients_parents [of st "[]" us 0 j k] assms by (simp add: cs_def r)
  moreover have "\<exists>st' t. start_clients k j (u # rest) (st\<lparr>ui_clients := cs\<rparr>) s = (Done (False, st'), t)
    \<and> ui_kills st' = ui_kills st \<and> ui_clients st' = map (\<lambda>i. forked (uk_start k i)) [0..<Suc j]
        @ replicate (length us - Suc j) client_init"
    using assms(4)
  proof (elim disjE exE)
    fix a b e assume "uk_start k j = ForkFails a b e"
    then show ?thesis by (simp add: set_client_def log_ui_def upd)
  next
    fix a b e assume "uk_start k j = Child a b (Some e)"
    then show ?thesis using assms(5) by (simp add: set_client_def log_ui_def upd)
  qed
  ultimately show ?thesis by simp
qed

lemma userinterface_start_fails:
  assumes "\<forall>i < j. in_parent k i" and "j < ui_count config"
    and f: "(\<exists>a b e. uk_start k j = ForkFails a b e) \<or> (\<exists>a b e. uk_start k j = Child a b (Some e))"
    and "uk_malloc k" and "cfg_wf config"
  shows "\<exists>st t ks. userinterface g net prog k msg config boot sig sc s = (Done (False, st), t)
    \<and> ui_kills st = map (\<lambda>i. (ui_pid (forked (uk_start k i)), SIGTERM)) [0..<j]
        @ (if \<exists>a b e. uk_start k j = ForkFails a b e then [(- 1, SIGTERM)] else []) @ ks"
proof -
  have l: "length (ui_list config) = ui_count config" using assms(5) by (simp add: cfg_wf_def)
  obtain env where env: "ebind (cfg_set_env_str CFG_STARTUP_MSG (Some msg) (sys_env s)) (cfg_set_env config)
      = Inr env"
    using cfg_set_env_vars [OF assms(5)] by (simp add: cfg_simps)
  let ?st = "ui_initial config boot sig sc" and ?s = "s\<lparr>sys_env := env\<rparr>"
  obtain st' t where st': "start_clients k 0 (ui_list config) ?st ?s = (Done (False, st'), t)"
    "ui_kills st' = []" "ui_clients st' = map (\<lambda>i. forked (uk_start k i)) [0..<Suc j]
        @ replicate (ui_count config - Suc j) client_init"
    using start_clients_stops [of ?st "ui_list config" j k ?s] assms(1,2) f cfg_get_defaultpath_base l
    by (auto simp: ui_initial_def)
  have "userinterface g net prog k msg config boot sig sc s = (Done (False, ui_cleanup k st'), t)"
    using st'(1) env assms(2,4) l
    by (simp add: userinterface_def run_clients_def Let_def ui_initial_def)
  moreover have "filter (\<lambda>c. ui_stat c = UI_RUNNING) (replicate n client_init) = []" for n
    by (simp add: client_init_def)
  then have "map (\<lambda>c. (ui_pid c, SIGTERM)) (filter (\<lambda>c. ui_stat c = UI_RUNNING) (ui_clients st'))
      = map (\<lambda>i. (ui_pid (forked (uk_start k i)), SIGTERM)) [0..<j]
        @ (if \<exists>a b e. uk_start k j = ForkFails a b e then [(- 1, SIGTERM)] else [])"
    using filter_running_forked [OF assms(1)] f by (auto simp: st'(3))
  ultimately show ?thesis
    using ui_cleanup_first_kills [of k st'] st'(2) by (metis append_Nil append_assoc)
qed

text \<open>Every turn arms the alarm with the full time; after the user has stopped it, with 0.\<close>

lemma waiting_alarms_check:
  assumes "service g net prog evs st s = (Done (ok, st'), t)"
  shows "ui_alarms st' = ui_alarms st"
proof -
  have c: "ui_alarms st2 = ui_alarms st1"
    if "check_input_from_client g net prog fd input w st1 s1 = (Done (o1, st2), s2)"
    for fd input w st1 st2 o1 s1 s2
  proof -
    from that obtain i st3 where a: "collect_input fd input w st1 = Inr (i, st3)"
      and b: "check_collected g net prog i st3 s1 = (Done (o1, st2), s2)"
      by (auto simp: check_input_from_client_def abind_Done_iff lift_res_Done_iff)
    from a have "ui_alarms st3 = ui_alarms st1"
      by (auto simp: collect_input_def Let_def ebind_Inr_iff remove_terminated_clients_def
          split: prod.splits if_splits)
    moreover from b have "ui_alarms st2 = ui_alarms st3"
      by (auto simp: check_collected_def abind_Done_iff log_ui_def split: if_splits option.splits)
    ultimately show ?thesis by simp
  qed
  show ?thesis using assms
  proof (induction evs arbitrary: st s)
    case (Cons e evs)
    obtain fd input w where e: "e = (fd, input, w)" by (cases e)
    from Cons(2) e obtain o1 st1 u where k: "check_input_from_client g net prog fd input w st s
        = (Done (o1, st1), u)"
      and r: "(if o1 then aret (True, st1) else service g net prog evs st1) u = (Done (ok, st'), t)"
      by (auto simp: abind_Done_iff)
    from c [OF k] r Cons(1) [of st1 u] show ?case by (cases o1) auto
  qed simp
qed

text \<open>
  The loop takes its turns one by one: the first turn decides alone whether it is the last one. The
  alarm of turn \<open>i\<close> is armed with the timeout unless the user has stopped it in a turn before.
\<close>

definition stops :: "ui_turn \<Rightarrow> bool" where
  "stops turn \<longleftrightarrow> turn_select turn = Interrupted SIGUSR1"

definition alarms :: "int \<Rightarrow> ui_turn list \<Rightarrow> nat \<Rightarrow> int list" where
  "alarms e turns n = map (\<lambda>i. if \<exists>j < i. stops (turns ! j) then 0 else e) [0..<n]"

lemma alarms_Suc:
  "alarms e (turn # turns) (Suc n) = e # alarms (if stops turn then 0 else e) turns n"
proof -
  have "(\<exists>j < Suc i. stops ((turn # turns) ! j)) \<longleftrightarrow> stops turn \<or> (\<exists>j < i. stops (turns ! j))" for i
    by (auto simp: less_Suc_eq_0_disj)
  then show ?thesis
    by (simp add: alarms_def map_upt_Suc del: upt_Suc)
qed

lemma ui_loop_turn:
  assumes "ui_loop g net prog (turn # turns) e st s = (Done (ok, st'), t)" and "0 \<le> e"
  obtains
    (ends) "\<And>ts. ui_loop g net prog (turn # ts) e st s = (Done (ok, st'), t)"
      "ui_alarms st' = ui_alarms st @ [e]"
  | (more) st1 u where
      "\<And>ts. ui_loop g net prog (turn # ts) e st s = ui_loop g net prog ts (if stops turn then 0 else e) st1 u"
      "ui_alarms st1 = ui_alarms st @ [e]"
proof -
  let ?st = "ui_select e (receive (turn_signals turn) st)"
  have one: "ui_alarms ?st = ui_alarms st @ [e]"
    using assms(2) by (simp add: ui_select_def receive_def)
  show thesis
  proof (cases "turn_select turn")
    case (Interrupted sig)
    let ?si = "receive [sig] ?st"
    have sig: "rcvd_sig ?si = Some sig" by (simp add: receive_def)
    show thesis
    proof (cases "rcvd_sig ?si = Some SIGUSR1")
      case True
      define st1 where "st1 = (if e \<noteq> 0 then log_ui ''TIMEOUT STOPPED BY USER''
            (?si\<lparr>ui_config := (ui_config ?si)\<lparr>timeout := 0\<rparr>\<rparr>) else ?si)"
      have "ui_alarms st1 = ui_alarms ?si" by (simp add: st1_def log_ui_def)
      then have "ui_alarms st1 = ui_alarms st @ [e]" using one by (simp add: receive_def)
      moreover have "stops turn" using sig True Interrupted by (simp add: stops_def)
      ultimately show thesis
        using True Interrupted by (intro more [of st1 s]) (simp_all add: st1_def Let_def)
    next
      case False
      with assms(1) Interrupted obtain b where
        "(case b of None \<Rightarrow> (False, ?si) | Some b \<Rightarrow> (True, ?si\<lparr>ui_boot := b\<rparr>)) = (ok, st')"
        by (auto simp: Let_def abind_Done_iff lift_res_Done_iff)
      then have "ui_alarms st' = ui_alarms st @ [e]"
        using one by (cases b) (auto simp: receive_def)
      with assms(1) False Interrupted show thesis by (intro ends) (simp_all add: Let_def)
    qed
  next
    case (SelectFailed m)
    with assms(1) one show thesis by (intro ends) (auto simp: Let_def log_ui_def)
  next
    case (Ready evs)
    define evs' where "evs' = sort_key fst (filter (\<lambda>e. fst e \<in> build_waitset (turn_alive turn) (ui_clients st)) evs)"
    have ready: "ui_loop g net prog (turn # ts) e st s = abind (service g net prog evs' ?st) (\<lambda>(ok, st).
        if ok then aret (True, st) else ui_loop g net prog ts e st) s" for ts
      using Ready by (simp add: Let_def evs'_def)
    from assms(1) obtain o1 st1 u where c: "service g net prog evs' ?st s = (Done (o1, st1), u)"
      unfolding ready by (auto simp: abind_Done_iff)
    have a: "ui_alarms st1 = ui_alarms st @ [e]" using waiting_alarms_check [OF c] one by simp
    have k: "\<not> stops turn" using Ready by (simp add: stops_def)
    show thesis
    proof (cases o1)
      case True
      with assms(1) c a show thesis by (intro ends) (simp_all add: ready del: ui_loop.simps)
    next
      case False
      with c a k show thesis by (intro more [of st1 u]) (simp_all add: ready del: ui_loop.simps)
    qed
  qed
qed

text \<open>
  The turns that a loop which returns has taken are the shortest sequence on which it returns; on
  every shorter one it waits for the next turn.
\<close>

lemma ui_loop_alarms:
  assumes "ui_loop g net prog turns e st s = (Done (ok, st'), t)" and "0 \<le> e"
  shows "\<exists>n \<le> length turns. (\<forall>m < n. fst (ui_loop g net prog (take m turns) e st s) = Spin)
    \<and> ui_loop g net prog (take n turns) e st s = (Done (ok, st'), t)
    \<and> ui_alarms st' = ui_alarms st @ alarms e turns n"
  using assms
proof (induction turns arbitrary: e st s)
  case (Cons turn turns)
  have none: "fst (ui_loop g net prog (take 0 (turn # turns)) e st s) = Spin" by (simp add: spin_def)
  from Cons.prems show ?case
  proof (cases rule: ui_loop_turn)
    case ends
    with none show ?thesis by (intro exI [of _ 1]) (simp add: alarms_def)
  next
    case (more st1 u)
    let ?e = "if stops turn then 0 else e"
    from Cons.prems(1) more(1) have "ui_loop g net prog turns ?e st1 u = (Done (ok, st'), t)" by metis
    moreover have "0 \<le> ?e" using Cons.prems(2) by simp
    ultimately obtain n where n: "n \<le> length turns"
      "\<forall>m < n. fst (ui_loop g net prog (take m turns) ?e st1 u) = Spin"
      "ui_loop g net prog (take n turns) ?e st1 u = (Done (ok, st'), t)"
      "ui_alarms st' = ui_alarms st1 @ alarms ?e turns n" using Cons.IH by blast
    have "fst (ui_loop g net prog (take m (turn # turns)) e st s) = Spin" if "m < Suc n" for m
      using that none n(2) more(1) by (cases m) simp_all
    then show ?thesis
      using n more by (intro exI [of _ "Suc n"]) (simp add: alarms_Suc)
  qed
qed (simp add: spin_def)

text \<open>Without clients that can be heard, only a signal or a failure ends the loop.\<close>

lemma ui_loop_blocks:
  assumes "\<forall>turn \<in> set turns. (\<forall>pid \<in> ui_pid ` set (ui_clients st). \<not> turn_alive turn pid)
    \<and> (\<exists>evs. turn_select turn = Ready evs)"
  shows "ui_loop g net prog turns e st s = (Spin, s)"
  using assms
proof (induction turns arbitrary: st)
  case (Cons turn turns)
  then obtain evs where r: "turn_select turn = Ready evs" by auto
  have w: "build_waitset (turn_alive turn) (ui_clients st) = {}"
    using Cons(2) by (auto simp: build_waitset_def)
  have "ui_loop g net prog turns e (ui_select e (receive (turn_signals turn) st)) s = (Spin, s)"
    using Cons by (intro Cons(1)) (simp add: ui_select_def receive_def)
  with r w show ?case by (simp add: Let_def)
qed simp

end
