(* ===== verification/SampleUi.thy ===== *)
theory SampleUi
  imports SampleConfig UiControl
begin

section \<open>Sample user interfaces\<close>

text \<open>
  A configuration with two user interfaces, and kernels that start both, or the first only, and
  then deliver the timeout.
\<close>

definition sample_ui :: "string \<Rightarrow> cfg_userinterface" where
  "sample_ui m = cfg_userinterface_init\<lparr>ui_module := Some m, ui_cmdline := Some ''/dev/console''\<rparr>"

definition sample_ui_config :: cfg_toplevel where
  "sample_ui_config = sample_config\<lparr>ui_list := [sample_ui ''linemode'', sample_ui ''ssh''], ui_count := 2\<rparr>"

definition sample_ui_kernel :: "ui_start \<Rightarrow> ui_kernel" where
  "sample_ui_kernel second = \<lparr>uk_malloc = True,
     uk_start = (\<lambda>i. if i = 0 then Parent 3 4 100 else second),
     uk_turns = [\<lparr>turn_signals = [], turn_alive = (\<lambda>_. True), turn_select = Interrupted SIGALRM\<rparr>],
     uk_term_waits = ([(100, 0)], 0), uk_kill_waits = ([], 0)\<rparr>"

lemma sample_ui_config_wf: "cfg_wf sample_ui_config"
  using sample_config_wf(1)
  by (simp add: cfg_wf_def sample_ui_config_def sample_ui_def ui_wf_def cfg_userinterface_init_def)

lemma sample_ui_parents: "\<forall>i < ui_count sample_ui_config. in_parent (sample_ui_kernel (Parent 5 6 101)) i"
  by (simp add: in_parent_def sample_ui_kernel_def)

lemma sample_ui_timeout: "ui_timeout sample_ui_config = Inr (Some sample_bentry)"
  using sample_config_wf(3)
  by (simp add: ui_timeout_def sample_ui_config_def sample_config_def cfg_simps)

lemma sample_userinterface:
  "\<exists>st t. userinterface sample_grammar sample_net sample_prog (sample_ui_kernel (Parent 5 6 101)) msg
      sample_ui_config cfg_bentry_init None scan_init s = (Done (True, st), t) \<and> ui_boot st = sample_bentry"
proof -
  let ?k = "sample_ui_kernel (Parent 5 6 101)"
  let ?st = "ui_initial sample_ui_config cfg_bentry_init None (scan_init :: reduction list scan_state)"
  obtain env where env: "ebind (cfg_set_env_str CFG_STARTUP_MSG (Some msg) (sys_env s))
      (cfg_set_env sample_ui_config) = Inr env"
    using cfg_set_env_vars [OF sample_ui_config_wf] by (simp add: cfg_simps)
  have c: "ui_count sample_ui_config = 2" "length (ui_list sample_ui_config) = 2"
    "timeout sample_ui_config = 10"
    by (simp_all add: sample_ui_config_def sample_config_def)
  define st0 where "st0 = ?st\<lparr>ui_clients := map (\<lambda>i. forked (uk_start ?k i)) [0..<2]\<rparr>"
  have start: "start_clients ?k 0 (ui_list sample_ui_config) ?st u = (Done (True, st0), u)" for u
    using start_clients_all [of ?st "ui_list sample_ui_config" ?k] sample_ui_parents c
    by (simp add: st0_def)
  have "ui_timeout (ui_config st0) = Inr (Some sample_bentry)"
    using sample_ui_timeout by (simp add: st0_def)
  then have loop: "\<exists>st1. ui_loop sample_grammar sample_net sample_prog (uk_turns ?k) 10 st0 u
      = (Done (True, st1), u) \<and> ui_boot st1 = sample_bentry" for u
    by (simp add: sample_ui_kernel_def receive_def ui_select_def)
  obtain st1 where "run_clients sample_grammar sample_net sample_prog ?k msg ?st s
      = (Done (True, st1), s\<lparr>sys_env := env\<rparr>)" "ui_boot st1 = sample_bentry"
    using env start loop [of "s\<lparr>sys_env := env\<rparr>"] by (auto simp: run_clients_def Let_def c)
  moreover have "uk_malloc ?k" by (simp add: sample_ui_kernel_def)
  ultimately show ?thesis by (simp add: userinterface_def Let_def)
qed

end
