(* ===== verification/Debug.thy ===== *)
theory Debug
  imports Insfile
begin

section \<open>Debug output\<close>

text \<open>
  Models \<^verbatim>\<open>core/debug.c\<close> and the operations that print a structure: \<^verbatim>\<open>cfg_print\<close> of
  \<^verbatim>\<open>core/config.c\<close> and \<^verbatim>\<open>print_blockptr\<close> of \<^verbatim>\<open>core/bootmap_common.c\<close>. A message is text that has
  been formatted; what \<^verbatim>\<open>syslog\<close> and \<^verbatim>\<open>printf\<close> make of a percent sign in it is not modelled.
\<close>

subsection \<open>Levels\<close>

datatype debug_level = DG_OFF | DG_MINIMAL | DG_VERBOSE | DG_MAXIMAL

instantiation debug_level :: linorder
begin

fun rank_debug_level :: "debug_level \<Rightarrow> nat" where
  "rank_debug_level DG_OFF = 0" | "rank_debug_level DG_MINIMAL = 1"
| "rank_debug_level DG_VERBOSE = 2" | "rank_debug_level DG_MAXIMAL = 3"

definition less_eq_debug_level :: "debug_level \<Rightarrow> debug_level \<Rightarrow> bool" where
  "a \<le> b \<longleftrightarrow> rank_debug_level a \<le> rank_debug_level b"

definition less_debug_level :: "debug_level \<Rightarrow> debug_level \<Rightarrow> bool" where
  "a < b \<longleftrightarrow> rank_debug_level a < rank_debug_level b"

instance
proof
  fix a b :: debug_level
  show "a \<le> b \<Longrightarrow> b \<le> a \<Longrightarrow> a = b"
    by (cases a; cases b) (simp_all add: less_eq_debug_level_def)
qed (auto simp: less_eq_debug_level_def less_debug_level_def)

end

text \<open>The lines that \<^verbatim>\<open>dg_printf\<close> writes to the log and to \<^verbatim>\<open>stdout\<close>; the level of the program is off.\<close>

definition dg_level :: debug_level where "dg_level = DG_OFF"

definition dg_printf :: "debug_level \<Rightarrow> debug_level \<Rightarrow> string \<Rightarrow> string list" where
  "dg_printf active level outstr = (if level \<le> active then [outstr] else [])"

text \<open>\<^verbatim>\<open>dg_showfile\<close>: the first lines of a file, between two marks.\<close>

definition dg_showfile :: "debug_level \<Rightarrow> debug_level \<Rightarrow> string \<Rightarrow> nat \<Rightarrow> string list" where
  "dg_showfile active level content n =
     concat (map (dg_printf active level)
       ([''vvv file vvv'' @ [nl]] @ take n (fgets_lines CFG_STR_MAX_LEN content)
        @ [''^^^ file ^^^'' @ [nl]]))"

text \<open>
  \<^verbatim>\<open>dg_wait\<close>: the lines for the log, and the seconds that \<^verbatim>\<open>select\<close> sleeps; with a negative number
  it fails at once. \<^verbatim>\<open>dg_init\<close> only writes to the log, \<^verbatim>\<open>dg_redirect\<close> does nothing.
\<close>

definition dg_wait :: "debug_level \<Rightarrow> debug_level \<Rightarrow> int \<Rightarrow> string list \<times> int" where
  "dg_wait active level seconds =
     (if level \<le> active
      then ([''waiting for '' @ printf_d seconds @ '' seconds!''], if seconds < 0 then 0 else seconds)
      else ([], 0))"

definition dg_init :: "string list" where "dg_init = [''dg_init()'']"

definition dg_redirect :: "string \<Rightarrow> int" where "dg_redirect device = 0"

subsection \<open>Printing structures\<close>

definition quoted :: "cptr \<Rightarrow> string" where
  "quoted p = [CHR 39] @ str_arg p @ [CHR 39]"

definition bool2str :: "int \<Rightarrow> string" where
  "bool2str b = (if b \<noteq> 0 then ''True'' else ''False'')"

definition print_bentry :: "debug_level \<Rightarrow> nat \<Rightarrow> cfg_bentry \<Rightarrow> string list" where
  "print_bentry active n b =
     dg_printf active DG_VERBOSE ([nl] @ ''  bentry['' @ printf_d (int n) @ '']:'' @ [nl])
     @ dg_printf active DG_VERBOSE (''    title='' @ quoted (title b) @ [nl])
     @ dg_printf active DG_VERBOSE (''    label='' @ quoted (label b) @ [nl])
     @ dg_printf active DG_VERBOSE (''    root='' @ quoted (root b) @ [nl])
     @ dg_printf active DG_VERBOSE (''    kernel='' @ quoted (kernel b) @ [nl])
     @ dg_printf active DG_VERBOSE (''    initrd='' @ quoted (initrd b) @ [nl])
     @ dg_printf active DG_VERBOSE (''    cmdline='' @ quoted (cmdline b) @ [nl])
     @ dg_printf active DG_VERBOSE (''    parmfile='' @ quoted (parmfile b) @ [nl])
     @ dg_printf active DG_VERBOSE (''    insfile='' @ quoted (insfile b) @ [nl])
     @ dg_printf active DG_VERBOSE (''    bootmap='' @ quoted (bootmap b) @ [nl])
     @ dg_printf active DG_VERBOSE (''    locked='' @ bool2str (locked b) @ [nl])
     @ dg_printf active DG_VERBOSE (''    pause='' @ quoted (pause b) @ [nl])
     @ dg_printf active DG_VERBOSE (''    action='' @ printf_d (int_of_action (action b)) @ [nl])"

definition cfg_print :: "debug_level \<Rightarrow> cfg_toplevel \<Rightarrow> string list" where
  "cfg_print active config =
     dg_printf active DG_VERBOSE (''  timeout='' @ printf_d (timeout config) @ [nl])
     @ dg_printf active DG_VERBOSE (''  default='' @ printf_d (boot_default config) @ [nl])
     @ dg_printf active DG_VERBOSE (''  password='' @ quoted (password config) @ [nl])
     @ concat (map (\<lambda>n. dg_printf active DG_VERBOSE (''  userinterface['' @ printf_d (int n) @ '']=''
           @ quoted (ui_module (ui_list config ! n)) @ '' '' @ quoted (ui_cmdline (ui_list config ! n)) @ [nl]))
         [0..<ui_count config])
     @ concat (map (\<lambda>n. print_bentry active n (bentry_list config ! n)) [0..<bentry_count config])"

text \<open>The block number is cast to \<^verbatim>\<open>int\<close>.\<close>

definition print_blockptr :: "disk \<Rightarrow> disk_blockptr \<Rightarrow> string" where
  "print_blockptr d p =
     (let linear = ''block='' @ printf_d (sint (word_of_nat (linear_block p) :: 32 word))
            @ '', size='' @ printf_d (linear_size p) @ '', blockct='' @ printf_d (linear_blockct p) @ [nl];
          chs = ''cyl='' @ printf_d (chs_cyl p) @ '', head='' @ printf_d (chs_head p)
            @ '', sec='' @ printf_d (chs_sec p) @ '', size='' @ printf_d (chs_size p)
            @ '', blockct='' @ printf_d (chs_blockct p) @ [nl] in
      case disk_type d of
        disk_type_scsi \<Rightarrow> linear
      | disk_type_fba \<Rightarrow> linear
      | disk_type_eckd_classic \<Rightarrow> chs
      | disk_type_eckd_compatible \<Rightarrow> chs
      | _ \<Rightarrow> [])"

text \<open>With debugging switched off nothing is printed.\<close>

lemma dg_printf_off: "level \<noteq> DG_OFF \<Longrightarrow> dg_printf DG_OFF level m = []"
  by (cases level) (simp_all add: dg_printf_def less_eq_debug_level_def)

lemma cfg_print_off: "cfg_print DG_OFF config = []"
  by (simp add: cfg_print_def print_bentry_def dg_printf_off)

end
