(* ===== verification/Sysload.thy ===== *)
theory Sysload
  imports UiControl Debug
begin

section \<open>The program\<close>

text \<open>
  Models \<^verbatim>\<open>core/sysload.c\<close> and \<^verbatim>\<open>core/halt.c\<close>: the main program puts
  the components together. It evaluates its arguments and the kernel command line, parses the
  configuration, and then lets the user interfaces select an entry and tries to boot it, over
  and over. One \<open>ui_kernel\<close> is used up in every round; when there is none left the program waits
  in \<^verbatim>\<open>userinterface\<close> for ever.
\<close>

subsection \<open>Output device and pid file\<close>

definition print_help :: "string \<Rightarrow> string" where
  "print_help arg0 =
     ''Usage: '' @ arg0 @ '' [OPTION] <configuration file URI>'' @ [nl]
     @ ''Start System Loader user interface.'' @ [nl, nl]
     @ '' -o <device>   Output System Loader status messages to <device>. Default is stdout.'' @ [nl]
     @ '' -u <uitype>   Ignore global definitions/Start only this ui. '' @ [nl]
     @ '' -v            Output version information and exit.'' @ [nl]
     @ '' -h            Display this help and exit.'' @ [nl]"

text \<open>
  The device for the output is checked with \<^verbatim>\<open>stat\<close> (an error, or whether it is a character
  device) and opened. The result is whether the output goes to the device, and the warnings.
\<close>

definition redirect_output ::
  "(string \<Rightarrow> string + bool) \<Rightarrow> (string \<Rightarrow> string option) \<Rightarrow> cptr \<Rightarrow> (bool \<times> string list) c_res" where
  "redirect_output stat_dev open_dev device =
     (let continuing = ''Continuing using stdout as output device.'' @ [nl] in
      case device of
        None \<Rightarrow> Inl NullDeref
      | Some d \<Rightarrow>
          if length d = 0 then Inr (False, [])
          else (case stat_dev d of
              Inl e \<Rightarrow> Inr (False, [''Warning: unable to check output device '' @ in_quotes d @ '' - '' @ e @ [nl],
                continuing])
            | Inr ischr \<Rightarrow>
                if \<not> ischr then Inr (False, [''Warning: '' @ in_quotes d @ '' is not a character device'' @ [nl],
                  continuing])
                else (case open_dev d of
                    None \<Rightarrow> Inr (True, [])
                  | Some e \<Rightarrow> Inr (False, [''Warning: error opening output device '' @ in_quotes d @ '' - '' @ e @ [nl],
                      continuing]))))"

definition CFG_PIDFILE :: string where "CFG_PIDFILE = ''/tmp/sysload.pid''"

definition write_pidfile :: "int \<Rightarrow> unit act" where
  "write_pidfile pid =
     abind (creat CFG_PIDFILE) (\<lambda>e.
       case e of
         Some _ \<Rightarrow> eprint_arg0 ('': fopen not possible for '' @ CFG_PIDFILE @ [nl])
       | None \<Rightarrow> abind (write_file CFG_PIDFILE (printf_d pid)) (\<lambda>_. aret ()))"

subsection \<open>The main program\<close>

definition unable_to_start :: "string \<Rightarrow> string" where
  "unable_to_start errmsg =
     ''Unable to start selected configuration:'' @ [nl] @ errmsg @ [nl] @ ''Please try again.'' @ [nl]"

text \<open>The result is the exit code of the program.\<close>

fun main_loop ::
  "('t, 'p) grammar \<Rightarrow> netifs \<Rightarrow> prog \<Rightarrow> (nat \<Rightarrow> byte) \<Rightarrow> kern \<Rightarrow> ui_kernel list \<Rightarrow> string \<Rightarrow> cfg_toplevel
   \<Rightarrow> cfg_bentry \<Rightarrow> signal option \<Rightarrow> 't scan_state \<Rightarrow> int act"
where
  "main_loop g net prog heap kern [] startup_msg config boot sig sc = spin"
| "main_loop g net prog heap kern (k # ks) startup_msg config boot sig sc =
     abind (userinterface g net prog k startup_msg config boot sig sc) (\<lambda>(ok, st).
       if \<not> ok then aret 1
       else abind (loader heap kern prog (ui_boot st)) (\<lambda>errmsg.
         main_loop g net prog heap kern ks (unable_to_start errmsg) (ui_config st)
           (cfg_bentry_destroy (ui_boot st)) (rcvd_sig st) (ui_scan st)))"

definition blank_config_msg :: "string \<Rightarrow> string" where
  "blank_config_msg errmsg =
     ''Error loading configuration data:'' @ [nl] @ errmsg @ [nl]
     @ ''Continuing with blank configuration'' @ [nl]"

text \<open>What the primary instance does first; an instance with a user interface of its own skips it.\<close>

definition primary_setup ::
  "('t, 'p) grammar \<Rightarrow> netifs \<Rightarrow> prog \<Rightarrow> int \<Rightarrow> sysload_arguments \<Rightarrow> 't scan_state act" where
  "primary_setup g net prog pid args =
     (case only_ui args of
        None \<Rightarrow> bad_act NullDeref
      | Some u \<Rightarrow>
          if length u = 0
          then abind (parse_kernel_cmdline g net prog scan_init) (\<lambda>sc.
               abind (write_pidfile pid) (\<lambda>_. aret sc))
          else aret scan_init)"

definition run_sysload ::
  "('t, 'p) grammar \<Rightarrow> netifs \<Rightarrow> prog \<Rightarrow> (nat \<Rightarrow> byte) \<Rightarrow> kern \<Rightarrow> ui_kernel list \<Rightarrow> 't scan_state
   \<Rightarrow> sysload_arguments \<Rightarrow> cfg_bentry \<Rightarrow> int act" where
  "run_sysload g net prog heap kern ks sc args boot =
     abind (parse_sysload g net prog sc args) (\<lambda>(errmsg, sc, config).
       case errmsg of
         Some m \<Rightarrow> main_loop g net prog heap kern ks (blank_config_msg m) cfg_init boot None sc
       | None \<Rightarrow> main_loop g net prog heap kern ks [] config boot None sc)"

definition sysload_main ::
  "('t, 'p) grammar \<Rightarrow> netifs \<Rightarrow> prog \<Rightarrow> (nat \<Rightarrow> byte) \<Rightarrow> kern \<Rightarrow> (string \<Rightarrow> string + bool)
   \<Rightarrow> (string \<Rightarrow> string option) \<Rightarrow> int \<Rightarrow> ui_kernel list \<Rightarrow> cfg_bentry \<Rightarrow> string list \<Rightarrow> int act" where
  "sysload_main g net prog heap kern stat_dev open_dev pid ks boot argv =
     abind (parse_arguments argv) (\<lambda>(pa, args).
     abind (case pa of
         PA_DONE \<Rightarrow> aret 0
       | PA_ERROR \<Rightarrow> aret 1
       | PA_VALID \<Rightarrow>
           abind (lift_res (redirect_output stat_dev open_dev (console args))) (\<lambda>_.
           abind (primary_setup g net prog pid args) (\<lambda>sc.
             run_sysload g net prog heap kern ks sc args boot))) (\<lambda>retval.
     if dg_level \<noteq> DG_OFF then abind (action_shell prog) (\<lambda>_. aret retval) else aret retval))"

subsection \<open>The halt program\<close>

text \<open>
  \<^verbatim>\<open>core/halt.c\<close>: the first letter of its own name selects the argument of \<^verbatim>\<open>reboot(2)\<close>. The result
  is an exit code or the flag.
\<close>

datatype reboot_flag = RB_AUTOBOOT | RB_HALT_SYSTEM | RB_POWER_OFF

definition base_name :: "string \<Rightarrow> string" where
  "base_name path = rev (takeWhile (\<lambda>c. c \<noteq> CHR ''/'') (rev path))"

definition halt_main :: "string \<Rightarrow> (int + reboot_flag) act" where
  "halt_main argv0 =
     (let flag = [RB_AUTOBOOT, RB_HALT_SYSTEM, RB_POWER_OFF];
          calling = (case base_name argv0 of [] \<Rightarrow> CHR 0x00 | c # _ \<Rightarrow> c) in
      case find_index (\<lambda>c. c = calling) ''rhp'' of
        None \<Rightarrow> abind (eprint (''Unknown '' @ in_quotes ''halt'' @ '' variation.'' @ [nl])) (\<lambda>_. aret (Inl 1))
      | Some cc \<Rightarrow> aret (Inr (flag ! cc)))"

subsection \<open>From the timeout to the boot\<close>

text \<open>Without user interfaces and timeout there is nothing to wait for: the program ends.\<close>

lemma main_loop_blank:
  assumes "uk_malloc k"
  shows "main_loop g net prog heap kern (k # ks) msg cfg_init boot sig sc s = (Done 1, s)"
  using assms by (simp add: userinterface_def run_clients_def cfg_init_def)

lemma run_sysload_error:
  assumes "parse_sysload g net prog sc args s = (Done (Some m, sc', config), t)" and "uk_malloc k"
  shows "run_sysload g net prog heap kern (k # ks) sc args boot s = (Done 1, t)"
  using assms main_loop_blank by (simp add: run_sysload_def)

text \<open>A timeout in the first turn: the default entry is handed to the loader.\<close>

definition boots_after_timeout :: "cfg_toplevel \<Rightarrow> bool" where
  "boots_after_timeout c \<longleftrightarrow> cfg_wf c \<and> 0 < timeout c
     \<and> 0 \<le> boot_default c \<and> boot_default c < int (bentry_count c)"

text \<open>The environment a user interface is started with.\<close>

definition exported :: "string \<Rightarrow> cfg_toplevel \<Rightarrow> environ \<Rightarrow> environ \<Rightarrow> bool" where
  "exported msg config env env' \<longleftrightarrow>
     ebind (cfg_set_env_str CFG_STARTUP_MSG (Some msg) env) (cfg_set_env config) = Inr env'"

lemma ui_timeout_default:
  assumes "boots_after_timeout c"
  shows "ui_timeout c = Inr (Some (bentry_list c ! nat (boot_default c)))"
proof -
  from assms have l: "nat (boot_default c) < length (bentry_list c)"
    by (auto simp: boots_after_timeout_def cfg_wf_def)
  with assms have "bentry_wf (bentry_list c ! nat (boot_default c))"
    by (simp add: boots_after_timeout_def cfg_wf_def)
  with assms l show ?thesis
    by (simp add: ui_timeout_def boots_after_timeout_def cfg_simps)
qed

lemma userinterface_timeout:
  assumes "boots_after_timeout config" and "uk_malloc k"
    and "\<forall>i < ui_count config. in_parent k i"
    and "uk_turns k = turn # turns" and "turn_select turn = Interrupted SIGALRM"
  shows "\<exists>st env. userinterface g net prog k msg config boot sig sc s
      = (Done (True, st), s\<lparr>sys_env := env\<rparr>)
    \<and> exported msg config (sys_env s) env \<and> ui_boot st = bentry_list config ! nat (boot_default config) \<and> ui_config st = config
    \<and> rcvd_sig st = Some SIGALRM \<and> ui_scan st = sc"
proof -
  let ?st = "ui_initial config boot sig sc"
  have wf: "cfg_wf config" and t: "0 < timeout config"
    using assms(1) by (simp_all add: boots_after_timeout_def)
  have l: "length (ui_list config) = ui_count config" using wf by (simp add: cfg_wf_def)
  obtain env where env: "ebind (cfg_set_env_str CFG_STARTUP_MSG (Some msg) (sys_env s)) (cfg_set_env config)
      = Inr env"
    using cfg_set_env_vars [OF wf] by (simp add: cfg_simps)
  define st0 where "st0 = ?st\<lparr>ui_clients := map (\<lambda>i. forked (uk_start k i)) [0..<ui_count config]\<rparr>"
  have start: "start_clients k 0 (ui_list config) ?st = aret (True, st0)"
    using start_clients_all [of ?st "ui_list config" k] assms(3) l by (simp add: st0_def)
  define st1 where "st1 = (receive [SIGALRM] (ui_select (timeout config)
      (receive (turn_signals turn) st0)))\<lparr>ui_boot := bentry_list config ! nat (boot_default config)\<rparr>"
  have "ui_loop g net prog (uk_turns k) (timeout config) st0 u = (Done (True, st1), u)" for u
    using ui_timeout_default [OF assms(1)]
    by (simp add: assms(4,5) st1_def receive_def ui_select_def st0_def)
  then have "run_clients g net prog k msg ?st s = (Done (True, st1), s\<lparr>sys_env := env\<rparr>)"
    using env start t l by (simp add: run_clients_def Let_def)
  then have "userinterface g net prog k msg config boot sig sc s
      = (Done (True, ui_cleanup k st1), s\<lparr>sys_env := env\<rparr>)"
    using assms(2) by (simp add: userinterface_def Let_def)
  moreover have "ui_boot (ui_cleanup k st1) = bentry_list config ! nat (boot_default config)"
    "ui_config (ui_cleanup k st1) = config"
    by (simp_all add: st1_def receive_def ui_select_def st0_def)
  moreover have "rcvd_sig (ui_cleanup k st1) = Some SIGALRM" "ui_scan (ui_cleanup k st1) = sc"
    by (simp_all add: ui_cleanup_def Let_def kill_running_def remove_terminated_clients_def st1_def
        receive_def ui_select_def st0_def ui_initial_def)
  ultimately show ?thesis using env unfolding exported_def by blast
qed

lemma main_loop_timeout:
  assumes "boots_after_timeout config" and "uk_malloc k"
    and "\<forall>i < ui_count config. in_parent k i"
    and "uk_turns k = turn # turns" and "turn_select turn = Interrupted SIGALRM"
  shows "\<exists>env. exported msg config (sys_env s) env \<and> main_loop g net prog heap kern (k # ks) msg config boot sig sc s
    = (let b = bentry_list config ! nat (boot_default config) in
       abind (loader heap kern prog b) (\<lambda>errmsg.
         main_loop g net prog heap kern ks (unable_to_start errmsg) config (cfg_bentry_destroy b)
           (Some SIGALRM) sc) (s\<lparr>sys_env := env\<rparr>))"
proof -
  obtain st env where "userinterface g net prog k msg config boot sig sc s
      = (Done (True, st), s\<lparr>sys_env := env\<rparr>)"
    "ui_boot st = bentry_list config ! nat (boot_default config)" "ui_config st = config"
    "exported msg config (sys_env s) env" "rcvd_sig st = Some SIGALRM" "ui_scan st = sc"
    using userinterface_timeout [OF assms] by blast
  then show ?thesis by (intro exI [of _ env]) (simp add: Let_def)
qed

end
