(* ===== verification/Linemode.thy ===== *)
theory Linemode
  imports UiControl
begin

section \<open>The linemode user interface\<close>

text \<open>
  Models \<^verbatim>\<open>core/ui_linemode.c\<close>, the program that shows the boot entries on a terminal and prints
  the selected one for the main program. The terminal is its remaining input and the output
  written so far; at the end of the input \<^verbatim>\<open>fgets\<close> returns NULL and \<^verbatim>\<open>getc\<close> EOF. \<^verbatim>\<open>malloc\<close> does not
  fail. Undefined behaviour is \<open>LmUb\<close>, a loop that never ends \<open>LmSpin\<close>.
\<close>

datatype lm_stop = LmUb ub | LmSpin

fun lm_lift :: "'a c_res \<Rightarrow> lm_stop + 'a" where
  "lm_lift (Inl u) = Inl (LmUb u)"
| "lm_lift (Inr x) = Inr x"

subsection \<open>The terminal\<close>

text \<open>
  \<open>tc_ok\<close> says whether the attributes of the terminal can be read and set; \<open>tty_raw\<close> is the variable
  \<^verbatim>\<open>term_status\<close>; \<open>tty_usr1\<close> are the processes that have been sent \<^verbatim>\<open>SIGUSR1\<close>.
\<close>

record tty =
  tty_in :: string
  tty_out :: string
  tty_raw :: bool
  tc_ok :: bool
  tty_usr1 :: "int list"

definition put :: "string \<Rightarrow> tty \<Rightarrow> tty" where
  "put s t = t\<lparr>tty_out := tty_out t @ s\<rparr>"

definition set_terminal :: "bool \<Rightarrow> tty \<Rightarrow> int \<times> tty" where
  "set_terminal on t =
     (if on \<noteq> tty_raw t then (if tc_ok t then (0, t\<lparr>tty_raw := on\<rparr>) else (- 1, t)) else (0, t))"

text \<open>\<^verbatim>\<open>fgets\<close> from the terminal; None is NULL, which leaves the buffer as it was.\<close>

definition fgets_tty :: "nat \<Rightarrow> tty \<Rightarrow> string option \<times> tty" where
  "fgets_tty n t =
     (if tty_in t = [] then (None, t)
      else let l = fgets_line n (tty_in t) in (Some (cstr l), t\<lparr>tty_in := drop (length l) (tty_in t)\<rparr>))"

text \<open>The process identifier of the main program, from the contents of its pid file.\<close>

definition getkppid :: "string option \<Rightarrow> int \<Rightarrow> int c_res" where
  "getkppid pidfile ppid =
     (case pidfile of
        None \<Rightarrow> Inr ppid
      | Some s \<Rightarrow> ebind (sscanf_d s) (\<lambda>r. Inr (case r of None \<Rightarrow> - 1 | Some pid \<Rightarrow> pid)))"

definition sigtermhandler :: "tty \<Rightarrow> tty" where
  "sigtermhandler t =
     put (''entry has been selected via timeout or another user interface!'' @ [nl]) (snd (set_terminal False t))"

definition default_sig_handler :: "tty \<Rightarrow> tty" where
  "default_sig_handler t = snd (set_terminal False t)"

text \<open>
  The characters up to the end of the line. The buffer takes \<^verbatim>\<open>CFG_STR_MAX_LEN\<close> of them, and the
  terminating 0 is then written behind it. At the end of the input \<^verbatim>\<open>getc\<close> returns EOF over and over,
  which is never a newline.
\<close>

definition password_check :: "string \<Rightarrow> tty \<Rightarrow> lm_stop + (bool \<times> tty)" where
  "password_check passwd t =
     (let t = put ([nl] @ ''Please enter the password: '') (snd (set_terminal True t)) in
      case find_index (\<lambda>c. c = nl) (tty_in t) of
        None \<Rightarrow> Inl LmSpin
      | Some i \<Rightarrow>
          let typed = take i (tty_in t) in
          if CFG_STR_MAX_LEN \<le> length typed then Inl (LmUb OutOfBounds)
          else
            let t = snd (set_terminal False (put [nl] (t\<lparr>tty_in := drop (Suc i) (tty_in t)\<rparr>))) in
            if passwd = cstr typed then Inr (True, put ([nl] @ ''Password OK!'' @ [nl]) t)
            else Inr (False, put ([nl] @ ''Password incorrect!'' @ [nl]) t))"

text \<open>The key, or None at the end of the input, where \<^verbatim>\<open>(char) EOF\<close> is returned.\<close>

definition keypressed :: "tty \<Rightarrow> char option \<times> tty" where
  "keypressed t =
     (let t = snd (set_terminal True t) in
      case tty_in t of
        [] \<Rightarrow> (None, snd (set_terminal False t))
      | c # s \<Rightarrow> (if c = CHR 0xFF then None else Some c, snd (set_terminal False (t\<lparr>tty_in := s\<rparr>))))"

subsection \<open>Commands\<close>

definition skip_blanks :: "string \<Rightarrow> string" where
  "skip_blanks s = dropWhile (\<lambda>c. c = CHR '' '') s"

text \<open>The command, 0 when there is none, and the number of the entry, 0 when there is none.\<close>

definition compute_selection :: "string \<Rightarrow> (char \<times> int) c_res" where
  "compute_selection line =
     (if line = [] then Inr (CHR 0x00, 0)
      else let input = skip_blanks line in
        ebind (sscanf_d input) (\<lambda>r.
        case r of
          None \<Rightarrow>
            (case input of
               [] \<Rightarrow> Inr (CHR 0x00, 0)
             | cmd # rest \<Rightarrow>
                 let rest = skip_blanks rest in
                 if rest = [] then Inr (cmd, 0)
                 else ebind (sscanf_d rest) (\<lambda>n. Inr (cmd, case n of None \<Rightarrow> 0 | Some n \<Rightarrow> n)))
        | Some n \<Rightarrow>
            let rest = skip_blanks (drop (strspn input ''0123456789'') input) in
            Inr (case rest of [] \<Rightarrow> CHR 0x00 | cmd # _ \<Rightarrow> cmd, n)))"

definition pad9 :: "string \<Rightarrow> string" where
  "pad9 s = s @ replicate (9 - length s) CHR '' ''"

definition print_value :: "string \<Rightarrow> cptr \<Rightarrow> string" where
  "print_value what v =
     (case v of None \<Rightarrow> [] | Some x \<Rightarrow> if length x = 0 then [] else pad9 what @ '' '' @ x @ [nl])"

definition action_name :: "boot_action \<Rightarrow> string option" where
  "action_name a =
     (case a of KERNEL_BOOT \<Rightarrow> Some ''KERNEL_BOOT'' | INSFILE_BOOT \<Rightarrow> Some ''INSFILE_BOOT''
      | BOOTMAP_BOOT \<Rightarrow> Some ''BOOTMAP_BOOT'' | REBOOT \<Rightarrow> Some ''REBOOT'' | HALT \<Rightarrow> Some ''HALT''
      | SHELL \<Rightarrow> Some ''SHELL'' | EXIT \<Rightarrow> Some ''EXIT'' | INVALID_ACTION _ \<Rightarrow> None)"

definition print_selection :: "cfg_bentry \<Rightarrow> string" where
  "print_selection b =
     [nl] @ ''*** BOOT ENTRY PRINTOUT ***'' @ [nl]
     @ print_value ''title'' (title b) @ print_value ''label'' (label b)
     @ print_value ''root'' (root b) @ print_value ''kernel'' (kernel b)
     @ print_value ''initrd'' (initrd b) @ print_value ''cmdline'' (cmdline b)
     @ print_value ''parmfile'' (parmfile b) @ print_value ''insfile'' (insfile b)
     @ print_value ''bootmap'' (bootmap b) @ print_value ''pause'' (pause b)
     @ (case action_name (action b) of None \<Rightarrow> [] | Some n \<Rightarrow> pad9 ''action'' @ '' '' @ n @ [nl, nl])"

subsection \<open>Entering an entry\<close>

text \<open>
  One value: the line without its last character. At the end of the input the buffer is read
  uninitialized; a line that begins with a 0 byte makes the program write in front of its copy.
\<close>

definition get_input :: "string \<Rightarrow> tty \<Rightarrow> (cptr \<times> tty) c_res" where
  "get_input what t =
     (case fgets_tty CFG_STR_MAX_LEN (put (pad9 what @ '' '') t) of
        (None, t) \<Rightarrow> Inl Uninitialized
      | (Some line, t) \<Rightarrow> if line = [] then Inl OutOfBounds else Inr (Some (butlast line), t))"

lemma fgets_tty_less:
  assumes "fgets_tty n t = (Some l, t')" and "1 < n"
  shows "length (tty_in t') < length (tty_in t)"
proof -
  have ne: "tty_in t \<noteq> []" and t': "t' = t\<lparr>tty_in := drop (length (fgets_line n (tty_in t))) (tty_in t)\<rparr>"
    using assms(1) by (auto simp: fgets_tty_def Let_def split: if_splits)
  from fgets_line_less [OF ne assms(2)] show ?thesis by (simp add: t')
qed

lemma fgets_put_less:
  "(Some l, t') = fgets_tty CFG_STR_MAX_LEN (put s t) \<Longrightarrow> length (tty_in t') < length (tty_in t)"
  using fgets_tty_less [of CFG_STR_MAX_LEN "put s t" l t'] by (simp add: CFG_STR_MAX_LEN_def put_def)

text \<open>
  The loop that asks for the action. Once a line has been read, the end of the input leaves it in
  the buffer and the loop does not end.
\<close>

function get_action :: "bool \<Rightarrow> tty \<Rightarrow> lm_stop + (int \<times> tty)" where
  "get_action again t =
     (case fgets_tty CFG_STR_MAX_LEN (put (pad9 ''action'' @ '' '') t) of
        (None, t) \<Rightarrow> Inl (if again then LmSpin else LmUb Uninitialized)
      | (Some line, t) \<Rightarrow>
          ebind (lm_lift (atoi line)) (\<lambda>a.
            if a < 1 \<or> 3 < a then get_action True t else Inr (a - 1, t)))"
  by pat_completeness auto
termination
  by (relation "measure (\<lambda>(_, t). length (tty_in t))") (auto dest: fgets_put_less)

declare get_action.simps [simp del]

text \<open>The values for an action: 1 and 2 are INSFILE and boot map, the rest is a kernel.\<close>

definition ask_values :: "int \<Rightarrow> tty \<Rightarrow> (cfg_bentry \<times> tty) c_res" where
  "ask_values a t =
     (if a = 1 then ebind (get_input ''insfile'' t) (\<lambda>(v, t).
        Inr (bentry_zero\<lparr>action := INSFILE_BOOT, insfile := v\<rparr>, t))
      else if a = 2 then ebind (get_input ''bootmap'' t) (\<lambda>(v, t).
        Inr (bentry_zero\<lparr>action := BOOTMAP_BOOT, bootmap := v\<rparr>, t))
      else
        ebind (get_input ''root'' t) (\<lambda>(r, t).
        ebind (get_input ''kernel'' t) (\<lambda>(k, t).
        ebind (get_input ''initrd'' t) (\<lambda>(i, t).
        ebind (get_input ''cmdline'' t) (\<lambda>(c, t).
        ebind (if a = 0 then get_input ''parmfile'' t else Inr (None, t)) (\<lambda>(p, t).
          Inr (bentry_zero\<lparr>action := KERNEL_BOOT, root := r, kernel := k, initrd := i,
            cmdline := c, parmfile := p\<rparr>, t)))))))"

definition get_man_boot :: "int \<Rightarrow> tty \<Rightarrow> lm_stop + (cfg_bentry \<times> tty)" where
  "get_man_boot type t =
     ebind (if type < 0
            then get_action False
              (put (pad9 ''ACTION'' @ ''=> 1->KERNEL_BOOT 2->INSFILE_BOOT 3->BOOTMAP_BOOT'' @ [nl]) t)
            else Inr (0, t)) (\<lambda>(a, t). lm_lift (ask_values a t))"

text \<open>\<^verbatim>\<open>assign_input (X, Y)\<close>: an empty value is replaced by the old one, blanks by NULL.\<close>

definition assign_input :: "cptr \<Rightarrow> cptr \<Rightarrow> cptr c_res" where
  "assign_input x y =
     (case x of
        None \<Rightarrow> Inl NullDeref
      | Some s \<Rightarrow>
          Inr (if length s = 0 then y else if length s = strspn s '' '' then None else x))"

text \<open>The command \<open>m\<close> for an entry that can be modified.\<close>

definition modify_entry :: "cfg_bentry \<Rightarrow> tty \<Rightarrow> lm_stop + (cfg_bentry \<times> tty)" where
  "modify_entry old t =
     (let t = put (print_selection old @ ''*** Please enter the new values for each line ***'' @ [nl]
            @ ''*** or hit ENTER to leave it unchanged.       ***'' @ [nl]) t in
      ebind (get_man_boot (int_of_action (action old)) t) (\<lambda>(b, t).
      lm_lift (case action old of
        KERNEL_BOOT \<Rightarrow>
          ebind (assign_input (root b) (root old)) (\<lambda>r.
          ebind (assign_input (kernel b) (kernel old)) (\<lambda>k.
          ebind (assign_input (initrd b) (initrd old)) (\<lambda>i.
          ebind (assign_input (cmdline b) (cmdline old)) (\<lambda>c.
          ebind (assign_input (parmfile b) (parmfile old)) (\<lambda>p.
            Inr (b\<lparr>root := r, kernel := k, initrd := i, cmdline := c, parmfile := p\<rparr>, t))))))
      | INSFILE_BOOT \<Rightarrow>
          (case insfile b of
             None \<Rightarrow> Inl NullDeref
           | Some s \<Rightarrow> Inr (if length s = 0 then b\<lparr>insfile := insfile old\<rparr> else b, t))
      | _ \<Rightarrow>
          (case bootmap b of
             None \<Rightarrow> Inl NullDeref
           | Some s \<Rightarrow> Inr (if length s = 0 \<or> strspn s '' '' = length s
               then b\<lparr>bootmap := bootmap old\<rparr> else b, t)))))"

subsection \<open>The menu\<close>

definition menu_line :: "cfg_toplevel \<Rightarrow> nat \<Rightarrow> string" where
  "menu_line c i =
     (let b = bentry_list c ! i in
      (if int i = boot_default c then ''->'' else ''  '') @ (if locked b \<noteq> 0 then ''['' else '' '')
      @ printf_d (int i + 1) @ [CHR 9] @ str_arg (title b) @ (if locked b \<noteq> 0 then '']'' @ [nl] else [nl]))"

definition menu :: "cfg_toplevel \<Rightarrow> string \<Rightarrow> string" where
  "menu c message =
     [nl] @ ''Welcome to System Loader 1.0.0'' @ [nl, nl]
     @ (if length message \<noteq> 0 then message @ [nl, nl] else [])
     @ ''The following boot options are available:'' @ [nl, nl]
     @ concat (map (menu_line c) [0..<bentry_count c])
     @ ''   d<n>'' @ [CHR 9] @ ''Display boot parameters of the selected entry'' @ [nl]
     @ ''   m<n>'' @ [CHR 9] @ ''Modify and boot selected entry'' @ [nl]
     @ ''   i'' @ [CHR 9] @ ''Enter boot parameters interactively'' @ [nl]
     @ [nl] @ ''Please enter your selection:'' @ [nl]
     @ (if 0 < timeout c
        then ''(default will be selected in '' @ printf_d (timeout c) @ '' seconds) '' @ [nl] else [])"

text \<open>The result of one round of the menu: another round, or the entry to boot.\<close>

datatype lm_result = Again | Chosen cfg_bentry

text \<open>A new entry is shown and booted when the user confirms it.\<close>

definition confirm :: "cfg_bentry \<Rightarrow> tty \<Rightarrow> lm_result \<times> tty" where
  "confirm b t =
     (case keypressed (put (print_selection b
          @ ''*** Press '' @ in_quotes ''B'' @ '' to boot this entry or any other key to cancel ***'' @ [nl]) t) of
        (None, t) \<Rightarrow> (Again, put (''Terminal-I/O error !'' @ [nl]) t)
      | (Some c, t) \<Rightarrow>
          if c = CHR ''B'' \<or> c = CHR ''b''
          then (Chosen (b\<lparr>title := Some ''manual_title'', label := Some ''manual_label''\<rparr>),
                put (''Booting '' @ [nl]) t)
          else (Again, t))"

definition run_command :: "char \<Rightarrow> cfg_bentry \<Rightarrow> tty \<Rightarrow> lm_stop + (lm_result \<times> tty)" where
  "run_command command b t =
     (if command = CHR ''d'' \<or> command = CHR ''D'' then
        (case keypressed (put (print_selection b @ ''*** Press RETURN to continue ***'' @ [nl]) t) of
           (None, t) \<Rightarrow> Inr (Again, put (''Terminal-I/O error !'' @ [nl]) t)
         | (Some _, t) \<Rightarrow> Inr (Again, t))
      else if command = CHR ''i'' \<or> command = CHR ''I'' then
        ebind (get_man_boot (- 1)
            (put (''*** Please enter the values for manual boot***'' @ [nl]) t)) (\<lambda>(b, t).
          Inr (confirm b t))
      else if command = CHR ''m'' \<or> command = CHR ''M'' then
        (if action b \<in> {KERNEL_BOOT, INSFILE_BOOT, BOOTMAP_BOOT}
         then ebind (modify_entry b t) (\<lambda>(b, t). Inr (confirm b t))
         else Inr (Again, put (''This boot entry cannot be modified.'' @ [nl]) t))
      else if command = CHR 0x00 then Inr (Chosen b, t)
      else Inr (Again, put (''Unknown command !'' @ [nl]) t))"

text \<open>The entry of a line: its position in the list, when it exists.\<close>

definition selected_entry :: "cfg_toplevel \<Rightarrow> int \<Rightarrow> nat option c_res" where
  "selected_entry c n =
     ebind (if n \<noteq> 0 then c_int (n - 1) else Inr (boot_default c)) (\<lambda>s.
       Inr (if s < 0 \<or> int (bentry_count c) - 1 < s then None else Some (nat s)))"

text \<open>A locked entry needs the password.\<close>

definition unlock :: "cfg_toplevel \<Rightarrow> cfg_bentry \<Rightarrow> tty \<Rightarrow> lm_stop + (bool \<times> tty)" where
  "unlock c b t =
     (if locked b = 0 then Inr (True, t)
      else case password c of None \<Rightarrow> Inl (LmUb NullDeref) | Some pw \<Rightarrow> password_check pw t)"

text \<open>What is done with an input line.\<close>

definition lm_select :: "cfg_toplevel \<Rightarrow> string \<Rightarrow> tty \<Rightarrow> lm_stop + (lm_result \<times> tty)" where
  "lm_select c input t =
     (if length input = strspn input '' '' then Inr (Again, t)
      else ebind (lm_lift (compute_selection input)) (\<lambda>(command, n).
        ebind (lm_lift (selected_entry c n)) (\<lambda>entry.
          case entry of
            None \<Rightarrow> Inr (Again, put (''Invalid input.'' @ [nl]) t)
          | Some i \<Rightarrow>
              ebind (unlock c (bentry_list c ! i) t) (\<lambda>(ok, t).
                if ok then run_command command (bentry_list c ! i) t else Inr (Again, t)))))"

text \<open>
  One round. \<open>buf\<close> is the input buffer, which survives the rounds: \<^verbatim>\<open>fgets\<close> leaves it as it is at the
  end of the input, and its last character is then cut off once more. An empty buffer makes the
  program write in front of it.
\<close>

definition round_line :: "cfg_toplevel \<Rightarrow> string \<Rightarrow> string \<Rightarrow> tty \<Rightarrow> string \<times> tty" where
  "round_line c message buf t =
     (let (l, t) = fgets_tty CFG_STR_MAX_LEN (put (menu c message) t) in
      (case l of None \<Rightarrow> buf | Some line \<Rightarrow> line, t))"

definition lm_round ::
  "cfg_toplevel \<Rightarrow> string \<Rightarrow> int c_res \<Rightarrow> string \<Rightarrow> tty \<Rightarrow> lm_stop + (lm_result \<times> string \<times> tty)" where
  "lm_round c message kppid buf t =
     (let (line, t) = round_line c message buf t in
      ebind (lm_lift kppid) (\<lambda>pid.
      if line = [] then Inl (LmUb OutOfBounds)
      else ebind (lm_select c (butlast line) (t\<lparr>tty_usr1 := tty_usr1 t @ [pid]\<rparr>)) (\<lambda>(r, t).
        Inr (r, butlast line, t))))"

subsection \<open>The input is read from front to back\<close>

definition reads :: "tty \<Rightarrow> tty \<Rightarrow> bool" where
  "reads t t' \<longleftrightarrow> (\<exists>pre. tty_in t = pre @ tty_in t')"

lemma reads_refl [simp]: "reads t t"
  by (simp add: reads_def)

lemma reads_trans: "reads t u \<Longrightarrow> reads u v \<Longrightarrow> reads t v"
  unfolding reads_def by (metis append_assoc)

lemma reads_put [simp]: "reads (put s t) u = reads t u" "reads t (put s u) = reads t u"
  by (simp_all add: reads_def put_def)

lemma reads_set_terminal [simp]:
  "reads (snd (set_terminal on t)) u = reads t u" "reads t (snd (set_terminal on u)) = reads t u"
  by (simp_all add: reads_def set_terminal_def)

lemma reads_usr1 [simp]: "reads t (u\<lparr>tty_usr1 := x\<rparr>) = reads t u"
  by (simp add: reads_def)

lemma tty_in_simps [simp]:
  "tty_in (put s t) = tty_in t" "tty_in (snd (set_terminal on t)) = tty_in t"
  by (simp_all add: put_def set_terminal_def)

lemma fgets_reads: "fgets_tty n t = (l, t') \<Longrightarrow> reads t t'"
  unfolding reads_def
  by (cases "tty_in t = []") (auto simp: fgets_tty_def Let_def
      intro!: exI [of _ "take (length (fgets_line n (tty_in t))) (tty_in t)"])

lemma keypressed_reads: "keypressed t = (k, t') \<Longrightarrow> reads t t'"
  by (auto simp: keypressed_def Let_def reads_def split: list.splits)

lemma get_input_reads: "get_input what t = Inr (v, t') \<Longrightarrow> reads t t'"
  by (auto simp: get_input_def split: prod.splits option.splits if_splits dest: fgets_reads)

lemma lm_lift_Inr [simp]: "lm_lift x = Inr y \<longleftrightarrow> x = Inr y"
  by (cases x) simp_all

lemma get_action_reads: "get_action again t = Inr (a, t') \<Longrightarrow> reads t t'"
proof (induction again t rule: get_action.induct)
  case (1 again t)
  obtain l u where l: "fgets_tty CFG_STR_MAX_LEN (put (pad9 ''action'' @ '' '') t) = (l, u)" by fastforce
  have r: "reads t u" using fgets_reads [OF l] by simp
  from 1(2) l obtain line where line: "l = Some line"
    by (cases l) (simp_all add: get_action.simps [of again t])
  with 1(2) l obtain b where b: "atoi line = Inr b"
    and n: "(if b < 1 \<or> 3 < b then get_action True u else Inr (b - 1, u)) = Inr (a, t')"
    by (auto simp: get_action.simps [of again t] ebind_Inr_iff)
  show ?case
  proof (cases "b < 1 \<or> 3 < b")
    case True
    with n have "get_action True u = Inr (a, t')" by simp
    from 1(1) [OF l [symmetric] line _ True this] b have "reads u t'" by simp
    with r show ?thesis by (rule reads_trans)
  next
    case False
    with n r show ?thesis by simp
  qed
qed

lemma reads_bind:
  assumes "ebind m f = Inr (b, t')" and "\<And>v u. m = Inr (v, u) \<Longrightarrow> reads t u"
    and "\<And>v u. f (v, u) = Inr (b, t') \<Longrightarrow> reads u t'"
  shows "reads t t'"
proof -
  from assms(1) obtain v u where "m = Inr (v, u)" and "f (v, u) = Inr (b, t')"
    by (auto simp: ebind_Inr_iff)
  with assms(2,3) show ?thesis by (blast intro: reads_trans)
qed

lemma ask_values_reads: "ask_values a t = Inr (b, t') \<Longrightarrow> reads t t'"
  unfolding ask_values_def
  by (simp split: if_split_asm)
    (erule reads_bind, force split: if_split_asm dest: get_input_reads, simp)+

lemma get_man_boot_reads:
  assumes "get_man_boot type t = Inr (b, t')"
  shows "reads t t'"
proof -
  from assms obtain a u where a: "(if type < 0
            then get_action False
              (put (pad9 ''ACTION'' @ ''=> 1->KERNEL_BOOT 2->INSFILE_BOOT 3->BOOTMAP_BOOT'' @ [nl]) t)
            else Inr (0, t)) = Inr (a, u)" and v: "ask_values a u = Inr (b, t')"
    unfolding get_man_boot_def ebind_Inr_iff by auto
  have "reads t u"
  proof (cases "type < 0")
    case True
    with a have "get_action False (put (pad9 ''ACTION''
        @ ''=> 1->KERNEL_BOOT 2->INSFILE_BOOT 3->BOOTMAP_BOOT'' @ [nl]) t) = Inr (a, u)" by simp
    from get_action_reads [OF this] show ?thesis by simp
  qed (use a in simp)
  then show ?thesis using ask_values_reads [OF v] by (rule reads_trans)
qed

lemma modify_entry_reads: "modify_entry old t = Inr (b, t') \<Longrightarrow> reads t t'"
  unfolding modify_entry_def Let_def
  by (erule reads_bind, drule get_man_boot_reads, simp)
    (auto simp: ebind_Inr_iff split: boot_action.splits option.splits)

lemma confirm_reads: "confirm b t = (r, t') \<Longrightarrow> reads t t'"
  by (auto simp: confirm_def split: prod.splits option.splits if_splits dest!: keypressed_reads)

lemma run_command_reads:
  assumes "run_command command b t = Inr (r, t')"
  shows "reads t t'"
proof -
  consider "command = CHR ''d'' \<or> command = CHR ''D''" | "command = CHR ''i'' \<or> command = CHR ''I''"
    | "command = CHR ''m'' \<or> command = CHR ''M''" | "r = Again \<or> r = Chosen b" "reads t t'"
    using assms by (auto simp: run_command_def split: if_splits)
  then show ?thesis
  proof cases
    case 1
    with assms show ?thesis
      by (auto simp: run_command_def split: prod.splits option.splits dest!: keypressed_reads)
  next
    case 2
    with assms obtain s c u where g: "get_man_boot (- 1) (put s t) = Inr (c, u)" and "confirm c u = (r, t')"
      by (auto simp: run_command_def ebind_Inr_iff)
    from get_man_boot_reads [OF g] confirm_reads [OF this(2)] show ?thesis by (auto intro: reads_trans)
  next
    case 3
    show ?thesis
    proof (cases "action b \<in> {KERNEL_BOOT, INSFILE_BOOT, BOOTMAP_BOOT}")
      case True
      with 3 assms obtain c u where g: "modify_entry b t = Inr (c, u)" and "confirm c u = (r, t')"
        by (auto simp: run_command_def ebind_Inr_iff)
      from modify_entry_reads [OF g] confirm_reads [OF this(2)] show ?thesis by (rule reads_trans)
    next
      case False
      with 3 assms show ?thesis by (auto simp: run_command_def)
    qed
  qed
qed

lemma password_check_typed:
  assumes "password_check pw t = Inr (ok, t')"
  shows "\<exists>w. tty_in t = w @ nl # tty_in t' \<and> nl \<notin> set w \<and> length w < CFG_STR_MAX_LEN
    \<and> (ok \<longleftrightarrow> pw = cstr w)"
proof -
  from assms obtain i where i: "find_index (\<lambda>c. c = nl) (tty_in t) = Some i"
    by (auto simp: password_check_def Let_def split: option.splits)
  from find_index_Some [OF i] have l: "i < length (tty_in t)" "tty_in t ! i = nl"
    and before: "\<forall>j < i. tty_in t ! j \<noteq> nl" by simp_all
  from l have "tty_in t = take i (tty_in t) @ nl # drop (Suc i) (tty_in t)"
    using id_take_nth_drop by metis
  moreover have "nl \<notin> set (take i (tty_in t))"
    using before l(1) by (auto simp: in_set_conv_nth)
  moreover have "tty_in t' = drop (Suc i) (tty_in t) \<and> i < CFG_STR_MAX_LEN
      \<and> (ok \<longleftrightarrow> pw = cstr (take i (tty_in t)))"
    using assms i l(1) by (auto simp: password_check_def Let_def split: if_splits)
  ultimately show ?thesis using l(1) by (intro exI [of _ "take i (tty_in t)"]) simp
qed

lemma password_check_reads: "password_check pw t = Inr (ok, t') \<Longrightarrow> reads t t'"
  by (drule password_check_typed) (auto simp: reads_def intro: exI [of _ "_ @ [_]"])

text \<open>Only an entry as it is, or one that was entered and confirmed, is chosen.\<close>

lemma confirm_chosen: "confirm b t = (Chosen b', t') \<Longrightarrow> title b' = Some ''manual_title''"
  by (auto simp: confirm_def split: prod.splits option.splits if_splits)

lemma run_command_chosen:
  "run_command command b t = Inr (Chosen b', t') \<Longrightarrow> b' = b \<or> title b' = Some ''manual_title''"
  by (auto simp: run_command_def ebind_Inr_iff split: if_splits prod.splits option.splits
      dest: confirm_chosen)

lemma selected_entry_bound: "selected_entry c n = Inr (Some i) \<Longrightarrow> i < bentry_count c"
  by (auto simp: selected_entry_def ebind_Inr_iff split: if_splits)

lemma unlock_reads: "unlock c b t = Inr (ok, t') \<Longrightarrow> reads t t'"
  by (auto simp: unlock_def split: if_splits option.splits dest: password_check_reads)

lemma unlock_typed:
  assumes "unlock c b t = Inr (True, t')" and "locked b \<noteq> 0"
  shows "\<exists>pw w. password c = Some pw \<and> tty_in t = w @ nl # tty_in t' \<and> nl \<notin> set w \<and> pw = cstr w"
  using assms password_check_typed [of _ t True t'] by (fastforce simp: unlock_def split: option.splits)

lemma lm_select_reads: "lm_select c input t = Inr (r, t') \<Longrightarrow> reads t t'"
  by (auto simp: lm_select_def ebind_Inr_iff split: if_splits option.splits
      dest!: unlock_reads run_command_reads intro: reads_trans)

lemma lm_select_chosen:
  assumes "lm_select c input t = Inr (Chosen b, t')"
  obtains command n i u where "compute_selection input = Inr (command, n)"
    and "selected_entry c n = Inr (Some i)" and "unlock c (bentry_list c ! i) t = Inr (True, u)"
    and "run_command command (bentry_list c ! i) u = Inr (Chosen b, t')"
  using assms by (auto simp: lm_select_def ebind_Inr_iff split: if_splits option.splits)

subsection \<open>The loop\<close>

lemma round_line_less:
  assumes "round_line c message buf t = (line, u)" and "line \<noteq> []"
  shows "length (tty_in u) < length (tty_in t) \<or> (tty_in u = tty_in t \<and> length (butlast line) < length buf)"
proof (cases "tty_in t = []")
  case True
  with assms show ?thesis by (auto simp: round_line_def fgets_tty_def)
next
  case False
  then obtain l where "(Some l, u) = fgets_tty CFG_STR_MAX_LEN (put (menu c message) t)"
    using assms(1) by (auto simp: round_line_def fgets_tty_def Let_def)
  then show ?thesis using fgets_put_less by blast
qed

lemma round_line_reads: "round_line c message buf t = (line, u) \<Longrightarrow> reads t u"
  by (auto simp: round_line_def split: prod.splits dest!: fgets_reads)

lemma lm_round_select:
  assumes "lm_round c message kppid buf t = Inr (r, buf', t')"
  obtains line u v where "round_line c message buf t = (line, u)" and "line \<noteq> []"
    and "buf' = butlast line" and "tty_in v = tty_in u" and "lm_select c buf' v = Inr (r, t')"
proof -
  obtain line u where l: "round_line c message buf t = (line, u)" by fastforce
  with assms obtain pid where "line \<noteq> []" and "buf' = butlast line"
    and "lm_select c buf' (u\<lparr>tty_usr1 := tty_usr1 u @ [pid]\<rparr>) = Inr (r, t')"
    by (auto simp: lm_round_def ebind_Inr_iff split: if_splits)
  with l show ?thesis by (intro that [of line u "u\<lparr>tty_usr1 := tty_usr1 u @ [pid]\<rparr>"]) simp_all
qed

lemma reads_length: "reads t t' \<Longrightarrow> length (tty_in t') \<le> length (tty_in t)"
  by (auto simp: reads_def)

lemma reads_same: "tty_in u = tty_in t \<Longrightarrow> reads t v = reads u v"
  by (simp add: reads_def)

lemma lm_round_reads: "lm_round c message kppid buf t = Inr (r, buf', t') \<Longrightarrow> reads t t'"
  by (elim lm_round_select) (metis lm_select_reads round_line_reads reads_same reads_trans)

text \<open>Every round reads input, or, at its end, shortens the buffer.\<close>

lemma lm_round_less:
  assumes "lm_round c message kppid buf t = Inr (r, buf', t')"
  shows "length (tty_in t') < length (tty_in t)
    \<or> (length (tty_in t') = length (tty_in t) \<and> length buf' < length buf)"
proof -
  from assms obtain line u v where l: "round_line c message buf t = (line, u)" "line \<noteq> []"
    "buf' = butlast line" and v: "tty_in v = tty_in u" "lm_select c buf' v = Inr (r, t')"
    by (rule lm_round_select)
  from reads_length [OF lm_select_reads [OF v(2)]] v(1)
  have "length (tty_in t') \<le> length (tty_in u)" by simp
  with round_line_less [OF l(1,2)] l(3) show ?thesis by auto
qed

function lm_loop ::
  "cfg_toplevel \<Rightarrow> string \<Rightarrow> int c_res \<Rightarrow> string \<Rightarrow> tty \<Rightarrow> lm_stop + (cfg_bentry \<times> string \<times> tty)" where
  "lm_loop c message kppid buf t =
     ebind (lm_round c message kppid buf t) (\<lambda>(r, buf, t).
       case r of Again \<Rightarrow> lm_loop c message kppid buf t | Chosen b \<Rightarrow> Inr (b, buf, t))"
  by pat_completeness auto
termination
  by (relation "measures [\<lambda>(_, _, _, _, t). length (tty_in t), \<lambda>(_, _, _, buf, _). length buf]")
    (auto dest: lm_round_less)

declare lm_loop.simps [simp del]

text \<open>
  The program. \<open>can_open\<close> says whether a device can be opened for reading (True) or writing; the
  fallback is the controlling terminal. The result is the exit code and the standard output.
\<close>

definition open_terminal :: "(string \<Rightarrow> bool \<Rightarrow> bool) \<Rightarrow> string \<Rightarrow> string \<Rightarrow> bool" where
  "open_terminal can_open ctermid device =
     (list_all (\<lambda>m. can_open device m \<or> can_open ctermid m) [True, False])"

definition show_pause :: "cfg_bentry \<Rightarrow> tty \<Rightarrow> tty" where
  "show_pause b t =
     (case pause b of
        None \<Rightarrow> t
      | Some p \<Rightarrow> if length p = 0 then t
          else snd (fgets_tty CFG_STR_MAX_LEN
            (put ([nl] @ p @ [nl] @ ''(press enter to continue)'' @ [nl]) t)))"

definition linemode_main ::
  "environ \<Rightarrow> cptr \<Rightarrow> (string \<Rightarrow> bool \<Rightarrow> bool) \<Rightarrow> string \<Rightarrow> int c_res \<Rightarrow> tty \<Rightarrow> lm_stop + (int \<times> string \<times> tty)" where
  "linemode_main env argv1 can_open ctermid kppid t =
     ebind (lm_lift (cfg_get_env cfg_new env)) (\<lambda>c.
     ebind (lm_lift (cfg_get_env_str CFG_STARTUP_MSG cfg_strinit env)) (\<lambda>message.
     let device = (case argv1 of None \<Rightarrow> ''/dev/console'' | Some d \<Rightarrow> d) in
     if \<not> open_terminal can_open ctermid device then Inr (1, [], t)
     else ebind (lm_lift (case message of None \<Rightarrow> Inl NullDeref | Some m \<Rightarrow> Inr m)) (\<lambda>message.
     ebind (lm_loop c message kppid [] t) (\<lambda>(b, _, t).
       Inr (0, cfg_bentry_print b, show_pause b t)))))"

subsection \<open>What the loop chooses\<close>

definition authorised :: "cfg_toplevel \<Rightarrow> string \<Rightarrow> cfg_bentry \<Rightarrow> bool" where
  "authorised c typed e \<longleftrightarrow> locked e = 0
     \<or> (\<exists>pre w rest. typed = pre @ w @ nl # rest \<and> nl \<notin> set w \<and> password c = Some (cstr w))"

lemma lm_loop_chosen:
  "lm_loop c message kppid buf t = Inr (b, buf', t') \<Longrightarrow>
     \<exists>i < bentry_count c. authorised c (tty_in t) (bentry_list c ! i)
       \<and> (b = bentry_list c ! i \<or> title b = Some ''manual_title'')"
proof (induction c message kppid buf t rule: lm_loop.induct)
  case (1 c message kppid buf t)
  from 1(2) obtain r buf1 t1 where r: "lm_round c message kppid buf t = Inr (r, buf1, t1)"
    and k: "(case r of Again \<Rightarrow> lm_loop c message kppid buf1 t1 | Chosen b \<Rightarrow> Inr (b, buf1, t1)) = Inr (b, buf', t')"
    by (auto simp: lm_loop.simps [of c message kppid buf t] ebind_Inr_iff)
  show ?case
  proof (cases r)
    case Again
    from lm_round_reads [OF r] obtain pre where "tty_in t = pre @ tty_in t1" by (auto simp: reads_def)
    then have "authorised c (tty_in t1) e \<Longrightarrow> authorised c (tty_in t) e" for e
      unfolding authorised_def by (metis append_assoc)
    moreover have "\<exists>i < bentry_count c. authorised c (tty_in t1) (bentry_list c ! i)
       \<and> (b = bentry_list c ! i \<or> title b = Some ''manual_title'')"
      using 1(1) [OF r _ _ Again] k Again by auto
    ultimately show ?thesis by blast
  next
    case (Chosen b1)
    with k have b: "b1 = b" by simp
    from r obtain line u v where l: "round_line c message buf t = (line, u)"
      and v: "tty_in v = tty_in u" "lm_select c buf1 v = Inr (r, t1)" by (rule lm_round_select)
    from v(2) Chosen b obtain command n i w where i: "selected_entry c n = Inr (Some i)"
      and w: "unlock c (bentry_list c ! i) v = Inr (True, w)"
      and run: "run_command command (bentry_list c ! i) w = Inr (Chosen b, t1)"
      by (auto elim: lm_select_chosen)
    from round_line_reads [OF l] v(1) obtain pre where "tty_in t = pre @ tty_in v"
      by (auto simp: reads_def)
    then have "authorised c (tty_in t) (bentry_list c ! i)"
      using unlock_typed [OF w] unfolding authorised_def by metis
    then show ?thesis
      using selected_entry_bound [OF i] run_command_chosen [OF run] by blast
  qed
qed

subsection \<open>Input lines\<close>

definition command_char :: "char \<Rightarrow> bool" where
  "command_char c \<longleftrightarrow> \<not> isdigit c \<and> \<not> isspace c \<and> c \<noteq> CHR ''+'' \<and> c \<noteq> CHR ''-''"

abbreviation spaces :: "nat \<Rightarrow> string" where "spaces n \<equiv> replicate n CHR '' ''"

lemma skip_blanks_app [simp]: "skip_blanks (spaces p @ s) = skip_blanks s"
  by (induction p) (simp_all add: skip_blanks_def)

lemma skip_blanks_only [simp]: "skip_blanks (spaces p) = []"
  using skip_blanks_app [of p "[]"] by (simp add: skip_blanks_def)

lemma skip_blanks_Nil: "skip_blanks [] = []"
  by (simp add: skip_blanks_def)

lemma skip_blanks_Cons: "c \<noteq> CHR '' '' \<Longrightarrow> skip_blanks (c # s) = c # s"
  by (simp add: skip_blanks_def)

lemma command_char_not_blank: "command_char c \<Longrightarrow> c \<noteq> CHR '' ''"
  by (auto simp: command_char_def isspace_def)

lemma skip_blanks_dec [simp]: "skip_blanks (dec n @ s) = dec n @ s" "skip_blanks (dec n) = dec n"
proof -
  obtain d ds where "dec n = d # ds" using dec_nonempty by (cases "dec n") auto
  moreover have "isdigit d" using dec_digits [of d n] calculation by simp
  moreover have "d \<noteq> CHR '' ''" using calculation(2) by (auto simp: isdigit_def)
  ultimately show "skip_blanks (dec n @ s) = dec n @ s" "skip_blanks (dec n) = dec n"
    by (simp_all add: skip_blanks_Cons)
qed

lemma sscanf_d_command: "command_char c \<Longrightarrow> sscanf_d (c # s) = Inr None"
  by (auto simp: sscanf_d_def scan_sign_def command_char_def)

lemma strspn_digits: "c \<in> set ''0123456789'' \<longleftrightarrow> isdigit c"
proof
  assume "isdigit c"
  then have "c \<in> char_of ` {48..57 :: nat}"
    by (auto simp: isdigit_def intro!: image_eqI [of _ _ "of_char c"])
  moreover have "char_of ` {48..57 :: nat} = set ''0123456789''" by code_simp
  ultimately show "c \<in> set ''0123456789''" by simp
next
  assume "c \<in> set ''0123456789''"
  then show "isdigit c" by (auto simp: isdigit_def)
qed

lemma drop_number:
  assumes "s = [] \<or> \<not> isdigit (hd s)"
  shows "drop (strspn (dec n @ s) ''0123456789'') (dec n @ s) = s"
proof -
  have "takeWhile (\<lambda>c. c \<in> set ''0123456789'') (dec n @ s) = dec n"
    using assms dec_digits
    by (cases s) (auto simp: strspn_digits takeWhile_append_stop takeWhile_all simp del: set_simps)
  then show ?thesis by (simp add: strspn_def del: set_simps)
qed

lemma hd_blanks: "command_char c \<Longrightarrow> \<not> isdigit (hd (spaces q @ c # s))"
  by (cases q) (simp_all add: command_char_def isdigit_def)

lemma sscanf_d_blanks: "sscanf_d (spaces q @ s) = sscanf_d s"
  by (induction q) (simp_all add: sscanf_d_def isspace_def)

lemma compute_selection_command:
  "command_char c \<Longrightarrow> compute_selection (spaces p @ [c]) = Inr (c, 0)"
  by (simp add: compute_selection_def Let_def sscanf_d_command skip_blanks_Cons command_char_not_blank
      skip_blanks_Nil)

lemma compute_selection_command_number:
  assumes "command_char c" and "int32 (int n)"
  shows "compute_selection (spaces p @ c # spaces q @ dec n) = Inr (c, int n)"
  using assms sscanf_d_digits [of "dec n" "[]"]
  by (simp add: compute_selection_def Let_def sscanf_d_command skip_blanks_Cons command_char_not_blank
      dec_val_dec dec_digits)

lemma compute_selection_number_command:
  assumes "command_char c" and "int32 (int n)"
  shows "compute_selection (spaces p @ dec n @ spaces q @ [c]) = Inr (c, int n)"
  using assms hd_blanks [of c q "[]"] sscanf_d_digits [of "dec n" "spaces q @ [c]"]
  by (simp add: compute_selection_def Let_def skip_blanks_Cons command_char_not_blank
      dec_val_dec dec_digits drop_number del: drop_append)

lemma compute_selection_number:
  assumes "int32 (int n)"
  shows "compute_selection (spaces p @ dec n @ spaces q) = Inr (CHR 0x00, int n)"
proof -
  have h: "spaces q = [] \<or> \<not> isdigit (hd (spaces q))" by (cases q) (simp_all add: isdigit_def)
  then show ?thesis
    using assms sscanf_d_digits [of "dec n" "spaces q"] drop_number [of "spaces q" n]
    by (simp add: compute_selection_def Let_def dec_val_dec dec_digits del: drop_append)
qed

subsection \<open>Modifying an entry\<close>

lemma ask_values_kernel:
  "ask_values 0 t = Inr (b, t') \<Longrightarrow> insfile b = None \<and> bootmap b = None"
  by (auto simp: ask_values_def ebind_Inr_iff bentry_zero_def)

text \<open>An entry with an INSFILE or a boot map cannot be modified: the values of a kernel are asked for.\<close>

lemma modify_entry_ub:
  assumes "action old = INSFILE_BOOT \<or> action old = BOOTMAP_BOOT"
  shows "\<exists>u. modify_entry old t = Inl (LmUb u)"
proof -
  let ?t = "put (print_selection old @ ''*** Please enter the new values for each line ***'' @ [nl]
            @ ''*** or hit ENTER to leave it unchanged.       ***'' @ [nl]) t"
  from assms have ty: "\<not> int_of_action (action old) < 0" by auto
  show ?thesis
  proof (cases "ask_values 0 ?t")
    case (Inl u)
    with ty show ?thesis by (simp add: modify_entry_def get_man_boot_def Let_def)
  next
    case (Inr r)
    obtain b t' where "r = (b, t')" by fastforce
    with Inr ask_values_kernel [of ?t b t'] assms ty show ?thesis
      by (auto simp: modify_entry_def get_man_boot_def Let_def)
  qed
qed

end
