(* ===== verification/Scp.thy ===== *)
theory Scp
  imports CompLoad
begin

section \<open>The loader module for scp\<close>

text \<open>
  Models \<^verbatim>\<open>comploader/cl_scp.c\<close>, the component loader module that fetches a file with the sftp
  protocol. The ssh library and the server behind it are a parameter; so is the name of the user
  in the password database. Every message to \<^verbatim>\<open>syslog\<close> is kept. \<^verbatim>\<open>malloc\<close> does not fail.
\<close>

subsection \<open>The URL\<close>

record ssh_param =
  ssh_user :: string
  ssh_pw :: cptr
  ssh_host :: string
  ssh_port :: string
  ssh_path :: string

text \<open>The parts of a string before and behind the first occurrence of a character.\<close>

definition cut :: "char \<Rightarrow> string \<Rightarrow> (string \<times> string) option" where
  "cut c s = (case strchr s c of None \<Rightarrow> None | Some i \<Rightarrow> Some (take i s, drop (Suc i) s))"

text \<open>
  The parts are cut out of the argument in place. None is the result NULL; \<open>pw_name\<close> is the entry
  of the password database, which is dereferenced without a test.
\<close>

definition decode_parameters :: "string option \<Rightarrow> string \<Rightarrow> ssh_param option c_res" where
  "decode_parameters pw_name input =
     (if \<not> starts_with input ''scp://'' then Inr None
      else
        let ptr = drop 6 input;
            (user, pw, ptr) = (case cut CHR ''@'' ptr of
                None \<Rightarrow> (None, None, ptr)
              | Some (account, rest) \<Rightarrow> (case cut CHR '':'' account of
                  None \<Rightarrow> (Some account, None, rest)
                | Some (u, p) \<Rightarrow> (Some u, Some p, rest))) in
        case cut CHR ''/'' ptr of
          None \<Rightarrow> Inr None
        | Some (server, path) \<Rightarrow>
            let (host, port) = (case cut CHR '':'' server of
                None \<Rightarrow> (server, ''22'')
              | Some (h, p) \<Rightarrow> (h, p)) in
            (case (case user of None \<Rightarrow> pw_name | Some u \<Rightarrow> Some u) of
               None \<Rightarrow> Inl NullDeref
             | Some u \<Rightarrow> Inr (Some \<lparr>ssh_user = u, ssh_pw = pw,
                 ssh_host = (if server = [] then ''localhost'' else host), ssh_port = port,
                 ssh_path = path\<rparr>)))"

subsection \<open>The connection\<close>

text \<open>
  What the library and the server answer: \<open>method_set\<close> whether the key exchange methods could be
  set, \<open>connection\<close> for port, host and user, the results of the authentications, whether the
  subsystem starts, and for a file whether it can be opened and what the calls of \<^verbatim>\<open>sftp_read\<close>
  return and leave in the buffer.
\<close>

record 'n ssh_server =
  method_set :: bool
  connection :: "int \<Rightarrow> string \<Rightarrow> string \<Rightarrow> 'n option"
  SSH_AUTH_SUCCESS :: int
  auth_autopubkey :: "'n \<Rightarrow> int"
  auth_password :: "'n \<Rightarrow> string \<Rightarrow> int"
  sftp_new :: "'n \<Rightarrow> bool"
  sftp_init :: "'n \<Rightarrow> bool"
  sftp_open :: "'n \<Rightarrow> string \<Rightarrow> bool"
  sftp_read :: "'n \<Rightarrow> string \<Rightarrow> (int \<times> string) list"
  ssh_error :: "'n option \<Rightarrow> string"

definition authenticate :: "'n ssh_server \<Rightarrow> ssh_param \<Rightarrow> 'n \<Rightarrow> bool \<times> string list" where
  "authenticate srv p session =
     (let result = auth_autopubkey srv session;
          refused = (\<lambda>r. (False, [''No password or password doesn't match '' @ printf_d r])) in
      if result \<noteq> SSH_AUTH_SUCCESS srv then
        (case ssh_pw p of
           None \<Rightarrow> refused result
         | Some pw \<Rightarrow>
             let result = auth_password srv session pw in
             if result = SSH_AUTH_SUCCESS srv
             then (True, [''Password matched. Successful login.'']) else refused result)
      else (True, [''public key matched.'']))"

definition connect_ssh :: "'n ssh_server \<Rightarrow> ssh_param \<Rightarrow> ('n option \<times> string list) c_res" where
  "connect_ssh srv p =
     (if \<not> method_set srv then Inr (None, [])
      else ebind (atoi (ssh_port p)) (\<lambda>port.
        case connection srv port (ssh_host p) (ssh_user p) of
          None \<Rightarrow> Inr (None, [ssh_error srv None])
        | Some session \<Rightarrow>
            let (ok, log) = authenticate srv p session in
            if \<not> ok then Inr (None, log)
            else if \<not> sftp_new srv session then Inr (None, log @ [ssh_error srv (Some session)])
            else
              let log = log @ [''SFTP subsystem request successful.''] in
              if \<not> sftp_init srv session then Inr (None, log @ [ssh_error srv (Some session)])
              else Inr (Some session, log @ [''SFTP initialization successful.''])))"

subsection \<open>The transfer\<close>

text \<open>The local file is created or truncated.\<close>

definition open_local :: "string \<Rightarrow> fs \<Rightarrow> bool \<times> string list \<times> fs" where
  "open_local name f =
     (case creat_err f name of
        Some e \<Rightarrow> (False, [e], f)
      | None \<Rightarrow> (True, [''Destination opened successfully''], f\<lparr>files := (files f)(name \<mapsto> [])\<rparr>))"

definition open_remote :: "'n ssh_server \<Rightarrow> 'n \<Rightarrow> string \<Rightarrow> bool \<times> string list" where
  "open_remote srv session name =
     (if sftp_open srv session name then (True, [''Source opened successfully''])
      else (False, [ssh_error srv (Some session)]))"

text \<open>
  \<^verbatim>\<open>write\<close> at the end of the local file, whose contents are \<open>c\<close>. The count is unsigned: a negative
  one becomes larger than any buffer, and the call is refused.
\<close>

definition write_local :: "nat \<Rightarrow> string \<Rightarrow> string \<Rightarrow> int \<Rightarrow> int \<times> string" where
  "write_local space c buffer n =
     (if n < 0 then (- 1, c)
      else let k = min (nat n) (space - length c) in (int k, c @ take k buffer))"

text \<open>
  The loop that receives the file: the bytes counted, the messages, the contents of the local
  file. When there are no more answers \<^verbatim>\<open>sftp_read\<close> blocks for ever.
\<close>

fun transfer ::
  "string \<Rightarrow> string \<Rightarrow> nat \<Rightarrow> (int \<times> string) list \<Rightarrow> int \<Rightarrow> string list \<Rightarrow> string
   \<Rightarrow> (int \<times> string list) outcome \<times> string"
where
  "transfer err strerror space [] acc log c = (Spin, c)"
| "transfer err strerror space ((rcvd, buffer) # rs) acc log c =
     (let (log, c) =
        (if rcvd = - 1 then
           (let (w, c) = write_local space c buffer rcvd in
            (log @ [err] @ (if w \<noteq> rcvd then [strerror] else []), c))
         else (log, c)) in
      case c_int (acc + rcvd) of
        Inl u \<Rightarrow> (Bad u, c)
      | Inr acc \<Rightarrow>
          if rcvd = 255 then transfer err strerror space rs acc log c else (Done (acc, log), c))"

definition transfer_message :: "int \<Rightarrow> string" where
  "transfer_message acc =
     (if 0 < acc then ''Transferred '' @ printf_d acc @ '' bytes successfully.''
      else ''Nothing transferred, please check the remote file-name'')"

subsection \<open>The program\<close>

text \<open>The exit code and the messages.\<close>

definition scp_main ::
  "string option \<Rightarrow> 'n ssh_server \<Rightarrow> string list \<Rightarrow> fs \<Rightarrow> (int \<times> string list) outcome \<times> fs" where
  "scp_main pw_name srv argv f =
     (if length argv \<noteq> 3 then (Done (1, [''Invalid number of parameters.'']), f)
      else case decode_parameters pw_name (argv ! 1) of
        Inl u \<Rightarrow> (Bad u, f)
      | Inr None \<Rightarrow>
          (Done (1, if starts_with (argv ! 1) ''scp://'' then [] else [''Invalid source URL.'']), f)
      | Inr (Some p) \<Rightarrow>
         (case connect_ssh srv p of
            Inl u \<Rightarrow> (Bad u, f)
          | Inr (None, log) \<Rightarrow> (Done (2, log), f)
          | Inr (Some session, log) \<Rightarrow>
             (case open_local (argv ! 2) f of
                (False, m, f) \<Rightarrow> (Done (3, log @ m), f)
              | (True, m, f) \<Rightarrow>
                 (case open_remote srv session (ssh_path p) of
                    (False, m') \<Rightarrow> (Done (4, log @ m @ m'), f)
                  | (True, m') \<Rightarrow>
                     (case transfer (ssh_error srv (Some session)) (fs_errno f) (capacity f)
                            (sftp_read srv session (ssh_path p)) 0 (log @ m @ m') [] of
                        (Done (acc, log), c) \<Rightarrow>
                          (Done (0, log @ [transfer_message acc]), f\<lparr>files := (files f)(argv ! 2 \<mapsto> c)\<rparr>)
                      | (Stopped, c) \<Rightarrow> (Stopped, f\<lparr>files := (files f)(argv ! 2 \<mapsto> c)\<rparr>)
                      | (Spin, c) \<Rightarrow> (Spin, f\<lparr>files := (files f)(argv ! 2 \<mapsto> c)\<rparr>)
                      | (Bad u, c) \<Rightarrow> (Bad u, f\<lparr>files := (files f)(argv ! 2 \<mapsto> c)\<rparr>))))))"

text \<open>
  The program as the main program sees it: it writes nothing to its output streams. A program
  that blocks never ends its streams; one that goes wrong is taken to end with a signal.
\<close>

definition scp_program :: "string option \<Rightarrow> 'n ssh_server \<Rightarrow> prog" where
  "scp_program pw_name srv argv f =
     (case scp_main pw_name srv argv f of
        (Done (code, _), f) \<Rightarrow> (Exited [(Some [], Some [])] (256 * code), f)
      | (Bad _, f) \<Rightarrow> (Exited [(Some [], Some [])] 11, f)
      | (_, f) \<Rightarrow> (Exited [] 0, f))"

subsection \<open>URLs are read back\<close>

lemma cut_first: "c \<notin> set a \<Longrightarrow> cut c (a @ c # b) = Some (a, b)"
proof (induction a)
  case (Cons x a)
  then show ?case by (auto simp: cut_def strchr_def split: option.splits)
qed (simp add: cut_def strchr_def)

lemma cut_None: "cut c s = None \<longleftrightarrow> c \<notin> set s"
  using find_index_None [of "\<lambda>x. x = c" s] by (auto simp: cut_def strchr_def split: option.splits)

lemma cut_absent [simp]: "c \<notin> set s \<Longrightarrow> cut c s = None"
  by (simp add: cut_None)

text \<open>The shortest URL for a parameter set: the defaults are left out.\<close>

definition scp_server :: "string \<Rightarrow> string \<Rightarrow> string" where
  "scp_server host port =
     (if port = ''22'' then (if host = ''localhost'' then [] else host) else host @ CHR '':'' # port)"

definition scp_url :: "ssh_param \<Rightarrow> string" where
  "scp_url p =
     ''scp://'' @ ssh_user p @ (case ssh_pw p of None \<Rightarrow> [] | Some w \<Rightarrow> CHR '':'' # w)
     @ CHR ''@'' # scp_server (ssh_host p) (ssh_port p) @ CHR ''/'' # ssh_path p"

definition scp_url_ok :: "ssh_param \<Rightarrow> bool" where
  "scp_url_ok p \<longleftrightarrow>
     CHR ''@'' \<notin> set (ssh_user p) \<and> CHR '':'' \<notin> set (ssh_user p)
     \<and> (\<forall>w. ssh_pw p = Some w \<longrightarrow> CHR ''@'' \<notin> set w)
     \<and> ssh_host p \<noteq> [] \<and> CHR ''/'' \<notin> set (ssh_host p) \<and> CHR '':'' \<notin> set (ssh_host p)
     \<and> CHR ''/'' \<notin> set (ssh_port p)"

lemma cut_account:
  assumes "scp_url_ok p"
  shows "cut CHR ''@'' (ssh_user p @ (case ssh_pw p of None \<Rightarrow> [] | Some w \<Rightarrow> CHR '':'' # w) @ CHR ''@'' # rest)
      = Some (ssh_user p @ (case ssh_pw p of None \<Rightarrow> [] | Some w \<Rightarrow> CHR '':'' # w), rest)"
    and "cut CHR '':'' (ssh_user p @ (case ssh_pw p of None \<Rightarrow> [] | Some w \<Rightarrow> CHR '':'' # w))
      = map_option (Pair (ssh_user p)) (ssh_pw p)"
  using assms cut_first [of "CHR ''@''" "ssh_user p @ (case ssh_pw p of None \<Rightarrow> [] | Some w \<Rightarrow> CHR '':'' # w)" rest]
    cut_first [of "CHR '':''" "ssh_user p"]
  by (auto simp: scp_url_ok_def split: option.splits)

lemma cut_server:
  assumes "scp_url_ok p"
  shows "cut CHR ''/'' (scp_server (ssh_host p) (ssh_port p) @ CHR ''/'' # path)
      = Some (scp_server (ssh_host p) (ssh_port p), path)"
proof -
  have "CHR ''/'' \<notin> set (scp_server (ssh_host p) (ssh_port p))"
    using assms by (auto simp: scp_url_ok_def scp_server_def)
  then show ?thesis by (rule cut_first)
qed

lemma decode_scp_url:
  assumes "scp_url_ok p"
  shows "decode_parameters pw_name (scp_url p) = Inr (Some p)"
proof -
  obtain u w h q pa where p: "p = \<lparr>ssh_user = u, ssh_pw = w, ssh_host = h, ssh_port = q, ssh_path = pa\<rparr>"
    by (cases p) blast
  let ?srv = "scp_server h q"
  have parts: "(case cut CHR '':'' ?srv of None \<Rightarrow> (?srv, ''22'') | Some (x, y) \<Rightarrow> (x, y))
      = (if ?srv = [] then [] else h, q)"
    and local: "?srv = [] \<longleftrightarrow> h = ''localhost'' \<and> q = ''22''"
    using assms cut_first [of "CHR '':''" h q] by (auto simp: p scp_server_def scp_url_ok_def)
  show ?thesis
    using cut_account [OF assms] cut_server [OF assms] parts local
    by (cases w) (auto simp: p decode_parameters_def scp_url_def starts_with_def Let_def)
qed

subsection \<open>Nothing is transferred\<close>

lemma transfer_keeps: "snd (transfer err strerror space rs acc log c) = c"
  by (induction rs arbitrary: acc log)
    (auto simp: Let_def write_local_def split: prod.splits sum.splits)

lemma transfer_result: "transfer err strerror space rs acc log c = (r, c') \<Longrightarrow> c' = c"
  using transfer_keeps [of err strerror space rs acc log c] by simp

text \<open>Data that was received is never written: only the branch of the error writes, and it is refused.\<close>

lemma scp_main_file:
  assumes "scp_main pw_name srv argv f = (Done (0, log), f')"
  shows "files f' (argv ! 2) = Some [] \<and> (\<forall>q. q \<noteq> argv ! 2 \<longrightarrow> files f' q = files f q)"
  using assms
  by (auto simp: scp_main_def open_local_def split: if_splits sum.splits option.splits prod.splits
      bool.splits outcome.splits dest: transfer_result)

lemma scp_main_no_url:
  assumes "\<not> starts_with a ''scp://''"
  shows "scp_main pw_name srv [prg, a, b] f = (Done (1, [''Invalid source URL.'']), f)"
  using assms by (simp add: scp_main_def decode_parameters_def)

text \<open>\<^verbatim>\<open>comp_load\<close> passes the destination first, which the module takes for the URL.\<close>

lemma scp_comp_load_fails:
  assumes "absolute uri" and "\<not> starts_with dest ''scp://''"
    and "prog (module_argv s dest uri) (sys_fs s) = scp_program pw_name srv (module_argv s dest uri) (sys_fs s)"
  shows "comp_load prog dest uri s =
    (Done (- 1, None, None), s\<lparr>sys_trace := sys_trace s @ [module_argv s dest uri]\<rparr>)"
proof -
  have "scp_program pw_name srv (module_argv s dest uri) (sys_fs s)
      = (Exited [(Some [], Some [])] 256, sys_fs s)"
    by (simp add: scp_program_def module_argv_def scp_main_no_url [OF assms(2)])
  with comp_load_Exited [OF assms(1), of prog s dest] assms(3) show ?thesis
    by (simp add: stream_ends_def stream_text_def stream_pieces_def List.map_filter_simps
        exited_ok_def non_empty_def)
qed

end
