(* ===== verification/Ssh.thy ===== *)
theory Ssh
  imports Loader
begin

section \<open>The ssh user interface\<close>

text \<open>
  Models \<^verbatim>\<open>core/ui_ssh.c\<close>, the user interface that lets users log in: it makes sure that no server
  runs on its port yet, fetches the host keys with the component loader and starts \<^verbatim>\<open>sshd\<close> in the
  foreground. \<open>alive\<close> says whether a process exists, \<open>lp64\<close> whether \<^verbatim>\<open>long\<close> has 64 bits.
\<close>

subsection \<open>Arguments\<close>

definition SSH_CMD :: string where "SSH_CMD = ''/usr/sbin/sshd''"
definition SSH_PID :: string where "SSH_PID = ''/var/run/ssh_pid''"
definition SSH_PORT :: string where "SSH_PORT = ''22''"
definition SSH_CONFIG :: string where "SSH_CONFIG = ''/etc/sshd_config''"
definition SSH_DSS_HOST_KEY :: string where "SSH_DSS_HOST_KEY = ''/etc/ssh_host_dsa_key''"
definition SSH_RSA_HOST_KEY :: string where "SSH_RSA_HOST_KEY = ''/etc/ssh_host_rsa_key''"

text \<open>The value of a key: behind an equals sign, the next argument, or what follows the key directly.\<close>

fun get_value :: "string \<Rightarrow> string list \<Rightarrow> cptr" where
  "get_value key [] = None"
| "get_value key (t # list) =
     (if starts_with t key
      then (case drop (length key) t of
              [] \<Rightarrow> (case list of [] \<Rightarrow> None | v # _ \<Rightarrow> Some v)
            | c # r \<Rightarrow> Some (if c = CHR ''='' then r else c # r))
      else get_value key list)"

subsection \<open>Keys\<close>

definition default_key :: "string \<Rightarrow> string" where
  "default_key type = (if type = ''DSS'' then SSH_DSS_HOST_KEY else SSH_RSA_HOST_KEY)"

definition assemble_key_param :: "prog \<Rightarrow> string \<Rightarrow> cptr \<Rightarrow> string \<Rightarrow> string act" where
  "assemble_key_param prog type key_param portnumber =
     (case key_param of
        None \<Rightarrow> aret (default_key type)
      | Some uri \<Rightarrow>
          let res_str = default_key type @ ''.'' @ portnumber in
          abind (comp_load prog res_str uri) (\<lambda>(rc, _, _).
            aret (if rc \<noteq> 0 then default_key type else res_str)))"

subsection \<open>The pid file\<close>

definition pid_file :: "string \<Rightarrow> string" where
  "pid_file portnumber = SSH_PID @ ''.'' @ portnumber"

text \<open>
  Whether a server is running. The number is stored through a pointer to \<^verbatim>\<open>long\<close> into a variable of
  32 bits, and it is used even when there was none.
\<close>

definition check_pid_file :: "bool \<Rightarrow> (int \<Rightarrow> bool) \<Rightarrow> string \<Rightarrow> bool act" where
  "check_pid_file lp64 alive temp_fn =
     abind (exists_file temp_fn) (\<lambda>present.
       if \<not> present then aret False
       else abind (open_file temp_fn) (\<lambda>fh.
         case fh of
           Inl _ \<Rightarrow> abind (unlink temp_fn) (\<lambda>_. aret False)
         | Inr fd \<Rightarrow>
             abind (lift_res (sscanf_d (fd_data fd))) (\<lambda>n.
               case n of
                 None \<Rightarrow> bad_act Uninitialized
               | Some pid \<Rightarrow>
                   if lp64 then bad_act OutOfBounds
                   else if alive pid then aret True
                   else abind (unlink temp_fn) (\<lambda>_. aret False))))"

subsection \<open>The program\<close>

definition sshd_command :: "string \<Rightarrow> string \<Rightarrow> string \<Rightarrow> string" where
  "sshd_command portnumber dss rsa =
     SSH_CMD @ '' -D -p '' @ portnumber @ '' -f '' @ SSH_CONFIG @ '' -oPidFile='' @ SSH_PID @ ''.''
     @ portnumber @ '' -h '' @ dss @ '' -h '' @ rsa @ '' -h /etc/ssh_host_key''"

definition ssh_main :: "bool \<Rightarrow> (int \<Rightarrow> bool) \<Rightarrow> prog \<Rightarrow> string list \<Rightarrow> int act" where
  "ssh_main lp64 alive prog argv =
     (let portnumber = (case get_value ''port'' argv of None \<Rightarrow> SSH_PORT | Some p \<Rightarrow> p);
          rsa_key = get_value ''rsa_key'' argv; dss_key = get_value ''dss_key'' argv in
      abind (check_pid_file lp64 alive (pid_file portnumber)) (\<lambda>running.
      if running then aret 10
      else abind (assemble_key_param prog ''RSA'' rsa_key portnumber) (\<lambda>rsa.
      abind (assemble_key_param prog ''DSS'' dss_key portnumber) (\<lambda>dss.
      abind (cfg_system prog (sshd_command portnumber dss rsa)) (\<lambda>ex_code.
        aret (if ex_code \<le> 0 then ex_code else (ex_code div 256) mod 256))))))"

subsection \<open>What the program does\<close>

lemma get_value_separate:
  assumes "\<forall>t \<in> set pre. \<not> starts_with t key"
  shows "get_value key (pre @ key # v # rest) = Some v"
  using assms by (induction pre) (simp_all add: starts_with_def)

lemma get_value_assign:
  assumes "\<forall>t \<in> set pre. \<not> starts_with t key"
  shows "get_value key (pre @ (key @ CHR ''='' # v) # rest) = Some v"
  using assms by (induction pre) (simp_all add: starts_with_def)

lemma get_value_None:
  "\<forall>t \<in> set argv. \<not> starts_with t key \<Longrightarrow> get_value key argv = None"
  by (induction argv) simp_all

lemma check_pid_file_absent:
  "file_at s fn = None \<Longrightarrow> check_pid_file lp64 alive fn s = (Done False, s)"
  by (simp add: check_pid_file_def)

lemma check_pid_file_alive:
  assumes "file_at s fn = Some c" and "open_err (sys_fs s) fn = None"
    and "sscanf_d c = Inr (Some pid)" and "alive pid"
  shows "check_pid_file False alive fn s = (Done True, s)"
  using assms by (simp add: check_pid_file_def open_file_def)

text \<open>A server that is alive is left alone: nothing is loaded and nothing is started.\<close>

lemma ssh_main_running:
  assumes "get_value ''port'' argv = Some p"
    and "file_at s (pid_file p) = Some c" and "open_err (sys_fs s) (pid_file p) = None"
    and "sscanf_d c = Inr (Some pid)" and "alive pid"
  shows "ssh_main False alive prog argv s = (Done 10, s)"
  using check_pid_file_alive [of s "pid_file p" c pid alive] assms by (simp add: ssh_main_def)

text \<open>Without keys the defaults are used; the only program that is started is the server.\<close>

lemma ssh_main_starts:
  assumes "get_value ''port'' argv = Some p" and "file_at s (pid_file p) = None"
    and "get_value ''rsa_key'' argv = None" and "get_value ''dss_key'' argv = None"
  shows "ssh_main lp64 alive prog argv s =
    abind (cfg_system prog (sshd_command p SSH_DSS_HOST_KEY SSH_RSA_HOST_KEY))
      (\<lambda>c. aret (if c \<le> 0 then c else (c div 256) mod 256)) s"
  using assms(1,3,4)
  by (simp add: ssh_main_def assemble_key_param_def default_key_def
      abind_Done [where m = "check_pid_file lp64 alive (pid_file p)", OF check_pid_file_absent, OF assms(2)])

end
