(* ===== verification/System.thy ===== *)
theory System
  imports Sysload Linemode Scp Ssh
begin

section \<open>The programs together\<close>

text \<open>
  What holds across the programs: the configuration the main program exports is the one a user
  interface works on, so that what the linemode user interface prints is an entry of the main
  program's configuration, or one that was typed in by a user who was let in.
\<close>

lemma exported_is_read:
  assumes "cfg_wf config" and "cfg_ints config" and "exported msg config env env'"
  shows "cfg_get_env cfg_new env' = Inr (config\<lparr>ui_list := [], ui_count := 0\<rparr>)"
proof -
  from assms(3) obtain e where "cfg_set_env config e = Inr env'"
    by (auto simp: exported_def ebind_Inr_iff)
  with cfg_env_roundtrip [OF assms(1,2), of e] show ?thesis by simp
qed

lemma linemode_main_output:
  assumes "linemode_main env argv1 can_open ctermid kppid t = Inr (0, out, t')"
  shows "\<exists>c b. cfg_get_env cfg_new env = Inr c \<and> out = cfg_bentry_print b
    \<and> (\<exists>i < bentry_count c. authorised c (tty_in t) (bentry_list c ! i)
        \<and> (b = bentry_list c ! i \<or> title b = Some ''manual_title''))"
proof -
  from assms obtain c m b buf u where c: "cfg_get_env cfg_new env = Inr c"
    and l: "lm_loop c m kppid [] t = Inr (b, buf, u)" and out: "out = cfg_bentry_print b"
    by (auto simp: linemode_main_def Let_def ebind_Inr_iff split: if_splits)
  from lm_loop_chosen [OF l] c out show ?thesis by blast
qed

lemma linemode_main_exported:
  assumes "cfg_wf config" and "cfg_ints config" and "exported msg config env env'"
    and "linemode_main env' argv1 can_open ctermid kppid t = Inr (0, out, t')"
  shows "\<exists>b. out = cfg_bentry_print b
    \<and> (\<exists>i < bentry_count config. authorised config (tty_in t) (bentry_list config ! i)
        \<and> (b = bentry_list config ! i \<or> title b = Some ''manual_title''))"
  using linemode_main_output [OF assms(4)] exported_is_read [OF assms(1-3)]
  by (auto simp: authorised_def)

end
