(* ===== verification/InsfileLines.thy ===== *)
theory InsfileLines
  imports Loader
begin

section \<open>What an INSFILE says\<close>

text \<open>
  An INSFILE as a list of lines, comments, components with their load addresses, and blank lines,
  the text that is written for it, and the refinement: the loop over the text does for every
  line what the line says. A blank line stands for the component before it, which is loaded again.
\<close>

subsection \<open>Hexadecimal numbers\<close>

definition hex_digit :: "nat \<Rightarrow> char" where
  "hex_digit d = char_of (if d < 10 then 48 + d else 87 + d)"

fun hex :: "nat \<Rightarrow> string" where
  "hex n = (if n < 16 then [hex_digit n] else hex (n div 16) @ [hex_digit (n mod 16)])"

declare hex.simps [simp del]

lemma hex_digit_of_char: "d < 16 \<Longrightarrow> (of_char (hex_digit d) :: nat) = (if d < 10 then 48 + d else 87 + d)"
  by (simp add: hex_digit_def)

lemma isxdigit_hex: "d < 16 \<Longrightarrow> isxdigit (hex_digit d)"
  by (simp add: ctype_defs hex_digit_of_char)

lemma xdigit_val_hex: "d < 16 \<Longrightarrow> xdigit_val (hex_digit d) = d"
  by (simp add: xdigit_val_def hex_digit_of_char Let_def)

lemma base_val_snoc: "base_val b (s @ [c]) = b * base_val b s + xdigit_val c"
  by (simp add: base_val_def)

lemma base_val_hex: "base_val 16 (hex n) = n"
proof (induction n rule: hex.induct)
  case (1 n)
  show ?case
  proof (cases "n < 16")
    case True
    then show ?thesis by (subst hex.simps) (simp add: base_val_def xdigit_val_hex)
  next
    case False
    with 1 have "base_val 16 (hex (n div 16)) = n div 16" by simp
    with False show ?thesis by (subst hex.simps) (simp add: base_val_snoc xdigit_val_hex)
  qed
qed

lemma hex_digits: "c \<in> set (hex n) \<Longrightarrow> isxdigit c"
proof (induction n rule: hex.induct)
  case (1 n)
  then show ?case by (subst (asm) hex.simps) (auto simp: isxdigit_hex split: if_splits)
qed

lemma hex_nonempty [simp]: "hex n \<noteq> []"
  by (subst hex.simps) simp

lemma isxdigit_plain: "isxdigit c \<Longrightarrow> \<not> isspace c \<and> c \<noteq> CHR ''-'' \<and> c \<noteq> CHR ''+''
    \<and> c \<noteq> CHR ''x'' \<and> c \<noteq> CHR ''X'' \<and> c \<noteq> nl \<and> c \<noteq> CHR 0x00"
  by (auto simp: ctype_defs nl_def)

text \<open>\<^verbatim>\<open>%lx\<close> reads an address back.\<close>

lemma scan_lx_hex: "scan_lx (CHR '' '' # hex (unat a) @ [nl]) = Some a"
proof -
  let ?h = "hex (unat a)"
  obtain c h where h: "?h = c # h" using hex_nonempty by (cases ?h) blast+
  have plain: "\<not> isspace d \<and> d \<noteq> CHR ''-'' \<and> d \<noteq> CHR ''+'' \<and> d \<noteq> CHR ''x'' \<and> d \<noteq> CHR ''X'' \<and> isxdigit d"
    if "d \<in> set ?h" for d using hex_digits [OF that] isxdigit_plain by blast
  have sp: "isspace CHR '' ''" by (simp add: isspace_def)
  have "scan_sign (dropWhile isspace (CHR '' '' # ?h @ [nl])) = (1, ?h @ [nl])"
    using plain [of c] sp by (simp add: h scan_sign_def)
  moreover have "take 2 (?h @ [nl]) \<noteq> ''0x'' \<and> take 2 (?h @ [nl]) \<noteq> ''0X''"
    using plain by (cases h) (auto simp: h nl_def)
  moreover have "takeWhile isxdigit (?h @ [nl]) = ?h"
    using plain by (subst takeWhile_append2) (auto simp: ctype_defs nl_def)
  moreover have "\<not> 2 ^ 64 \<le> base_val 16 ?h"
    using unsigned_less [of a, where ?'a = nat] by (simp add: base_val_hex)
  ultimately show ?thesis
    by (simp add: scan_lx_def base_val_hex)
qed

subsection \<open>Lines and what they mean\<close>

datatype ins_line = Comment string | Component string "64 word" | Blank

fun render :: "ins_line \<Rightarrow> string" where
  "render (Comment c) = CHR ''*'' # c @ [nl]"
| "render (Component name a) = name @ CHR '' '' # hex (unat a) @ [nl]"
| "render Blank = [nl]"

definition name_ok :: "string \<Rightarrow> bool" where
  "name_ok name \<longleftrightarrow> name \<noteq> [] \<and> hd name \<noteq> CHR ''*'' \<and> (\<forall>c \<in> set name. \<not> isspace c \<and> c \<noteq> CHR 0x00)"

fun line_ok :: "ins_line \<Rightarrow> bool" where
  "line_ok (Comment c) \<longleftrightarrow> nl \<notin> set c"
| "line_ok (Component name a) \<longleftrightarrow> name_ok name"
| "line_ok Blank \<longleftrightarrow> True"

definition ins_line_ok :: "ins_line \<Rightarrow> bool" where
  "ins_line_ok l \<longleftrightarrow> line_ok l \<and> length (render l) < CFG_STR_MAX_LEN"

text \<open>Loading one component under the name of its number.\<close>

definition load_component ::
  "prog \<Rightarrow> cptr \<Rightarrow> string \<times> 64 word \<Rightarrow> nat \<Rightarrow> cptr \<Rightarrow> (cptr \<Rightarrow> string option act) \<Rightarrow> string option act" where
  "load_component prog uri_path part n tmp_msg continue =
     (let local_name = ''/tmp/file_'' @ printf_d (int n) in
      abind (comp_load prog local_name (prefix_root uri_path (fst part))) (\<lambda>(rc, info, m).
        if rc \<noteq> 0
        then aret (Some (''Error loading insfile component '' @ in_quotes (fst part) @ '' - ''
               @ str_arg (upd_out m tmp_msg)))
        else abind (identify_file local_name (snd part)) (\<lambda>t.
             abind (place_component local_name t) (\<lambda>_. continue (upd_out m tmp_msg)))))"

text \<open>
  The meaning of the lines: \<open>last\<close> is the component of the line before, \<open>n\<close> the number of lines
  that are not comments.
\<close>

fun load_lines ::
  "prog \<Rightarrow> cptr \<Rightarrow> ins_line list \<Rightarrow> (string \<times> 64 word) option \<Rightarrow> nat \<Rightarrow> cptr \<Rightarrow> string option act" where
  "load_lines prog uri_path [] prev n tmp_msg = aret None"
| "load_lines prog uri_path (Comment c # ls) prev n tmp_msg = load_lines prog uri_path ls prev n tmp_msg"
| "load_lines prog uri_path (Component name a # ls) prev n tmp_msg =
     load_component prog uri_path (name, a) (n + 1) tmp_msg
       (load_lines prog uri_path ls (Some (name, a)) (n + 1))"
| "load_lines prog uri_path (Blank # ls) prev n tmp_msg =
     (case prev of
        None \<Rightarrow> load_lines prog uri_path ls prev (n + 1) tmp_msg
      | Some part \<Rightarrow>
          load_component prog uri_path part (n + 1) tmp_msg (load_lines prog uri_path ls prev (n + 1)))"

subsection \<open>The text is cut into its lines\<close>

lemma render_shape: "line_ok l \<Longrightarrow> \<exists>b. render l = b @ [nl] \<and> nl \<notin> set b"
proof (cases l)
  case (Component name a)
  assume "line_ok l"
  with Component have "\<forall>c \<in> set name. \<not> isspace c" by (simp add: name_ok_def)
  moreover have "isspace nl" by (simp add: isspace_def nl_def)
  ultimately have "nl \<notin> set name" by blast
  moreover have "nl \<notin> set (hex (unat a))" using hex_digits isxdigit_plain by blast
  ultimately show ?thesis
    using Component by (intro exI [of _ "name @ CHR '' '' # hex (unat a)"]) (simp add: nl_def)
qed (auto simp: nl_def intro: exI [of _ "CHR ''*'' # _"])

lemma fgets_line_first:
  assumes "nl \<notin> set b" and "length b + 1 < n"
  shows "fgets_line n (b @ nl # rest) = b @ [nl]"
proof -
  have "take (n - 1) (b @ nl # rest) = b @ nl # take (n - 2 - length b) rest"
    using assms(2) by (simp add: take_Cons' diff_diff_left numeral_2_eq_2)
  moreover have "find_index (\<lambda>c. c = nl) (b @ nl # r) = Some (length b)" for r
    using assms(1) by (induction b) auto
  ultimately show ?thesis by (simp add: fgets_line_def Let_def)
qed

lemma fgets_lines_render:
  "\<forall>l \<in> set ls. ins_line_ok l \<Longrightarrow> fgets_lines CFG_STR_MAX_LEN (concat (map render ls)) = map render ls"
proof (induction ls)
  case (Cons l ls)
  then obtain b where b: "render l = b @ [nl]" "nl \<notin> set b" "length b + 1 < CFG_STR_MAX_LEN"
    using render_shape [of l] by (auto simp: ins_line_ok_def)
  have "fgets_line CFG_STR_MAX_LEN (render l @ concat (map render ls)) = render l"
    using fgets_line_first [OF b(2,3)] b(1) by simp
  with Cons b(1) show ?case
    by (subst fgets_lines.simps) (simp add: CFG_STR_MAX_LEN_def)
qed (simp add: fgets_lines.simps)

lemma scan_ins_line_component:
  assumes "name_ok name"
  shows "scan_ins_line (render (Component name a)) st = (name, a)"
proof -
  let ?r = "CHR '' '' # hex (unat a) @ [nl]"
  have plain: "\<not> isspace c \<and> c \<noteq> CHR 0x00" if "c \<in> set name" for c
    using assms that by (auto simp: name_ok_def)
  have sp: "isspace CHR '' ''" by (simp add: isspace_def)
  have "CHR 0x00 \<notin> set (hex (unat a))" using hex_digits isxdigit_plain by blast
  then have "cstr (name @ ?r) = name @ ?r" using plain by (intro cstr_id) (auto simp: nl_def)
  moreover have "dropWhile isspace (name @ ?r) = name @ ?r"
    using plain assms by (cases name) (auto simp: name_ok_def)
  moreover have "takeWhile (\<lambda>c. \<not> isspace c) (name @ ?r) = name"
    and "dropWhile (\<lambda>c. \<not> isspace c) (name @ ?r) = ?r"
    using plain sp by (simp_all add: takeWhile_append_stop dropWhile_append_stop)
  ultimately show ?thesis
    using assms scan_lx_hex [of a] by (simp add: scan_ins_line_def name_ok_def)
qed

text \<open>The component before a line, as the two variables of the loop hold it.\<close>

definition holds_prev :: "(string \<times> 64 word) option \<Rightarrow> string \<times> 64 word \<Rightarrow> bool" where
  "holds_prev prev st \<longleftrightarrow> (case prev of None \<Rightarrow> fst st = [] | Some part \<Rightarrow> st = part \<and> fst part \<noteq> [])"

lemma insfile_loop_lines:
  assumes "\<forall>l \<in> set ls. ins_line_ok l" and "holds_prev prev st"
  shows "insfile_loop prog uri_path (map render ls) st n tmp_msg
    = load_lines prog uri_path ls prev n tmp_msg"
  using assms
proof (induction ls arbitrary: prev st n tmp_msg)
  case (Cons l ls)
  then have ok: "line_ok l" and rest: "\<forall>l \<in> set ls. ins_line_ok l" by (auto simp: ins_line_ok_def)
  show ?case
  proof (cases l)
    case (Comment c)
    with Cons.IH [OF rest Cons.prems(2)] show ?thesis by simp
  next
    case (Component name a)
    with ok have name: "name_ok name" by simp
    then have h: "render l \<noteq> []" "hd (render l) \<noteq> CHR ''*''" "name \<noteq> []"
      by (auto simp: Component name_ok_def)
    have "holds_prev (Some (name, a)) (name, a)" using h(3) by (simp add: holds_prev_def)
    note IH = Cons.IH [OF rest this]
    have "scan_ins_line (render l) st = (name, a)"
      unfolding Component by (rule scan_ins_line_component [OF name])
    with h IH show ?thesis
      by (simp add: Component load_component_def Let_def del: render.simps cong: if_cong)
  next
    case Blank
    show ?thesis
    proof (cases prev)
      case None
      with Cons.prems(2) have "fst st = []" by (simp add: holds_prev_def)
      with Blank None Cons.IH [OF rest Cons.prems(2)] nl_not_star show ?thesis
        by (simp add: scan_ins_line_blank Let_def)
    next
      case (Some part)
      with Cons.prems(2) have st: "st = part" "fst st \<noteq> []" by (auto simp: holds_prev_def)
      have IH: "insfile_loop prog uri_path (map render ls) part n tmp_msg
          = load_lines prog uri_path ls (Some part) n tmp_msg" for n tmp_msg
        using Cons.IH [OF rest Cons.prems(2)] Some st(1) by simp
      have "insfile_loop prog uri_path (map render (l # ls)) st n tmp_msg
          = load_component prog uri_path part (n + 1) tmp_msg (load_lines prog uri_path ls prev (n + 1))"
        unfolding Blank list.map render.simps insfile_loop_blank [OF st(2)] load_component_def Let_def
        by (simp only: IH st(1) Some)
      with Blank Some show ?thesis by simp
    qed
  qed
qed simp

lemma abind_state_cong: "m t = m' t \<Longrightarrow> abind m f t = abind m' f t"
  by (simp add: abind_def)

text \<open>The whole boot of an INSFILE whose text is that of a list of lines.\<close>

definition insfile_spec :: "prog \<Rightarrow> cptr \<Rightarrow> string \<Rightarrow> ins_line list \<Rightarrow> cptr \<Rightarrow> string act" where
  "insfile_spec prog cmd uri_path ls m =
     abind (load_lines prog (Some uri_path) ls None 0 m) (\<lambda>r.
       case r of
         Some e \<Rightarrow> insfile_cleanup e
       | None \<Rightarrow> abind (unlink SYSLOAD_FILENAME_INSFILE) (\<lambda>_.
           abind (insfile_start prog cmd) insfile_cleanup))"

lemma action_insfile_boot_lines:
  assumes "insfile boot = Some ins" and "ins \<noteq> []"
    and "comp_load prog SYSLOAD_FILENAME_INSFILE (prefix_root (root boot) ins) s = (Done (0, i, m), t)"
    and "file_at t SYSLOAD_FILENAME_INSFILE = Some (concat (map render ls))"
    and "open_err (sys_fs t) SYSLOAD_FILENAME_INSFILE = None"
    and "bad (sys_fs t) SYSLOAD_FILENAME_INSFILE = None"
    and "\<forall>l \<in> set ls. ins_line_ok l"
  shows "action_insfile_boot prog boot s =
    insfile_spec prog (cmdline boot) (get_uri_path (prefix_root (root boot) ins)) ls m t"
proof -
  have "holds_prev None ([], 0)" by (simp add: holds_prev_def)
  note loop = insfile_loop_lines [OF assms(7) this]
  have comps: "insfile_components prog boot u m t =
    abind (load_lines prog u ls None 0 m) (\<lambda>r. case r of Some e \<Rightarrow> aret e
      | None \<Rightarrow> abind (unlink SYSLOAD_FILENAME_INSFILE) (\<lambda>_. insfile_start prog (cmdline boot))) t" for u
    by (simp add: insfile_components_def fgets_lines_render [OF assms(7)] loop
        abind_Done [where m = "fopen SYSLOAD_FILENAME_INSFILE", OF fopen_ok, OF assms(4-6)])
  have "(\<lambda>r. abind (case r of Some e \<Rightarrow> aret e
      | None \<Rightarrow> abind (unlink SYSLOAD_FILENAME_INSFILE) (\<lambda>_. insfile_start prog (cmdline boot))) insfile_cleanup)
    = (\<lambda>r. case r of Some e \<Rightarrow> insfile_cleanup e
      | None \<Rightarrow> abind (unlink SYSLOAD_FILENAME_INSFILE) (\<lambda>_.
          abind (insfile_start prog (cmdline boot)) insfile_cleanup))"
    by (rule ext) (simp add: abind_assoc split: option.split)
  note flat = this
  have "abind (insfile_components prog boot u m) insfile_cleanup t
    = abind (abind (load_lines prog u ls None 0 m) (\<lambda>r. case r of Some e \<Rightarrow> aret e
        | None \<Rightarrow> abind (unlink SYSLOAD_FILENAME_INSFILE) (\<lambda>_. insfile_start prog (cmdline boot))))
        insfile_cleanup t" for u
    by (rule abind_state_cong) (rule comps)
  then have "abind (insfile_components prog boot (Some x) m) insfile_cleanup t
      = insfile_spec prog (cmdline boot) x ls m t" for x
    by (simp add: insfile_spec_def abind_assoc flat)
  then show ?thesis
    using assms(1,2)
    by (simp add: action_insfile_boot_def Let_def abind_assoc
      abind_Done [where m = "comp_load prog SYSLOAD_FILENAME_INSFILE (prefix_root (root boot) ins)", OF assms(3)])
qed

end
