(* ===== verification/UiSelection.thy ===== *)
theory UiSelection
  imports UiControl
begin

section \<open>Where a selection comes from\<close>

text \<open>
  The text that is parsed is what one client has written until then: all of it and nothing else, in
  the order of the reads, each piece cut at a 0 byte and at the size of the buffer.
\<close>

type_synonym client_event = "int \<times> (string + string) \<times> waits"

text \<open>
  The reads of a sequence of turns, in their order: in every turn those of the clients that exist,
  by ascending descriptor.
\<close>

definition turn_events :: "ui_info list \<Rightarrow> ui_turn \<Rightarrow> client_event list" where
  "turn_events cs turn =
     (case turn_select turn of
        Ready evs \<Rightarrow> sort_key fst (filter (\<lambda>e. fst e \<in> build_waitset (turn_alive turn) cs) evs)
      | Interrupted sig \<Rightarrow> [] | SelectFailed m \<Rightarrow> [])"

definition client_events :: "ui_info list \<Rightarrow> ui_turn list \<Rightarrow> client_event list" where
  "client_events cs turns = concat (map (turn_events cs) turns)"

text \<open>A signal other than \<^verbatim>\<open>SIGUSR1\<close> has interrupted the wait for input.\<close>

definition interrupts :: "ui_turn \<Rightarrow> bool" where
  "interrupts turn \<longleftrightarrow> (\<exists>sig. turn_select turn = Interrupted sig \<and> sig \<noteq> SIGUSR1)"

text \<open>What has been read from a descriptor.\<close>

definition piece :: "int \<Rightarrow> client_event \<Rightarrow> string" where
  "piece fd e =
     (if fst e = fd then case fst (snd e) of Inr p \<Rightarrow> cstr (take CFG_STR_MAX_LEN p) | Inl m \<Rightarrow> [] else [])"

definition said :: "int \<Rightarrow> client_event list \<Rightarrow> string" where
  "said fd es = concat (map (piece fd) es)"

lemma said_simps [simp]: "said fd [] = []" "said fd (es @ fs) = said fd es @ said fd fs"
  "said fd [e] = piece fd e"
  by (simp_all add: said_def)

text \<open>The entry is the parse of what one client has said up to one of its reads.\<close>

definition spoken ::
  "('t, 'p) grammar \<Rightarrow> netifs \<Rightarrow> prog \<Rightarrow> client_event list \<Rightarrow> client_event list \<Rightarrow> cfg_bentry \<Rightarrow> bool" where
  "spoken g net prog es0 es b \<longleftrightarrow>
     (\<exists>m sc s sc' t. m < length es \<and>
        parse_sysload_boot_entry g net prog sc (said (fst (es ! m)) (es0 @ take (Suc m) es)) s
          = (Done (None, sc', b), t))"

lemma spoken_append: "spoken g net prog es0 es b \<Longrightarrow> spoken g net prog es0 (es @ fs) b"
  unfolding spoken_def by (metis (no_types, lifting) length_append nth_append take_append trans_less_add1
      Suc_leI diff_is_0_eq take0 append_Nil2)

lemma spoken_later:
  assumes "spoken g net prog (es0 @ es) fs b"
  shows "spoken g net prog es0 (es @ fs) b"
proof -
  obtain m sc s sc' t where m: "m < length fs"
    "parse_sysload_boot_entry g net prog sc (said (fst (fs ! m)) ((es0 @ es) @ take (Suc m) fs)) s
      = (Done (None, sc', b), t)"
    using assms unfolding spoken_def by blast
  have "(es @ fs) ! (length es + m) = fs ! m" "take (Suc (length es + m)) (es @ fs) = es @ take (Suc m) fs"
    by simp_all
  with m show ?thesis
    unfolding spoken_def by (intro exI [of _ "length es + m"] exI [of _ sc] exI [of _ s] exI [of _ sc'] exI [of _ t]) simp
qed

subsection \<open>What the clients have said\<close>

definition texts :: "ui_info list \<Rightarrow> (int \<times> cptr) list" where
  "texts cs = map (\<lambda>c. (pipe_in c, collected_str c)) cs"

definition heard :: "client_event list \<Rightarrow> ui_info list \<Rightarrow> bool" where
  "heard es cs \<longleftrightarrow> (\<forall>fd \<in> pipe_in ` set cs. map_of (texts cs) fd = Some (Some (said fd es)))"

lemma mark_terminated_texts [simp]: "texts (mark_terminated pid st cs) = texts cs"
  by (simp add: texts_def mark_terminated_def)

lemma remove_terminated_texts [simp]: "texts (remove_terminated ws final st cs) = texts cs"
  by (induction ws final st cs rule: remove_terminated.induct) simp_all

lemma texts_pipes: "fst ` set (texts cs) = pipe_in ` set cs"
  by (force simp: texts_def)

lemma heard_texts: "texts cs = texts cs' \<Longrightarrow> heard es cs = heard es cs'"
  unfolding heard_def texts_pipes [symmetric] by simp

lemma heard_start:
  assumes "\<forall>c \<in> set cs. collected_str c = Some []"
  shows "heard [] cs"
proof -
  have "map_of (texts cs) fd = Some (Some [])" if "fd \<in> pipe_in ` set cs" for fd
    using assms that by (induction cs) (auto simp: texts_def)
  then show ?thesis by (simp add: heard_def)
qed

text \<open>The first client with a descriptor.\<close>

lemma map_of_first:
  "find_index (\<lambda>x. fst x = k) xs = Some j \<Longrightarrow>
   j < length xs \<and> map_of xs k = Some (snd (xs ! j)) \<and> map_of (xs[j := (k, v)]) = (map_of xs)(k \<mapsto> v)"
proof (induction xs arbitrary: j)
  case (Cons x xs)
  show ?case
  proof (cases "fst x = k")
    case True
    with Cons.prems show ?thesis by (cases x) (auto simp: fun_eq_iff)
  next
    case False
    with Cons.prems obtain i where i: "j = Suc i" "find_index (\<lambda>x. fst x = k) xs = Some i"
      by auto
    from Cons.IH [OF i(2)] False i(1) show ?thesis by (cases x) (auto simp: fun_upd_twist)
  qed
qed simp

lemma find_texts: "find_index (\<lambda>c. pipe_in c = fd) cs = find_index (\<lambda>x. fst x = fd) (texts cs)"
  by (induction cs) (simp_all add: texts_def)

lemma collect_input_heard:
  assumes "collect_input fd input w st = Inr (i, st')" and h: "heard es (ui_clients st)"
    and fd: "fd \<in> pipe_in ` set (ui_clients st)"
  shows "heard (es @ [(fd, input, w)]) (ui_clients st')"
    and "i < length (ui_clients st')"
    and "collected_str (ui_clients st' ! i) = Some (said fd (es @ [(fd, input, w)]))"
proof -
  let ?cs = "ui_clients st" and ?e = "(fd, input, w)"
  obtain j where j: "find_index (\<lambda>c. pipe_in c = fd) ?cs = Some j"
    using fd find_index_None [of "\<lambda>c. pipe_in c = fd" ?cs]
    by (cases "find_index (\<lambda>c. pipe_in c = fd) ?cs") auto
  have l: "j < length ?cs" "pipe_in (?cs ! j) = fd" using find_index_Some [OF j] by auto
  note first = map_of_first [OF j [unfolded find_texts]]
  from h fd have m: "map_of (texts ?cs) fd = Some (Some (said fd es))" by (auto simp: heard_def)
  with first l have c: "collected_str (?cs ! j) = Some (said fd es)" by (simp add: texts_def)
  let ?v = "Some (said fd (es @ [?e]))"
  obtain msg where r: "read_from_client (Some (said fd es)) input = Inr (?v, msg)"
    by (cases input) (auto simp: read_from_client_def piece_def cfg_simps)
  have s: "search_for_client fd ?cs = (j, [])" using j by (simp add: search_for_client_def)
  have st': "i = j" "ui_clients st' = remove_terminated (fst w) (snd w) 0 (?cs[j := (?cs ! j)\<lparr>collected_str := ?v\<rparr>])"
    using assms(1) s l(1) c r by (auto simp: collect_input_def Let_def remove_terminated_clients_def)
  have t: "texts (ui_clients st') = (texts ?cs)[j := (fd, ?v)]"
    using l by (simp add: st'(2)) (simp add: texts_def map_update)
  have p: "pipe_in ` set (ui_clients st') = pipe_in ` set ?cs"
  proof -
    have "map fst ((texts ?cs)[j := (fd, ?v)]) = map fst (texts ?cs)"
      using l by (simp add: map_update texts_def list_update_same_conv)
    then show ?thesis unfolding texts_pipes [symmetric] t by (metis list.set_map)
  qed
  show "heard (es @ [?e]) (ui_clients st')"
    unfolding heard_def
  proof
    fix x assume "x \<in> pipe_in ` set (ui_clients st')"
    then have "map_of (texts ?cs) x = Some (Some (said x es))" using h p unfolding heard_def by blast
    moreover have "said x (es @ [?e]) = said x es" if "x \<noteq> fd" using that by (simp add: piece_def)
    ultimately show "map_of (texts (ui_clients st')) x = Some (Some (said x (es @ [?e])))"
      using first [of ?v] by (simp add: t)
  qed
  have "length (texts (ui_clients st')) = length ?cs" unfolding t by (simp add: texts_def)
  then show len: "i < length (ui_clients st')" using l(1) st'(1) by (simp add: texts_def)
  have "texts (ui_clients st') ! j = (fd, ?v)" unfolding t using l(1) by (simp add: texts_def)
  then show "collected_str (ui_clients st' ! i) = ?v" using len st'(1) by (simp add: texts_def)
qed

lemma check_collected_parses:
  assumes "check_collected g net prog i st s = (Done (ok, st'), t)"
  shows "ui_clients st' = ui_clients st"
    and "ok \<Longrightarrow> \<exists>str sc sc' u. collected_str (ui_clients st ! i) = Some str
      \<and> parse_sysload_boot_entry g net prog sc str s = (Done (None, sc', ui_boot st'), u)"
proof -
  show "ui_clients st' = ui_clients st"
    using assms by (auto simp: check_collected_def abind_Done_iff log_ui_def split: if_splits option.splits)
  show "\<exists>str sc sc' u. collected_str (ui_clients st ! i) = Some str
      \<and> parse_sysload_boot_entry g net prog sc str s = (Done (None, sc', ui_boot st'), u)" if ok
    using assms that
    by (auto simp: check_collected_def abind_Done_iff split: if_splits option.splits simp del: split_paired_Ex) blast
qed

lemma waitset_ids: "ui_ids cs = ui_ids cs' \<Longrightarrow> build_waitset alive cs = build_waitset alive cs'"
proof -
  have "build_waitset alive cs = (\<lambda>(p, i, q). i) ` {x \<in> set (ui_ids cs). alive (fst x)}" for cs
    by (force simp: build_waitset_def ui_ids_def)
  then show "ui_ids cs = ui_ids cs' \<Longrightarrow> build_waitset alive cs = build_waitset alive cs'" by simp
qed

lemma ui_ids_pipes: "ui_ids cs = ui_ids cs' \<Longrightarrow> pipe_in ` set cs = pipe_in ` set cs'"
  using waitset_ids [of cs cs' "\<lambda>_. True"] by (simp add: build_waitset_def)

lemma service_heard:
  assumes "service g net prog evs st s = (Done (ok, st'), t)" and "heard es (ui_clients st)"
    and "fst ` set evs \<subseteq> pipe_in ` set (ui_clients st)"
  shows "if ok then spoken g net prog es evs (ui_boot st') else heard (es @ evs) (ui_clients st')"
  using assms
proof (induction evs arbitrary: st s es)
  case (Cons e evs)
  obtain fd input w where e: "e = (fd, input, w)" by (cases e)
  from Cons.prems(1) e obtain o1 st1 u where c: "check_input_from_client g net prog fd input w st s
      = (Done (o1, st1), u)"
    and r: "(if o1 then aret (True, st1) else service g net prog evs st1) u = (Done (ok, st'), t)"
    by (auto simp: abind_Done_iff)
  from c obtain i st2 where c2: "collect_input fd input w st = Inr (i, st2)"
    and d: "check_collected g net prog i st2 s = (Done (o1, st1), u)"
    by (auto simp: check_input_from_client_def abind_Done_iff lift_res_Done_iff)
  have "fd \<in> pipe_in ` set (ui_clients st)" using Cons.prems(3) e by simp
  note h = collect_input_heard [OF c2 Cons.prems(2) this]
  show ?case
  proof (cases o1)
    case True
    with check_collected_parses(2) [OF d] h(3) obtain sc sc' v where
      "parse_sysload_boot_entry g net prog sc (said fd (es @ [e])) s = (Done (None, sc', ui_boot st1), v)"
      using e by auto
    then have "spoken g net prog es [e] (ui_boot st1)"
      unfolding spoken_def using e by (intro exI [of _ 0] exI [of _ sc] exI [of _ s] exI [of _ sc'] exI [of _ v]) simp
    with spoken_append [of g net prog es "[e]" _ evs] True r show ?thesis by simp
  next
    case False
    have "heard (es @ [e]) (ui_clients st1)" using h(1) check_collected_parses(1) [OF d] e by simp
    moreover have "pipe_in ` set (ui_clients st1) = pipe_in ` set (ui_clients st)"
      using check_input_waiting(1) [OF c] by (intro ui_ids_pipes) (simp add: waiting_def)
    ultimately have "if ok then spoken g net prog (es @ [e]) evs (ui_boot st')
        else heard ((es @ [e]) @ evs) (ui_clients st')"
      using r False Cons.prems(3) by (intro Cons.IH) auto
    with spoken_later [of g net prog es "[e]" evs] show ?thesis by (cases ok) simp_all
  qed
qed simp

lemma ui_loop_heard:
  assumes "ui_loop g net prog turns e st s = (Done (True, st'), t)" and "heard es (ui_clients st)"
    and "ui_ids (ui_clients st) = ui_ids cs"
  shows "spoken g net prog es (client_events cs turns) (ui_boot st')
    \<or> list_ex interrupts turns \<and> ui_timeout (ui_config st') = Inr (Some (ui_boot st'))"
  using assms
proof (induction turns arbitrary: e st s es)
  case (Cons turn turns)
  let ?st = "ui_select e (receive (turn_signals turn) st)"
  have cl: "ui_clients ?st = ui_clients st" by (simp add: ui_select_def receive_def)
  show ?case
  proof (cases "turn_select turn")
    case (Interrupted sig)
    let ?si = "receive [sig] ?st"
    have ci: "ui_clients ?si = ui_clients st" by (simp add: ui_select_def receive_def)
    have ev: "client_events cs (turn # turns) = client_events cs turns"
      using Interrupted by (simp add: client_events_def turn_events_def)
    show ?thesis
    proof (cases "rcvd_sig ?si = Some SIGUSR1")
      case True
      define st1 where "st1 = (if e \<noteq> 0 then log_ui ''TIMEOUT STOPPED BY USER''
          (?si\<lparr>ui_config := (ui_config ?si)\<lparr>timeout := 0\<rparr>\<rparr>) else ?si)"
      have "ui_clients st1 = ui_clients ?si" by (simp add: st1_def log_ui_def)
      then have "ui_clients st1 = ui_clients st" using ci by simp
      moreover have "ui_loop g net prog turns 0 st1 s = (Done (True, st'), t)"
        using Cons.prems(1) True Interrupted by (simp add: st1_def Let_def)
      ultimately show ?thesis unfolding ev using Cons.IH [of 0 st1 s es] Cons.prems(2,3) by auto
    next
      case False
      with Cons.prems(1) Interrupted obtain b where "ui_timeout (ui_config ?si) = Inr b"
        and "(True, st') = (case b of None \<Rightarrow> (False, ?si) | Some b \<Rightarrow> (True, ?si\<lparr>ui_boot := b\<rparr>))"
        by (auto simp: Let_def abind_Done_iff lift_res_Done_iff)
      moreover have "interrupts turn" using False Interrupted by (simp add: interrupts_def receive_def)
      ultimately show ?thesis by (cases b) simp_all
    qed
  next
    case (SelectFailed m)
    with Cons.prems(1) show ?thesis by (simp add: Let_def)
  next
    case (Ready evs)
    have ev: "turn_events cs turn = sort_key fst (filter (\<lambda>e. fst e \<in> build_waitset (turn_alive turn) (ui_clients st)) evs)"
      using Ready waitset_ids [OF Cons.prems(3)] by (simp add: turn_events_def)
    from Cons.prems(1) Ready ev obtain o1 st1 u where
      c: "service g net prog (turn_events cs turn) ?st s = (Done (o1, st1), u)"
      and r: "(if o1 then aret (True, st1) else ui_loop g net prog turns e st1) u = (Done (True, st'), t)"
      by (auto simp: Let_def abind_Done_iff)
    have "fst ` set (turn_events cs turn) \<subseteq> pipe_in ` set (ui_clients ?st)"
      by (auto simp: ev cl build_waitset_def)
    from service_heard [OF c _ this, of es] Cons.prems(2) cl
    have h: "if o1 then spoken g net prog es (turn_events cs turn) (ui_boot st1)
        else heard (es @ turn_events cs turn) (ui_clients st1)" by simp
    have ids: "ui_ids (ui_clients st1) = ui_ids cs"
      using service_waiting(1) [OF c] Cons.prems(3) cl by (simp add: waiting_def)
    have split: "client_events cs (turn # turns) = turn_events cs turn @ client_events cs turns"
      by (simp add: client_events_def)
    show ?thesis
    proof (cases o1)
      case True
      with h r show ?thesis unfolding split by (auto intro: spoken_append)
    next
      case False
      with h r Cons.IH [of e st1 u "es @ turn_events cs turn"] ids show ?thesis
        unfolding split by (auto intro: spoken_later)
    qed
  qed
qed simp

lemma start_clients_started:
  "start_clients k n us st s = (Done (True, st'), t) \<Longrightarrow>
   ui_clients st = pre @ replicate (length us + d) client_init \<Longrightarrow> length pre = n \<Longrightarrow>
   ui_clients st' = pre @ map (\<lambda>i. forked (uk_start k i)) [n..<n + length us] @ replicate d client_init"
proof (induction k n us st arbitrary: s pre rule: start_clients.induct)
  case (2 k i u us st)
  show ?case
  proof (cases "uk_start k i")
    case (Parent a b pid)
    have "ui_clients (set_client i (\<lambda>c. c\<lparr>pipe_in := a, pipe_out := b, ui_stat := UI_RUNNING, ui_pid := pid\<rparr>) st)
        = (pre @ [forked (uk_start k i)]) @ replicate (length us + d) client_init"
      using 2(3,4) Parent by (simp add: set_client_def list_update_append nth_append)
    from 2(1) [OF Parent _ this] 2(2,4) Parent show ?thesis
      by (simp add: upt_conv_Cons del: upt_Suc)
  next
    case (Child a b e)
    with 2(2) show ?thesis by (cases e) (auto simp: abind_Done_iff)
  qed (use 2(2) in auto)
qed simp

text \<open>
  The entry of a successful call is the default entry after such a signal, or the parse of what one client has said
  up to one of its reads.
\<close>

definition started_clients :: "ui_kernel \<Rightarrow> cfg_toplevel \<Rightarrow> ui_info list" where
  "started_clients k config =
     (let n = min (ui_count config) (length (ui_list config)) in
      map (\<lambda>i. forked (uk_start k i)) [0..<n] @ replicate (ui_count config - n) client_init)"

lemma userinterface_selection_said:
  assumes "userinterface g net prog k msg config boot sig sc s = (Done (True, st), t)"
  shows "list_ex interrupts (uk_turns k) \<and> ui_timeout config = Inr (Some (ui_boot st))
    \<or> spoken g net prog [] (client_events (started_clients k config) (uk_turns k)) (ui_boot st)"
  using assms
proof (cases rule: userinterface_cases)
  case (2 st1 u)
  from 2(1) show ?thesis
  proof (cases rule: run_clients_cases)
    case (3 v st0 x)
    have cs: "ui_clients st0 = started_clients k config"
      using start_clients_started [OF 3(1), of "[]" "ui_count config - min (ui_count config) (length (ui_list config))"]
      by (simp add: started_clients_def Let_def min.commute)
    have "collected_str (forked x) = Some []" "collected_str client_init = Some []" for x
      by (cases x) (simp_all add: client_init_def cfg_strinit_def)
    then have "\<forall>c \<in> set (ui_clients st0). collected_str c = Some []"
      by (auto simp: cs started_clients_def Let_def)
    then have "heard [] (ui_clients st0)" by (rule heard_start)
    from ui_loop_heard [OF 3(2) this] cs have s: "spoken g net prog [] (client_events (started_clients k config) (uk_turns k)) (ui_boot st1)
        \<or> list_ex interrupts (uk_turns k) \<and> ui_timeout (ui_config st1) = Inr (Some (ui_boot st1))" by simp
    have c: "ui_config st0 = config"
      using start_clients_keeps [OF 3(1)] by (simp add: ui_initial_def)
    have "ui_timeout (ui_config st1) = ui_timeout config"
      using c ui_loop_result(1) [OF 3(2)] by (intro ui_timeout_cong) (simp add: waiting_def)
    with s 2(2) show ?thesis by auto
  qed simp_all
qed simp_all

end
