(* ===== verification/EndToEnd.thy ===== *)
theory EndToEnd
  imports Sysload
begin

section \<open>From the configuration to the new kernel\<close>

text \<open>
  The components together, in a world in which everything works: the timeout expires, the modules
  deliver what the URIs denote, and kexec loads and starts the kernel. The main program then never
  comes back, and the programs it has started are exactly those of the default entry.
\<close>

subsection \<open>A world in which everything works\<close>

text \<open>
  A loader module writes the contents of its URI into the file of its first argument, ends both
  streams and exits with 0; \<^verbatim>\<open>kexec -l\<close> returns 0 and \<^verbatim>\<open>kexec -e\<close> does not return.
\<close>

definition module_works :: "prog \<Rightarrow> (string \<Rightarrow> string) \<Rightarrow> bool" where
  "module_works prog content \<longleftrightarrow>
     (\<forall>path uri dest f. absolute uri \<longrightarrow>
        (\<exists>rs f'. prog [module_path path uri, dest, uri] f = (Exited rs 0, f')
          \<and> stream_ends (map fst rs) \<and> stream_ends (map snd rs)
          \<and> files f' = (files f)(dest \<mapsto> content uri) \<and> open_err f' = open_err f \<and> bad f' = bad f))"

definition kexec_works :: "prog \<Rightarrow> bool" where
  "kexec_works prog \<longleftrightarrow>
     (\<forall>ird cmd f. \<exists>rs f'. prog (kexec_load_argv SYSLOAD_FILENAME_KERNEL ird cmd) f = (Exited rs 0, f'))
     \<and> (\<forall>f. \<exists>f'. prog kexec_exec_argv f = (NoReturn, f'))"

text \<open>After a component has been loaded.\<close>

definition loaded :: "(string \<Rightarrow> string) \<Rightarrow> string \<Rightarrow> string \<Rightarrow> sys \<Rightarrow> sys \<Rightarrow> bool" where
  "loaded content dest uri s t \<longleftrightarrow> sys_env t = sys_env s
     \<and> sys_trace t = sys_trace s @ [module_argv s dest uri]
     \<and> file_at t dest = Some (content uri)
     \<and> open_err (sys_fs t) = open_err (sys_fs s) \<and> bad (sys_fs t) = bad (sys_fs s)"

lemma load_works:
  assumes "module_works prog content" and "absolute (prefix_root rt uri)"
  shows "\<exists>tm' t. load_optional prog dest what rt uri tm s = (Done (None, tm'), t)
    \<and> loaded content dest (prefix_root rt uri) s t"
proof -
  let ?u = "prefix_root rt uri"
  obtain rs f where p: "prog (module_argv s dest ?u) (sys_fs s) = (Exited rs 0, f)"
    "stream_ends (map fst rs)" "stream_ends (map snd rs)"
    "files f = (files (sys_fs s))(dest \<mapsto> content ?u)" "open_err f = open_err (sys_fs s)" "bad f = bad (sys_fs s)"
    using assms unfolding module_works_def module_argv_def by metis
  let ?t = "s\<lparr>sys_fs := f, sys_trace := sys_trace s @ [module_argv s dest ?u]\<rparr>"
  from comp_load_Exited [where prog = prog and s = s and dest = dest, OF assms(2) p(1-3)] obtain i m where
    "comp_load prog dest ?u s = (Done (0, i, m), ?t)" by (auto simp: exited_ok_def)
  from load_optional_ok [OF this] have "load_optional prog dest what rt uri tm s = (Done (None, upd_out m tm), ?t)" .
  moreover have "loaded content dest ?u s ?t" using p by (simp add: loaded_def file_at_def)
  ultimately show ?thesis by blast
qed

lemma kexec_starts:
  assumes "kexec_works prog"
  shows "\<exists>u. kexec prog SYSLOAD_FILENAME_KERNEL ird cmd s = (Stopped, u)
    \<and> sys_trace u = sys_trace s @ [kexec_load_argv SYSLOAD_FILENAME_KERNEL ird cmd, kexec_exec_argv]"
proof -
  let ?l = "kexec_load_argv SYSLOAD_FILENAME_KERNEL ird cmd"
  obtain rs f where "prog ?l (sys_fs s) = (Exited rs 0, f)" using assms unfolding kexec_works_def by blast
  from systemv_eq(1) [where prog = prog and argv = "?l", OF this] have l: "systemv prog ?l s = (Done 0, s\<lparr>sys_fs := f, sys_trace := sys_trace s @ [?l]\<rparr>)" .
  obtain f' where "prog kexec_exec_argv f = (NoReturn, f')" using assms unfolding kexec_works_def by blast
  then have "fst (systemv prog kexec_exec_argv (s\<lparr>sys_fs := f, sys_trace := sys_trace s @ [?l]\<rparr>)) = Stopped"
    by (simp add: systemv_eq(4))
  then have "fst (kexec prog SYSLOAD_FILENAME_KERNEL ird cmd s) = Stopped"
    using l by (simp add: kexec_def abind_fst_Stopped)
  moreover have "sys_trace (snd (kexec prog SYSLOAD_FILENAME_KERNEL ird cmd s)) = sys_trace s @ [?l, kexec_exec_argv]"
    using l by (simp add: kexec_trace)
  ultimately show ?thesis by (metis prod.collapse)
qed

subsection \<open>The kernel boot\<close>

text \<open>
  An entry that can be booted: a kernel, an optional initrd and an optional parameter file, all
  with URIs the loader accepts, whose command line fits.
\<close>

definition entry_uri :: "cfg_bentry \<Rightarrow> cptr \<Rightarrow> string" where
  "entry_uri boot c = prefix_root (root boot) (the c)"

definition optional_uri :: "cfg_bentry \<Rightarrow> cptr \<Rightarrow> bool" where
  "optional_uri boot c \<longleftrightarrow> c \<noteq> None \<and> (c \<noteq> Some [] \<longrightarrow> absolute (entry_uri boot c))"

definition bootable :: "(string \<Rightarrow> string) \<Rightarrow> cfg_bentry \<Rightarrow> bool" where
  "bootable content boot \<longleftrightarrow> optional_uri boot (kernel boot) \<and> kernel boot \<noteq> Some []
     \<and> optional_uri boot (initrd boot) \<and> optional_uri boot (parmfile boot) \<and> cmdline boot \<noteq> None
     \<and> (parmfile boot \<noteq> Some [] \<longrightarrow>
          length (content (entry_uri boot (parmfile boot))) + length (the (cmdline boot))
            \<le> SYSLOAD_MAX_KERNEL_CMDLINE)"

definition boot_cmdline :: "(string \<Rightarrow> string) \<Rightarrow> cfg_bentry \<Rightarrow> string" where
  "boot_cmdline content boot =
     (if parmfile boot = Some [] then the (cmdline boot)
      else cstr (content (entry_uri boot (parmfile boot))) @ '' '' @ the (cmdline boot))"

definition optional_call :: "sys \<Rightarrow> string \<Rightarrow> cfg_bentry \<Rightarrow> cptr \<Rightarrow> string list list" where
  "optional_call s dest boot c = (if c = Some [] then [] else [module_argv s dest (entry_uri boot c)])"

definition kernel_boot_calls :: "(string \<Rightarrow> string) \<Rightarrow> cfg_bentry \<Rightarrow> sys \<Rightarrow> string list list" where
  "kernel_boot_calls content boot s =
     optional_call s SYSLOAD_FILENAME_KERNEL boot (kernel boot)
     @ optional_call s SYSLOAD_FILENAME_INITRD boot (initrd boot)
     @ optional_call s SYSLOAD_FILENAME_PARMFILE boot (parmfile boot)
     @ [kexec_load_argv SYSLOAD_FILENAME_KERNEL
          (if initrd boot = Some [] then [] else SYSLOAD_FILENAME_INITRD) (boot_cmdline content boot),
        kexec_exec_argv]"

lemma optional_call_env: "sys_env t = sys_env s \<Longrightarrow> optional_call t = optional_call s"
  by (intro ext) (simp add: optional_call_def module_argv_def)

text \<open>One optional component, in the form of the three branches of \<^const>\<open>kernel_boot_body\<close>.\<close>

definition after_load :: "string \<Rightarrow> cfg_bentry \<Rightarrow> cptr \<Rightarrow> sys \<Rightarrow> sys \<Rightarrow> bool" where
  "after_load dest boot c s t \<longleftrightarrow> sys_env t = sys_env s
     \<and> sys_trace t = sys_trace s @ optional_call s dest boot c
     \<and> open_err (sys_fs t) = open_err (sys_fs s) \<and> bad (sys_fs t) = bad (sys_fs s)"

lemma optional_load_works:
  assumes "module_works prog content" and "optional_uri boot (Some u)" and "u \<noteq> []"
  shows "\<exists>tm' t. load_optional prog dest what (root boot) u tm s = (Done (None, tm'), t)
    \<and> after_load dest boot (Some u) s t \<and> file_at t dest = Some (content (entry_uri boot (Some u)))"
  using load_works [of prog content "root boot" u dest what tm s] assms
  by (auto simp: optional_uri_def entry_uri_def loaded_def after_load_def optional_call_def)

lemma kernel_boot_body_works:
  assumes m: "module_works prog content" and x: "kexec_works prog" and b: "bootable content boot"
    and o: "open_err (sys_fs s) SYSLOAD_FILENAME_PARMFILE = None" "bad (sys_fs s) SYSLOAD_FILENAME_PARMFILE = None"
  shows "\<exists>u. kernel_boot_body prog boot s = (Stopped, u)
    \<and> sys_trace u = sys_trace s @ kernel_boot_calls content boot s"
proof -
  from b obtain krn ird parm cmd where c: "kernel boot = Some krn" "initrd boot = Some ird"
    "parmfile boot = Some parm" "cmdline boot = Some cmd"
    unfolding bootable_def optional_uri_def by auto
  have e: "krn \<noteq> []" "optional_uri boot (Some krn)" "optional_uri boot (Some ird)"
    "optional_uri boot (Some parm)"
    using b unfolding bootable_def c by simp_all
  obtain tk sk where k: "load_optional prog SYSLOAD_FILENAME_KERNEL ''kernel image'' (root boot) krn None s
      = (Done (None, tk), sk)" "after_load SYSLOAD_FILENAME_KERNEL boot (kernel boot) s sk"
    unfolding c(1) using optional_load_works [OF m e(2,1)] by blast
  obtain ti si where i: "(if 0 < length ird
        then load_optional prog SYSLOAD_FILENAME_INITRD ''initrd image'' (root boot) ird tk
        else aret (None, tk)) sk = (Done (None, ti), si)"
    "after_load SYSLOAD_FILENAME_INITRD boot (initrd boot) sk si"
  proof (cases "ird = []")
    case True
    then show ?thesis using that [of tk sk] c(2) by (simp add: after_load_def optional_call_def)
  next
    case False
    obtain t st where "load_optional prog SYSLOAD_FILENAME_INITRD ''initrd image'' (root boot) ird tk sk
        = (Done (None, t), st)" "after_load SYSLOAD_FILENAME_INITRD boot (Some ird) sk st"
      using optional_load_works [OF m e(3) False] by blast
    then show ?thesis using that [of t st] c(2) False by simp
  qed
  obtain sp where p: "(if 0 < length parm
        then abind (load_optional prog SYSLOAD_FILENAME_PARMFILE ''parmfile'' (root boot) parm ti)
          (\<lambda>(e, tmp_msg). case e of Some m \<Rightarrow> aret (Inl m)
            | None \<Rightarrow> compose_commandline SYSLOAD_FILENAME_PARMFILE (cmdline boot))
        else abind (c_strcpy (cmdline boot)) (\<lambda>c. aret (Inr c))) si
      = (Done (Inr (boot_cmdline content boot)), sp)"
    "after_load SYSLOAD_FILENAME_PARMFILE boot (parmfile boot) si sp"
  proof (cases "parm = []")
    case True
    then show ?thesis using that [of si] c(3,4)
      by (simp add: after_load_def optional_call_def boot_cmdline_def c_strcpy_def)
  next
    case False
    obtain tp sp where l: "load_optional prog SYSLOAD_FILENAME_PARMFILE ''parmfile'' (root boot) parm ti si
        = (Done (None, tp), sp)" "after_load SYSLOAD_FILENAME_PARMFILE boot (parmfile boot) si sp"
      "file_at sp SYSLOAD_FILENAME_PARMFILE = Some (content (entry_uri boot (parmfile boot)))"
      unfolding c(3) using optional_load_works [OF m e(4) False] by blast
    moreover have "compose_commandline SYSLOAD_FILENAME_PARMFILE (Some cmd) sp
        = (Done (Inr (boot_cmdline content boot)), sp)"
      using compose_commandline_ok [OF l(3), of cmd] l(2) k(2) i(2) o b c(3,4) False
      by (simp add: after_load_def bootable_def boot_cmdline_def)
    ultimately show ?thesis using that [of sp] False c(4) by simp
  qed
  obtain u where u: "kexec prog SYSLOAD_FILENAME_KERNEL (if length ird \<noteq> 0 then SYSLOAD_FILENAME_INITRD else [])
      (boot_cmdline content boot) sp = (Stopped, u)"
    "sys_trace u = sys_trace sp @ [kexec_load_argv SYSLOAD_FILENAME_KERNEL
       (if length ird \<noteq> 0 then SYSLOAD_FILENAME_INITRD else []) (boot_cmdline content boot), kexec_exec_argv]"
    using kexec_starts [OF x] by blast
  have "kernel_boot_body prog boot s = (Stopped, u)"
    unfolding kernel_boot_body_def using c(1-3) e(1) k(1) i(1) p(1) u(1)
    by (simp add: c_strcpy_def del: length_greater_0_conv)
  moreover have "sys_trace u = sys_trace s @ kernel_boot_calls content boot s"
    using u(2) c(2) k(2) i(2) p(2)
      optional_call_env [of sk s] optional_call_env [of si s]
    by (simp add: kernel_boot_calls_def after_load_def)
  ultimately show ?thesis by blast
qed

lemma loader_boots_kernel:
  assumes "action boot = KERNEL_BOOT"
    and "module_works prog content" and "kexec_works prog" and "bootable content boot"
    and "open_err (sys_fs s) SYSLOAD_FILENAME_PARMFILE = None" "bad (sys_fs s) SYSLOAD_FILENAME_PARMFILE = None"
  shows "\<exists>u. loader heap kern prog boot s = (Stopped, u)
    \<and> sys_trace u = sys_trace s @ kernel_boot_calls content boot s"
  using kernel_boot_body_works [OF assms(2-6)] assms(1)
  by (auto simp: loader_def action_kernel_boot_def)

subsection \<open>From the timeout to the kernel\<close>

text \<open>Exporting the configuration does not touch the variable the modules are found with.\<close>

lemma exported_base_path:
  assumes "exported msg config env env'" and "cfg_wf config"
  shows "base_path env' = base_path env"
proof -
  have g: "getenv ''SYSLOAD_PATH'' e = get_var CFG_PATH e" for e
    by (simp add: get_var_def CFG_PREFIX_def CFG_PATH_def)
  have "env' = set_vars (env_vars config) (set_var CFG_STARTUP_MSG msg env)"
    using assms by (simp add: exported_def cfg_set_env_vars cfg_simps)
  moreover have "CFG_PATH \<notin> fst ` set (env_vars config)"
  proof -
    have "fst k \<noteq> CFG_PATH" if "k \<in> set (entries_vars 0 (bentry_list config))" for k
      using entries_vars_names [OF that] by auto
    moreover have "CFG_PATH \<notin> {CFG_VERSION, CFG_DEFAULT, CFG_TIMEOUT, CFG_PASSWORD, CFG_BENTRY_COUNT}"
      by (simp add: cfg_names)
    ultimately show ?thesis by (force simp: env_vars_def)
  qed
  ultimately have "get_var CFG_PATH env' = get_var CFG_PATH env"
    using vars.get_set_other [of CFG_STARTUP_MSG CFG_PATH msg env]
    by (simp add: get_env_vars_other) (simp add: cfg_names)
  with g show ?thesis by (simp add: base_path_def)
qed

lemma kernel_boot_calls_path:
  "base_path (sys_env t) = base_path (sys_env s) \<Longrightarrow> kernel_boot_calls content boot t = kernel_boot_calls content boot s"
  by (simp add: kernel_boot_calls_def optional_call_def module_argv_def)

lemma main_loop_boots:
  assumes "boots_after_timeout config" and "uk_malloc k"
    and "\<forall>i < ui_count config. in_parent k i"
    and "uk_turns k = turn # turns" and "turn_select turn = Interrupted SIGALRM"
    and b: "bentry_list config ! nat (boot_default config) = boot" "action boot = KERNEL_BOOT" "bootable content boot"
    and p: "module_works prog content" "kexec_works prog"
    and o: "open_err (sys_fs s) SYSLOAD_FILENAME_PARMFILE = None" "bad (sys_fs s) SYSLOAD_FILENAME_PARMFILE = None"
  shows "\<exists>u. main_loop g net prog heap kern (k # ks) msg config init sig sc s = (Stopped, u)
    \<and> sys_trace u = sys_trace s @ kernel_boot_calls content boot s"
proof -
  obtain env where env: "exported msg config (sys_env s) env"
    "main_loop g net prog heap kern (k # ks) msg config init sig sc s
      = abind (loader heap kern prog boot) (\<lambda>errmsg.
          main_loop g net prog heap kern ks (unable_to_start errmsg) config (cfg_bentry_destroy boot)
            (Some SIGALRM) sc) (s\<lparr>sys_env := env\<rparr>)"
    using main_loop_timeout [OF assms(1-5)] b(1) unfolding Let_def by blast
  let ?s = "s\<lparr>sys_env := env\<rparr>"
  obtain u where "loader heap kern prog boot ?s = (Stopped, u)"
    "sys_trace u = sys_trace ?s @ kernel_boot_calls content boot ?s"
    using loader_boots_kernel [OF b(2) p b(3), of ?s heap kern] o by auto
  moreover have "kernel_boot_calls content boot ?s = kernel_boot_calls content boot s"
    using exported_base_path [OF env(1)] assms(1)
    by (intro kernel_boot_calls_path) (simp add: boots_after_timeout_def)
  ultimately show ?thesis using env(2) by simp
qed

end
