(* ===== verification/SampleMain.thy ===== *)
theory SampleMain
  imports SampleUi System InsfileLines UiSelection EndToEnd
begin

section \<open>Sample programs\<close>

text \<open>A locked entry at a terminal, and servers that answer every connection.\<close>

definition locked_config :: cfg_toplevel where
  "locked_config = cfg_init\<lparr>bentry_list := [sample_plain\<lparr>locked := 1\<rparr>], bentry_count := 1,
     password := Some ''pw''\<rparr>"

definition sample_tty :: "string \<Rightarrow> tty" where
  "sample_tty s = \<lparr>tty_in = s, tty_out = [], tty_raw = False, tc_ok = True, tty_usr1 = []\<rparr>"

lemma sample_unlock:
  "map_sum id fst (lm_loop locked_config [] (Inr 1) [] (sample_tty (''1'' @ nl # ''pw'' @ [nl])))
    = Inr (sample_plain\<lparr>locked := 1\<rparr>)"
  by code_simp

lemma locked_wf: "cfg_wf locked_config" "cfg_ints locked_config"
  by (simp_all add: cfg_wf_def cfg_ints_def locked_config_def sample_plain_def sample_bentry_def bentry_wf_def
      cfg_init_def cfg_bentry_init_def cfg_strinit_def bentry_ints_def action_wf_def bentry_zero_def)

definition locked_env :: environ where
  "locked_env = set_vars (env_vars locked_config) (set_var CFG_STARTUP_MSG [] [])"

lemma locked_exported: "exported [] locked_config [] locked_env"
  by (simp add: exported_def locked_env_def cfg_set_env_vars [OF locked_wf(1)] cfg_simps)

lemma locked_message: "cfg_get_env_str CFG_STARTUP_MSG cfg_strinit locked_env = Inr (Some [])"
proof -
  have "okname CFG_STARTUP_MSG" "CFG_STARTUP_MSG \<notin> fst ` set (env_vars locked_config)"
    by code_simp+
  then have "get_var CFG_STARTUP_MSG locked_env = Some []"
    unfolding locked_env_def by (subst get_env_vars_other) (simp_all add: vars.get_set)
  then show ?thesis by (simp add: cfg_simps)
qed

lemma locked_loop:
  "\<exists>buf t. lm_loop locked_config [] (Inr 1) [] (sample_tty (''1'' @ nl # ''pw'' @ [nl]))
    = Inr (sample_plain\<lparr>locked := 1\<rparr>, buf, t)"
  using sample_unlock
  by (cases "lm_loop locked_config [] (Inr 1) [] (sample_tty (''1'' @ nl # ''pw'' @ [nl]))") auto

lemma locked_main:
  "\<exists>t. linemode_main locked_env None (\<lambda>_ _. True) [] (Inr 1) (sample_tty (''1'' @ nl # ''pw'' @ [nl]))
    = Inr (0, cfg_bentry_print (sample_plain\<lparr>locked := 1\<rparr>), t)"
proof -
  have "cfg_get_env cfg_new locked_env = Inr locked_config"
    using exported_is_read [OF locked_wf locked_exported] by (simp add: locked_config_def cfg_init_def)
  with locked_message locked_loop show ?thesis
    by (auto simp: linemode_main_def open_terminal_def)
qed

text \<open>A server whose files have three bytes.\<close>

definition sample_server :: "unit ssh_server" where
  "sample_server = \<lparr>method_set = True, connection = (\<lambda>_ _ _. Some ()), SSH_AUTH_SUCCESS = 0,
     auth_autopubkey = (\<lambda>_. 0), auth_password = (\<lambda>_ _. 0), sftp_new = (\<lambda>_. True),
     sftp_init = (\<lambda>_. True), sftp_open = (\<lambda>_ _. True), sftp_read = (\<lambda>_ _. [(3, ''abc'')]),
     ssh_error = (\<lambda>_. [])\<rparr>"

lemma sample_scp:
  "\<exists>f. scp_main None sample_server [''cl_scp'', ''scp://u@host/file'', ''/boot''] (sys_fs sample_sys)
    = (Done (0, [''public key matched.'', ''SFTP subsystem request successful.'',
        ''SFTP initialization successful.'', ''Destination opened successfully'',
        ''Source opened successfully'', ''Transferred 3 bytes successfully.'']), f)"
proof -
  have "decode_parameters None ''scp://u@host/file'' = Inr (Some \<lparr>ssh_user = ''u'', ssh_pw = None,
      ssh_host = ''host'', ssh_port = ''22'', ssh_path = ''file''\<rparr>)"
    by code_simp
  moreover have "connect_ssh sample_server \<lparr>ssh_user = ''u'', ssh_pw = None,
      ssh_host = ''host'', ssh_port = ''22'', ssh_path = ''file''\<rparr> = Inr (Some (),
      [''public key matched.'', ''SFTP subsystem request successful.'',
       ''SFTP initialization successful.''])"
    by code_simp
  moreover have "printf_d 3 = ''3''" by code_simp
  ultimately show ?thesis
    by (simp add: scp_main_def open_local_def open_remote_def sample_server_def sample_sys_def
        transfer_message_def)
qed

text \<open>Loader modules that deliver an INSFILE with a comment, two components and a blank line.\<close>

definition sample_lines :: "ins_line list" where
  "sample_lines = [Comment ''boot'', Component ''image'' 0, Component ''initrd'' 0x00800000, Blank]"

definition sample_ins_prog :: prog where
  "sample_ins_prog argv f =
     (Exited [(Some [], Some [])] 0,
      f\<lparr>files := (files f)(argv ! 1 \<mapsto>
         (if argv ! 1 = SYSLOAD_FILENAME_INSFILE then concat (map render sample_lines) else ''x''))\<rparr>)"

definition sample_ins_bentry :: cfg_bentry where
  "sample_ins_bentry = sample_plain\<lparr>insfile := Some (sample_uri ''list''), root := Some [], action := INSFILE_BOOT\<rparr>"

lemma sample_lines_ok: "\<forall>l \<in> set sample_lines. ins_line_ok l"
proof -
  have d: "hex_digit 0 = CHR ''0''" "hex_digit 8 = CHR ''8''" by code_simp+
  have "hex 8388608 = ''800000''" "hex 0 = ''0''"
    by (simp_all add: d hex.simps [of 8388608] hex.simps [of 524288] hex.simps [of 32768]
        hex.simps [of 2048] hex.simps [of 128] hex.simps [of 8] hex.simps [of 0])
  then show ?thesis
    by (simp add: sample_lines_def ins_line_ok_def name_ok_def CFG_STR_MAX_LEN_def isspace_def nl_def)
qed

lemma sample_ins_load:
  "\<exists>t. comp_load sample_ins_prog SYSLOAD_FILENAME_INSFILE (sample_uri ''list'') sample_sys
      = (Done (0, None, None), t)
    \<and> file_at t SYSLOAD_FILENAME_INSFILE = Some (concat (map render sample_lines))
    \<and> open_err (sys_fs t) SYSLOAD_FILENAME_INSFILE = None \<and> bad (sys_fs t) SYSLOAD_FILENAME_INSFILE = None"
proof -
  define f where "f = (sys_fs sample_sys)\<lparr>files :=
        (files (sys_fs sample_sys))(SYSLOAD_FILENAME_INSFILE \<mapsto> concat (map render sample_lines))\<rparr>"
  have p: "sample_ins_prog (module_argv sample_sys SYSLOAD_FILENAME_INSFILE (sample_uri ''list'')) (sys_fs sample_sys)
    = (Exited [(Some [], Some [])] 0, f)"
    by (simp add: sample_ins_prog_def module_argv_def f_def del: concat.simps list.map)
  have "comp_load sample_ins_prog SYSLOAD_FILENAME_INSFILE (sample_uri ''list'') sample_sys
      = (Done (0, None, None), sample_sys\<lparr>sys_fs := f,
          sys_trace := sys_trace sample_sys @ [module_argv sample_sys SYSLOAD_FILENAME_INSFILE (sample_uri ''list'')]\<rparr>)"
    by (subst comp_load_Exited [of _ sample_ins_prog _ _ "[(Some [], Some [])]" 0 f])
      (simp_all add: p sample_absolute stream_ends_def stream_text_def stream_pieces_def
        List.map_filter_simps exited_ok_def non_empty_def)
  moreover have "files f SYSLOAD_FILENAME_INSFILE = Some (concat (map render sample_lines))"
    "open_err f SYSLOAD_FILENAME_INSFILE = None" "bad f SYSLOAD_FILENAME_INSFILE = None"
    by (simp_all add: f_def)
  ultimately show ?thesis by (simp add: file_at_def)
qed

subsection \<open>A world in which everything works\<close>

lemma sample_module_works: "module_works sample_prog (\<lambda>_. ''x'')"
  unfolding module_works_def by (auto simp: sample_prog_def stream_ends_def)

lemma sample_kexec_works: "kexec_works sample_prog"
  unfolding kexec_works_def by (auto simp: sample_prog_def kexec_load_argv_def kexec_exec_argv_def)

lemma sample_entry_uri:
  "entry_uri sample_bentry (kernel sample_bentry) = sample_uri ''image''"
  "entry_uri sample_bentry (initrd sample_bentry) = sample_uri ''initrd''"
  "entry_uri sample_bentry (parmfile sample_bentry) = sample_uri ''parmfile''"
  by (simp_all add: entry_uri_def sample_bentry_def sample_relative)

lemma sample_bootable: "bootable (\<lambda>_. ''x'') sample_bentry"
  unfolding bootable_def optional_uri_def sample_entry_uri
  by (simp add: sample_absolute sample_bentry_def SYSLOAD_MAX_KERNEL_CMDLINE_def)

lemma sample_kernel_boot_calls:
  "kernel_boot_calls (\<lambda>_. ''x'') sample_bentry sample_sys =
     [[''/usr/sysload/cl/cl_ftp'', SYSLOAD_FILENAME_KERNEL, sample_uri ''image''],
      [''/usr/sysload/cl/cl_ftp'', SYSLOAD_FILENAME_INITRD, sample_uri ''initrd''],
      [''/usr/sysload/cl/cl_ftp'', SYSLOAD_FILENAME_PARMFILE, sample_uri ''parmfile''],
      [SYSLOAD_KEXEC_CMD, ''-l'', ''--initrd='' @ SYSLOAD_FILENAME_INITRD, ''--command-line=x ro'', SYSLOAD_FILENAME_KERNEL],
      [SYSLOAD_KEXEC_CMD, ''-e'']]"
proof -
  have "module_argv sample_sys dest (sample_uri u) = [''/usr/sysload/cl/cl_ftp'', dest, sample_uri u]" for dest u
    by (simp add: module_argv_def module_path_def base_path_def CFG_DEFAULTPATH_def
        COMP_LOAD_MODULE_PATH_def strchr_def sample_uri_def sample_sys_def)
  moreover have "kernel sample_bentry \<noteq> Some []" "initrd sample_bentry \<noteq> Some []"
    "parmfile sample_bentry \<noteq> Some []" "the (cmdline sample_bentry) = ''ro''"
    by (simp_all add: sample_bentry_def)
  moreover have "SYSLOAD_FILENAME_INITRD \<noteq> []" by (simp add: SYSLOAD_FILENAME_INITRD_def)
  ultimately show ?thesis
    by (simp add: kernel_boot_calls_def optional_call_def sample_entry_uri boot_cmdline_def
        kexec_load_argv_def kexec_exec_argv_def)
qed

end
