(* ===== verification/Frames.thy ===== *)
theory Frames
  imports Loader
begin

section \<open>What a boot may start\<close>

text \<open>
  The operations on the machine as clients of an interface: a relation between the states before
  and after that holds for every single program start and every write into sysfs holds for a whole
  boot, whatever its outcome. Interpreted on the programs each boot action starts, with their
  arguments, and the sysfs attributes it writes.
\<close>

subsection \<open>The interface\<close>

text \<open>
  A relation between the states before and after an operation, whatever its outcome; the first
  argument says whether control has come back.
\<close>

definition finished :: "'a outcome \<Rightarrow> bool" where
  "finished r \<longleftrightarrow> (case r of Done _ \<Rightarrow> True | _ \<Rightarrow> False)"

definition keeps :: "(bool \<Rightarrow> sys \<Rightarrow> sys \<Rightarrow> bool) \<Rightarrow> 'a act \<Rightarrow> bool" where
  "keeps R m \<longleftrightarrow> (\<forall>s. R (finished (fst (m s))) s (snd (m s)))"

lemma finished_simps [simp]:
  "finished (Done x)" "\<not> finished Stopped" "\<not> finished Spin" "\<not> finished (Bad u)"
  by (simp_all add: finished_def)

locale steps =
  fixes R :: "bool \<Rightarrow> sys \<Rightarrow> sys \<Rightarrow> bool"
  assumes refl: "R b s s"
    and trans: "R True s t \<Longrightarrow> R b t u \<Longrightarrow> R b s u"
begin

lemma keeps_simple: "keeps R (aret x)" "keeps R stop" "keeps R spin" "keeps R (bad_act u)" "keeps R (query f)"
  by (simp_all add: keeps_def refl)

lemma keeps_seq:
  assumes "keeps R m" and "\<And>x. keeps R (f x)"
  shows "keeps R (abind m f)"
  unfolding keeps_def
proof
  fix s
  obtain r t where m: "m s = (r, t)" by fastforce
  then have "R (finished r) s t" using assms(1) by (metis keeps_def fst_conv snd_conv)
  then show "R (finished (fst (abind m f s))) s (snd (abind m f s))"
    using m assms(2) trans by (cases r) (auto simp: keeps_def)
qed

lemma keeps_lift: "keeps R (lift_res r)" "keeps R (lift_run q)"
  by (auto simp: keeps_def lift_res_def lift_run_def refl split: sum.split option.split cerr.split)

lemma keeps_case:
  "(b \<Longrightarrow> keeps R m) \<Longrightarrow> (\<not> b \<Longrightarrow> keeps R n) \<Longrightarrow> keeps R (if b then m else n)"
  "keeps R m \<Longrightarrow> (\<And>x. y = Some x \<Longrightarrow> keeps R (f x)) \<Longrightarrow> keeps R (case y of None \<Rightarrow> m | Some x \<Rightarrow> f x)"
  "(\<And>a. z = Inl a \<Longrightarrow> keeps R (g a)) \<Longrightarrow> (\<And>b. z = Inr b \<Longrightarrow> keeps R (h b))
   \<Longrightarrow> keeps R (case z of Inl a \<Rightarrow> g a | Inr b \<Rightarrow> h b)"
  "(\<And>a b. p = (a, b) \<Longrightarrow> keeps R (k a b)) \<Longrightarrow> keeps R (case p of (a, b) \<Rightarrow> k a b)"
  "keeps R m \<Longrightarrow> (\<And>rs st. keeps R (i rs st)) \<Longrightarrow> (\<And>rs. keeps R (j rs)) \<Longrightarrow> keeps R n
   \<Longrightarrow> keeps R (case c of ForkFailed \<Rightarrow> m | Exited rs st \<Rightarrow> i rs st | Lost rs \<Rightarrow> j rs | NoReturn \<Rightarrow> n)"
  by (auto split: option.split sum.split prod.split proc.split)

lemmas keeps_steps = keeps_simple keeps_seq keeps_lift keeps_case

lemma keeps_queries: "keeps R (exists_file p)" "keeps R (stat_size p)" "keeps R (open_file p)" "keeps R (fopen p)"
  by (auto simp: keeps_def exists_file_def stat_size_def open_file_def fopen_def refl)

end

text \<open>
  The programs that \<open>P\<close> allows in an environment may be started, the sysfs attributes that \<open>Q\<close> allows
  written. Files and messages do not matter. How the dispositions of signals change while a command
  runs is left to the laws of \<^verbatim>\<open>systemv\<close> and \<^verbatim>\<open>cfg_system\<close>.
\<close>

definition alike :: "sys \<Rightarrow> sys \<Rightarrow> bool" where
  "alike s t \<longleftrightarrow> sys_env t = sys_env s \<and> sys_sig t = sys_sig s"

locale frame = steps R for R +
  fixes P :: "environ \<Rightarrow> string list \<Rightarrow> bool"
    and Q :: "string \<Rightarrow> bool"
  assumes quiet: "alike s t \<Longrightarrow> sys_trace t = sys_trace s \<Longrightarrow> sys_stores t = sys_stores s \<Longrightarrow> R b s t"
    and starts: "P (sys_env s) argv \<Longrightarrow> alike s t \<Longrightarrow> sys_trace t = sys_trace s @ [argv]
      \<Longrightarrow> sys_stores t = sys_stores s \<Longrightarrow> R b s t"
    and commands: "(\<And>env. P env argv) \<Longrightarrow> keeps R (systemv prog argv)"
    and shells: "(\<And>env. P env [''/bin/sh'', ''-c'', cmd]) \<Longrightarrow> keeps R (cfg_system prog cmd)"
    and stores: "Q path \<Longrightarrow> alike s t \<Longrightarrow> sys_trace t = sys_trace s
      \<Longrightarrow> sys_stores t = sys_stores s @ [(path, data)] \<Longrightarrow> R b s t"
begin

subsection \<open>Files and programs\<close>

lemma keeps_files:
  "keeps R (unlink p)" "keeps R (rename p q)" "keeps R (creat p)" "keeps R (write_file p d)" "keeps R (eprint m)"
  "keeps R (eprint_arg0 m)" "keeps R (unlink_node p)"
  "keeps R (mknod kern p i j)" "keeps R (cfg_glob_filename kern p l)"
  by (auto simp: keeps_def unlink_def rename_def creat_def
      write_file_def eprint_def eprint_arg0_def unlink_node_def mknod_def set_node_def
      cfg_glob_filename_def fs_set_def Let_def alike_def intro!: quiet split: option.split)

lemma keeps_store: "Q path \<Longrightarrow> keeps R (store_attr kern path data)"
  unfolding keeps_def store_attr_def by (auto simp: alike_def intro!: stores [where path = path] split: prod.split)

lemma keeps_echo:
  "(\<And>p. e = Some p \<Longrightarrow> Q p) \<Longrightarrow> keeps R (echo_and_test kern e d test)"
  unfolding echo_and_test_def by (intro keeps_steps keeps_queries keeps_files keeps_store) auto

lemma keeps_read_file: "keeps R (read_file path n)"
  unfolding read_file_def by (intro keeps_steps keeps_queries keeps_files)

lemma keeps_compose: "keeps R (compose_commandline parm cmd)"
  unfolding compose_commandline_def
  by (intro keeps_steps keeps_queries keeps_files) (auto intro: keeps_steps split: option.split sum.split prod.split rd.split)

lemma keeps_identify: "keeps R (identify_file name addr)"
  unfolding identify_file_def Let_def by (intro keeps_steps keeps_queries keeps_files)

lemma keeps_place: "keeps R (place_component name t)"
  unfolding place_component_def by (auto intro: keeps_files split: ins_component_type.split)

lemma keeps_cleanup: "keeps R (insfile_cleanup m)"
  unfolding insfile_cleanup_def by (intro keeps_steps keeps_queries keeps_files)

lemmas keeps_operations = keeps_files keeps_queries keeps_echo keeps_read_file keeps_compose keeps_identify keeps_place
  keeps_cleanup

end

subsection \<open>Booting\<close>

text \<open>Components are loaded below \<^verbatim>\<open>/tmp\<close>.\<close>

locale loading = frame +
  assumes loads: "absolute uri \<Longrightarrow> starts_with dest ''/tmp/''
      \<Longrightarrow> P env [module_path (base_path env) uri, dest, uri]"
begin

lemma keeps_comp_load: "starts_with dest ''/tmp/'' \<Longrightarrow> keeps R (comp_load prog dest uri)"
  unfolding keeps_def
proof
  fix s assume d: "starts_with dest ''/tmp/''"
  show "R (finished (fst (comp_load prog dest uri s))) s (snd (comp_load prog dest uri s))"
  proof (cases "absolute uri")
    case True
    obtain p f where p: "prog (module_argv s dest uri) (sys_fs s) = (p, f)" by fastforce
    let ?t = "s\<lparr>sys_fs := f, sys_trace := sys_trace s @ [module_argv s dest uri]\<rparr>"
    have "snd (comp_load prog dest uri s) = ?t"
      using True p verify_uri_scheme_iff [of uri]
      by (auto simp: comp_load_def cfg_get_defaultpath_base str_arg_def module_argv_def run_prog_eq
          split: proc.split option.split)
    moreover have "R b s ?t" for b
      using loads [OF True d, of "sys_env s"] by (intro starts [of s "module_argv s dest uri"]) (simp_all add: module_argv_def alike_def)
    ultimately show ?thesis by simp
  qed (simp add: comp_load_relative refl)
qed

end

text \<open>A boot may start kexec on the local files too.\<close>

locale booting = loading +
  assumes kexecs: "ird = [] \<or> ird = SYSLOAD_FILENAME_INITRD \<Longrightarrow> P env (kexec_load_argv SYSLOAD_FILENAME_KERNEL ird cmd)"
      "P env kexec_exec_argv"
begin

lemma keeps_kexec:
  "ird = [] \<or> ird = SYSLOAD_FILENAME_INITRD \<Longrightarrow> keeps R (kexec prog SYSLOAD_FILENAME_KERNEL ird cmd)"
  unfolding kexec_def by (intro keeps_steps commands kexecs)

lemma local_tmp: "starts_with SYSLOAD_FILENAME_KERNEL ''/tmp/''" "starts_with SYSLOAD_FILENAME_INITRD ''/tmp/''"
  "starts_with SYSLOAD_FILENAME_PARMFILE ''/tmp/''" "starts_with SYSLOAD_FILENAME_INSFILE ''/tmp/''"
  "starts_with (''/tmp/file_'' @ x) ''/tmp/''"
  by (simp_all add: local_names starts_with_def)

lemma keeps_kernel_boot: "keeps R (action_kernel_boot prog boot)"
  unfolding action_kernel_boot_def kernel_boot_body_def load_optional_def c_strcpy_def Let_def
  by (intro keeps_steps keeps_operations keeps_comp_load keeps_kexec local_tmp) auto

lemma keeps_insfile_loop: "keeps R (insfile_loop prog uri_path ls st n m)"
proof (induction prog uri_path ls st n m rule: insfile_loop.induct)
  case (2 prog uri_path input ls st n m)
  then show ?case
    unfolding insfile_loop.simps Let_def
    by (intro keeps_steps keeps_operations keeps_comp_load local_tmp) auto
qed (simp only: insfile_loop.simps keeps_simple)

lemma keeps_insfile_boot: "keeps R (action_insfile_boot prog boot)"
  unfolding action_insfile_boot_def insfile_components_def insfile_start_def Let_def
  by (intro keeps_steps keeps_operations keeps_comp_load keeps_insfile_loop keeps_kexec local_tmp) auto

end

text \<open>A boot from a boot map sets devices online and offline too.\<close>

locale device_booting = booting +
  assumes attributes: "starts_with path ''/sys/bus/'' \<Longrightarrow> Q path"
begin

lemma sysfs_attribute: "Q (SYS_PATH_DASD @ x)" "Q (SYS_PATH_FCP @ x)" "Q (SYS_PATH_SCSI @ x)"
  by (rule attributes; simp add: SYS_PATH_DASD_def SYS_PATH_FCP_def SYS_PATH_SCSI_def starts_with_def)+

lemma keeps_nodes: "keeps R (read_node_numbers what block)" "keeps R (make_node kern what dev mm)"
  "keeps R (open_disk_node dev)"
  unfolding read_node_numbers_def make_node_def open_disk_node_def
  by (intro keeps_steps keeps_operations; auto intro: keeps_simple split: list.split)+

lemma keeps_write_header: "keeps R (write_header n)"
  by (induction n) (auto simp del: aret_apply intro: keeps_steps keeps_queries keeps_files)

lemma keeps_boot_bootmap_disk: "keeps R (boot_bootmap_disk heap prog boot disk n)"
  unfolding boot_bootmap_disk_def boot_components_def load_boot_objects_def read_kernel_component_def read_initrd_component_def
    read_parmfile_component_def prepare_config_command_line_def writing_failed_def
  by (intro keeps_steps keeps_operations keeps_comp_load keeps_kexec keeps_write_header local_tmp) auto

lemma keeps_dasd: "keeps R (action_bootmap_boot_dasd heap kern prog boot uri)"
  unfolding action_bootmap_boot_dasd_def set_dasd_online_def set_dasd_offline_def Let_def
  by (intro keeps_steps keeps_operations keeps_nodes keeps_boot_bootmap_disk) (auto intro: sysfs_attribute)

lemma keeps_find_scsi: "keeps R (find_scsi_device kern busid wwpn lun)"
proof -
  have "keeps R (find_scsi_loop busid wwpn lun ds)" for ds
    by (induction ds) (auto simp: attr_is_def simp del: aret_apply attr_is_eq intro!: keeps_steps keeps_read_file)
  then show ?thesis unfolding find_scsi_device_def by (intro keeps_steps)
qed

lemma keeps_zfcp: "keeps R (action_bootmap_boot_zfcp heap kern prog boot uri)"
  unfolding action_bootmap_boot_zfcp_def set_fcp_disk_online_def set_fcp_disk_offline_def
    delete_scsi_device_def configure_def Let_def
  by (intro keeps_steps keeps_operations keeps_nodes keeps_find_scsi keeps_boot_bootmap_disk)
    (auto intro: sysfs_attribute)

lemma keeps_bootmap_boot: "keeps R (action_bootmap_boot heap kern prog boot)"
  unfolding action_bootmap_boot_def by (intro keeps_steps keeps_dasd keeps_zfcp)

lemma keeps_loader:
  assumes "\<And>env. P env [SYSLOAD_REBOOT_CMD]" and "\<And>env. P env [SYSLOAD_HALT_CMD]"
    and "\<And>env. P env [''/bin/sh'', ''-c'', SYSLOAD_SHELL_CMD]"
  shows "keeps R (loader heap kern prog boot)"
proof -
  have "keeps R (action_reboot prog)" "keeps R (action_halt prog)" "keeps R (action_shell prog)"
    unfolding action_reboot_def action_halt_def action_shell_def
    by (intro keeps_steps commands shells assms)+
  then show ?thesis
    unfolding loader_def action_exit_def using keeps_kernel_boot keeps_insfile_boot keeps_bootmap_boot
    by (auto intro: keeps_simple split: boot_action.split)
qed

end

subsection \<open>What each action may do\<close>

definition loads_component :: "environ \<Rightarrow> string list \<Rightarrow> bool" where
  "loads_component env argv \<longleftrightarrow> (\<exists>uri dest. absolute uri \<and> starts_with dest ''/tmp/''
     \<and> argv = [module_path (base_path env) uri, dest, uri])"

definition runs_kexec :: "string list \<Rightarrow> bool" where
  "runs_kexec argv \<longleftrightarrow> argv = kexec_exec_argv
     \<or> (\<exists>ird cmd. (ird = [] \<or> ird = SYSLOAD_FILENAME_INITRD) \<and> argv = kexec_load_argv SYSLOAD_FILENAME_KERNEL ird cmd)"

definition boot_program :: "environ \<Rightarrow> string list \<Rightarrow> bool" where
  "boot_program env argv \<longleftrightarrow> loads_component env argv \<or> runs_kexec argv"

fun action_program :: "boot_action \<Rightarrow> environ \<Rightarrow> string list \<Rightarrow> bool" where
  "action_program REBOOT env argv = (argv = [SYSLOAD_REBOOT_CMD])"
| "action_program HALT env argv = (argv = [SYSLOAD_HALT_CMD])"
| "action_program SHELL env argv = (argv = [''/bin/sh'', ''-c'', SYSLOAD_SHELL_CMD])"
| "action_program EXIT env argv = False"
| "action_program (INVALID_ACTION i) env argv = False"
| "action_program _ env argv = boot_program env argv"

fun action_attribute :: "boot_action \<Rightarrow> string \<Rightarrow> bool" where
  "action_attribute BOOTMAP_BOOT path = starts_with path ''/sys/bus/''"
| "action_attribute _ path = False"

text \<open>
  The environment stays as it is; the programs started and the attributes written are added to
  those before.
\<close>

definition extends :: "(environ \<Rightarrow> string list \<Rightarrow> bool) \<Rightarrow> (string \<Rightarrow> bool) \<Rightarrow> sys \<Rightarrow> sys \<Rightarrow> bool" where
  "extends P Q s t \<longleftrightarrow> sys_env t = sys_env s
     \<and> (\<exists>new. sys_trace t = sys_trace s @ new \<and> (\<forall>argv \<in> set new. P (sys_env s) argv))
     \<and> (\<exists>new. sys_stores t = sys_stores s @ new \<and> (\<forall>(path, data) \<in> set new. Q path))"

lemma systemv_alike:
  "sys_env (snd (systemv prog argv s)) = sys_env s" "sys_stores (snd (systemv prog argv s)) = sys_stores s"
proof -
  obtain p f where "prog argv (sys_fs s) = (p, f)" by fastforce
  then show "sys_env (snd (systemv prog argv s)) = sys_env s" "sys_stores (snd (systemv prog argv s)) = sys_stores s"
    by (cases p; simp add: systemv_eq)+
qed

lemma cfg_system_alike:
  "sys_env (snd (cfg_system prog cmd s)) = sys_env s" "sys_stores (snd (cfg_system prog cmd s)) = sys_stores s"
  "sys_trace (snd (cfg_system prog cmd s)) = sys_trace s @ [[''/bin/sh'', ''-c'', cmd]]"
  "finished (fst (cfg_system prog cmd s)) \<Longrightarrow> sys_sig (snd (cfg_system prog cmd s)) = sys_sig s"
proof -
  obtain p f where p: "prog [''/bin/sh'', ''-c'', cmd] (sys_fs s) = (p, f)" by fastforce
  show "sys_env (snd (cfg_system prog cmd s)) = sys_env s" "sys_stores (snd (cfg_system prog cmd s)) = sys_stores s"
    "sys_trace (snd (cfg_system prog cmd s)) = sys_trace s @ [[''/bin/sh'', ''-c'', cmd]]"
    "finished (fst (cfg_system prog cmd s)) \<Longrightarrow> sys_sig (snd (cfg_system prog cmd s)) = sys_sig s"
    using p by (cases "p = NoReturn"; simp add: cfg_system_eq)+
qed

interpretation frames: frame "\<lambda>_. extends P Q" P Q for P Q
proof unfold_locales
  fix s t u :: sys and b :: bool
  assume "extends P Q s t" and "extends P Q t u"
  then obtain a b c d where
    "sys_trace u = sys_trace s @ a @ b" "\<forall>argv \<in> set a. P (sys_env s) argv" "\<forall>argv \<in> set b. P (sys_env s) argv"
    "sys_stores u = sys_stores s @ c @ d" "\<forall>(path, data) \<in> set c. Q path" "\<forall>(path, data) \<in> set d. Q path"
    "sys_env u = sys_env s"
    by (auto simp: extends_def)
  then show "extends P Q s u"
    unfolding extends_def by (intro conjI exI [of _ "a @ b"] exI [of _ "c @ d"]) auto
next
  fix prog argv assume "\<And>env. P env argv"
  then show "keeps (\<lambda>_. extends P Q) (systemv prog argv)"
    by (simp add: keeps_def extends_def systemv_alike systemv_trace)
next
  fix prog cmd assume "\<And>env. P env [''/bin/sh'', ''-c'', cmd]"
  then show "keeps (\<lambda>_. extends P Q) (cfg_system prog cmd)"
    by (simp add: keeps_def extends_def cfg_system_alike)
qed (auto simp: extends_def alike_def)

interpretation inclusions: loading "\<lambda>_. extends loads_component (\<lambda>_. False)" loads_component "\<lambda>_. False"
  by unfold_locales (auto simp: loads_component_def)

interpretation kernels: booting "\<lambda>_. extends boot_program (\<lambda>_. False)" boot_program "\<lambda>_. False"
  by unfold_locales (auto simp: boot_program_def loads_component_def runs_kexec_def)

interpretation disks: device_booting "\<lambda>_. extends boot_program (\<lambda>path. starts_with path ''/sys/bus/'')"
    boot_program "\<lambda>path. starts_with path ''/sys/bus/''"
  by unfold_locales (auto simp: boot_program_def loads_component_def runs_kexec_def)

lemma loader_keeps:
  "keeps (\<lambda>_. extends (action_program (action boot)) (action_attribute (action boot))) (loader heap kern prog boot)"
proof (cases "action boot")
  case KERNEL_BOOT
  moreover have "action_program KERNEL_BOOT = boot_program" "action_attribute KERNEL_BOOT = (\<lambda>_. False)"
    by (simp_all add: fun_eq_iff)
  ultimately show ?thesis using kernels.keeps_kernel_boot by (simp add: loader_def)
next
  case INSFILE_BOOT
  moreover have "action_program INSFILE_BOOT = boot_program" "action_attribute INSFILE_BOOT = (\<lambda>_. False)"
    by (simp_all add: fun_eq_iff)
  ultimately show ?thesis using kernels.keeps_insfile_boot by (simp add: loader_def)
next
  case BOOTMAP_BOOT
  moreover have "action_program BOOTMAP_BOOT = boot_program"
    "action_attribute BOOTMAP_BOOT = (\<lambda>path. starts_with path ''/sys/bus/'')"
    by (simp_all add: fun_eq_iff)
  ultimately show ?thesis using disks.keeps_bootmap_boot by (simp add: loader_def)
next
  case EXIT
  then show ?thesis by (simp add: loader_def action_exit_def frames.keeps_simple)
next
  case (INVALID_ACTION i)
  then show ?thesis by (simp add: loader_def frames.keeps_simple del: aret_apply)
qed (simp add: loader_def action_reboot_def action_halt_def action_shell_def;
    intro frames.keeps_steps frames.commands frames.shells; simp)+

text \<open>The dispositions of the signals, when control comes back.\<close>

lemma finished_systemv:
  "finished (fst (systemv prog argv s)) \<Longrightarrow> sys_sig (snd (systemv prog argv s)) = sys_sig s"
  unfolding finished_def by (cases "systemv prog argv s") (auto dest: systemv_restores split: outcome.splits)

interpretation signals: device_booting "\<lambda>b s t. b \<longrightarrow> sys_sig t = sys_sig s" "\<lambda>_ _. True" "\<lambda>_. True"
  by unfold_locales (auto simp: keeps_def alike_def finished_systemv cfg_system_alike)

lemma loader_restores_signals: "loader heap kern prog boot s = (Done m, t) \<Longrightarrow> sys_sig t = sys_sig s"
  using signals.keeps_loader [of heap kern prog boot] unfolding keeps_def
  by (metis finished_simps(1) fst_conv snd_conv)

end
