(* ===== verification/ParserFrames.thy ===== *)
theory ParserFrames
  imports Frames ParseSysload
begin

section \<open>What executing a configuration may do\<close>

text \<open>
  The statements that set something up are guarded: an instance for one user interface reads the
  configuration without setting anything up again. Executing the statements of a configuration then
  changes nothing of the machine but the messages on the standard error, and a whole parse starts
  nothing but the loader modules for the files it reads. The reductions for \<^verbatim>\<open>kset\<close> and \<^verbatim>\<open>knet\<close>, which
  the grammar accepts instead of a list of statements, are not guarded.
\<close>

definition silent :: "sys \<Rightarrow> sys \<Rightarrow> bool" where
  "silent s t \<longleftrightarrow> t = s\<lparr>sys_stderr := sys_stderr t\<rparr>"

interpretation quietly: steps "\<lambda>_. silent"
proof
  fix s t u :: sys
  show "silent s s" by (simp add: silent_def)
  assume "silent s t" and "silent t u"
  then show "silent s u" unfolding silent_def by (metis sys.surjective sys.update_convs(5))
qed

lemma silent_eprint: "keeps (\<lambda>_. silent) (eprint_arg0 m)"
  by (simp add: keeps_def silent_def eprint_arg0_def)

lemmas silent_steps = quietly.keeps_steps quietly.keeps_queries silent_eprint

lemma silent_sysinfo: "keeps (\<lambda>_. silent) (parser_sysinfo_test entry name)"
  unfolding parser_sysinfo_test_def by (intro silent_steps)

lemma silent_condition: "keeps (\<lambda>_. silent) (eval_systemlist net l)"
proof -
  have "keeps (\<lambda>_. silent) (eval_systemid net i)" for i
    by (cases i) (auto simp: parser_vmguest_test_def parser_lpar_test_def simp del: aret_apply
        intro!: silent_steps silent_sysinfo)
  then show ?thesis by (induction l) (auto simp del: aret_apply intro!: silent_steps)
qed

text \<open>The reductions of a configuration file; the others are those of a kernel argument.\<close>

fun config_reduction :: "reduction \<Rightarrow> bool" where
  "config_reduction (RKernelNetparam p) = False"
| "config_reduction RKernelNet = False"
| "config_reduction (RKsetDasd b) = False"
| "config_reduction (RKsetQeth a b d) = False"
| "config_reduction (RKsetZfcp b w l) = False"
| "config_reduction (RKsetMod v) = False"
| "config_reduction _ = True"

lemma flatten_reductions:
  shows "(\<And>x. list_all config_reduction (f x)) \<Longrightarrow> list_all config_reduction (flatten_block f b)"
    and "(\<And>x. list_all config_reduction (f x)) \<Longrightarrow> list_all config_reduction (flatten_blocks f bs)"
  by (induction f b and f bs rule: flatten_block_flatten_blocks.induct) simp_all

lemma config_reductions_ok: "list_all config_reduction (config_reductions ds)"
proof -
  have "list_all config_reduction (reductions_of d)" for d
    by (cases d) (auto simp: flatten_reductions split: option.split)
  then show ?thesis by (simp add: config_reductions_def flatten_reductions)
qed

text \<open>The guard, when it does not speak of the primary instance.\<close>

lemma silent_when_setup:
  "parser_uimode c \<noteq> Inr None \<Longrightarrow> keeps (\<lambda>_. silent) (when_setup c m)"
  by (cases "parser_uimode c") (auto simp: when_setup_def keeps_def silent_def)

lemma silent_reduction:
  assumes "config_reduction r" and "parser_uimode c \<noteq> Inr None"
  shows "keeps (\<lambda>_. silent) (exec_reduction net prog r c)"
  using assms
  by (cases r) (auto simp: add_ui_def simp del: aret_apply
      intro!: silent_steps silent_when_setup silent_condition)

lemma reduction_uimode:
  assumes "config_reduction r" and "exec_reduction net prog r c s = (Done d, t)"
  shows "parser_uimode d = parser_uimode c"
proof -
  have "pc_args d = pc_args c"
    using assms
    by (cases r) (auto simp: abind_Done_iff add_ui_def Let_def parser_enter_system_def parser_exit_system_def
        split: if_splits option.splits)
  then show ?thesis by (simp add: parser_uimode_def)
qed

lemma silent_reductions:
  assumes "list_all config_reduction rs" and "parser_uimode c \<noteq> Inr None"
  shows "keeps (\<lambda>_. silent) (exec_reductions net prog rs c)"
  using assms
proof (induction rs arbitrary: c)
  case (Cons r rs)
  show ?case
    unfolding keeps_def
  proof
    fix s
    obtain q t where q: "exec_reduction net prog r c s = (q, t)" by fastforce
    have "keeps (\<lambda>_. silent) (exec_reduction net prog r c)"
      using Cons.prems by (intro silent_reduction) simp_all
    then have st: "silent s t" using q unfolding keeps_def by (metis snd_conv)
    show "silent s (snd (exec_reductions net prog (r # rs) c s))"
    proof (cases q)
      case (Done d)
      with q Cons.prems have "keeps (\<lambda>_. silent) (exec_reductions net prog rs d)"
        by (intro Cons.IH) (auto simp: reduction_uimode)
      then have "silent t (snd (exec_reductions net prog rs d t))" by (simp add: keeps_def)
      with quietly.trans [OF st] q Done show ?thesis by simp
    qed (use st q in simp_all)
  qed
qed (simp add: quietly.keeps_simple del: aret_apply exec_reductions.simps)

subsection \<open>Whole parses\<close>

text \<open>
  A scanner and an automaton for texts without the tokens \<^verbatim>\<open>kset\<close> and \<^verbatim>\<open>knet\<close>: all tokens satisfy \<open>A\<close>, and
  with these tokens the automaton stays in the states \<open>Q\<close>, in which it performs the reductions of
  configuration files only.
\<close>

definition plain :: "('t \<Rightarrow> bool) \<Rightarrow> 't lexeme list \<Rightarrow> bool" where
  "plain A ls \<longleftrightarrow> (\<forall>t yytext. Token t yytext \<in> set ls \<longrightarrow> A t)"

lemma plain_simps [simp]:
  "plain A []" "plain A (Token t y # ls) \<longleftrightarrow> A t \<and> plain A ls" "plain A (Newline # ls) \<longleftrightarrow> plain A ls"
  "plain A (Unrecognized y # ls) \<longleftrightarrow> plain A ls" "plain A (IncludeUri uri # ls) \<longleftrightarrow> plain A ls"
  by (auto simp: plain_def)

definition config_grammar :: "('t \<Rightarrow> bool) \<Rightarrow> 'p set \<Rightarrow> ('t, 'p) grammar \<Rightarrow> bool" where
  "config_grammar A Q g \<longleftrightarrow> (\<forall>text. plain A (g_lex g text)) \<and> A (g_unrecognized g) \<and> g_start g \<in> Q
     \<and> (\<forall>p \<in> Q. list_all config_reduction (fst (g_finish g p))
          \<and> (\<forall>t. A t \<longrightarrow> list_all config_reduction (fst (g_step g p t))
                \<and> (\<forall>q. snd (g_step g p t) = Inr q \<longrightarrow> q \<in> Q)))"

lemma config_grammarD:
  assumes "config_grammar A Q g"
  shows "plain A (g_lex g text)" and "A (g_unrecognized g)" and "g_start g \<in> Q"
    and "p \<in> Q \<Longrightarrow> list_all config_reduction (fst (g_finish g p))"
    and "p \<in> Q \<Longrightarrow> A t \<Longrightarrow> list_all config_reduction (fst (g_step g p t))"
    and "p \<in> Q \<Longrightarrow> A t \<Longrightarrow> snd (g_step g p t) = Inr q \<Longrightarrow> q \<in> Q"
  using assms by (simp_all add: config_grammar_def)

text \<open>Operations that start nothing but loader modules and whose result satisfies \<open>G\<close>.\<close>

definition only_loads :: "sys \<Rightarrow> sys \<Rightarrow> bool" where
  "only_loads s t \<longleftrightarrow> extends loads_component (\<lambda>_. False) s t"

lemma only_loads_iff:
  "only_loads s t \<longleftrightarrow> sys_env t = sys_env s \<and> sys_stores t = sys_stores s
     \<and> (\<exists>as. sys_trace t = sys_trace s @ as \<and> (\<forall>a \<in> set as. loads_component (sys_env s) a))"
proof -
  have "(\<exists>new. sys_stores t = sys_stores s @ new \<and> (\<forall>(path, data) \<in> set new. False)) \<longleftrightarrow> sys_stores t = sys_stores s"
    by (metis append_Nil2 case_prodE ball_empty empty_set list.set_intros(1) neq_Nil_conv surj_pair case_prod_conv)
  then show ?thesis unfolding only_loads_def extends_def by blast
qed

definition secondary :: "parser_context \<Rightarrow> bool" where
  "secondary c \<longleftrightarrow> parser_uimode c \<noteq> Inr None"

definition guarded :: "('a \<Rightarrow> bool) \<Rightarrow> 'a act \<Rightarrow> bool" where
  "guarded G m \<longleftrightarrow> keeps (\<lambda>_. only_loads) m \<and> (\<forall>s x t. m s = (Done x, t) \<longrightarrow> G x)"

interpretation loadings: loading "\<lambda>_. only_loads" loads_component "\<lambda>_. False"
  unfolding only_loads_def [abs_def] by (rule inclusions.loading_axioms)

lemma silent_only_loads: "keeps (\<lambda>_. silent) m \<Longrightarrow> keeps (\<lambda>_. only_loads) m"
proof -
  have "only_loads s t" if st: "silent s t" for s t
  proof -
    obtain e where "t = s\<lparr>sys_stderr := e\<rparr>" using st unfolding silent_def by blast
    then show ?thesis by (simp add: only_loads_def extends_def)
  qed
  then show "keeps (\<lambda>_. silent) m \<Longrightarrow> keeps (\<lambda>_. only_loads) m" by (simp add: keeps_def)
qed

lemma guarded_seq:
  assumes "guarded G m" and "\<And>x. G x \<Longrightarrow> guarded H (f x)"
  shows "guarded H (abind m f)"
proof -
  have "only_loads s (snd (abind m f s)) \<and> (\<forall>x t. abind m f s = (Done x, t) \<longrightarrow> H x)" for s
  proof -
    obtain r t where m: "m s = (r, t)" by fastforce
    then have l: "only_loads s t" using assms(1) unfolding guarded_def keeps_def by (metis snd_conv)
    show ?thesis
    proof (cases r)
      case (Done x)
      then have "guarded H (f x)" using assms m by (auto simp: guarded_def)
      then have "only_loads t (snd (f x t))" "\<forall>y u. f x t = (Done y, u) \<longrightarrow> H y"
        by (auto simp: guarded_def keeps_def)
      with l m Done loadings.trans [of s t] show ?thesis by simp
    qed (use l m in simp_all)
  qed
  then show ?thesis unfolding guarded_def keeps_def by blast
qed

lemma guarded_pair:
  assumes "guarded (\<lambda>(x, c). G c) m" and "\<And>x c. G c \<Longrightarrow> guarded H (f x c)"
  shows "guarded H (abind m (\<lambda>(x, c). f x c))"
  by (rule guarded_seq [OF assms(1)]) (auto intro: assms(2))

lemma guarded_triple:
  assumes "guarded (\<lambda>(x, y, c). G c) m" and "\<And>x y c. G c \<Longrightarrow> guarded H (f x y c)"
  shows "guarded H (abind m (\<lambda>(x, y, c). f x y c))"
  by (rule guarded_seq [OF assms(1)]) (use assms(2) in auto)

lemma guarded_keeps: "keeps (\<lambda>_. only_loads) m \<Longrightarrow> guarded (\<lambda>_. True) m"
  by (simp add: guarded_def)

lemma guarded_aret: "G x \<Longrightarrow> guarded G (aret x)"
  by (simp add: guarded_def loadings.keeps_simple del: aret_apply) (simp add: aret_apply)

lemma guarded_bad: "guarded G (bad_act u)"
proof -
  have "bad_act u s \<noteq> (Done x, t)" for s t and x :: 'a by (simp add: bad_act_def)
  then show ?thesis using loadings.keeps_simple(4) unfolding guarded_def by blast
qed

lemma guarded_from: "keeps (\<lambda>_. only_loads) m \<Longrightarrow> (\<And>x. guarded H (f x)) \<Longrightarrow> guarded H (abind m f)"
  by (rule guarded_seq [OF guarded_keeps]) auto

lemma guarded_mono: "guarded G m \<Longrightarrow> (\<And>x. G x \<Longrightarrow> H x) \<Longrightarrow> guarded H m"
  unfolding guarded_def by blast

lemma guarded_reductions:
  "list_all config_reduction rs \<Longrightarrow> secondary c \<Longrightarrow> guarded secondary (exec_reductions net prog rs c)"
proof (induction rs arbitrary: c)
  case (Cons r rs)
  have "guarded secondary (exec_reduction net prog r c)"
    using Cons.prems silent_only_loads [OF silent_reduction [of r c net prog]] reduction_uimode [of r net prog c]
    by (auto simp: guarded_def secondary_def)
  with Cons show ?case unfolding exec_reductions.simps by (intro guarded_seq [where G = secondary]) auto
qed (simp add: guarded_aret del: aret_apply)

lemma loads_eprint: "keeps (\<lambda>_. only_loads) (eprint m)"
  by (rule loadings.keeps_files)

lemma guarded_feed:
  assumes "list_all config_reduction (fst r)" and "secondary c" and r: "\<And>p. snd r = Inr p \<Longrightarrow> G p"
  shows "guarded (\<lambda>(q, c). secondary c \<and> pred_option G q) (feed net prog r yytext lineno c)"
  unfolding feed_def
proof (rule guarded_seq [OF guarded_reductions [OF assms(1,2)]])
  fix d assume d: "secondary d"
  have "guarded secondary (yyerror msg yytext lineno d)" for msg
  proof -
    have "secondary (parser_set_errmsg d m)" for m
      using d by (simp add: secondary_def parser_uimode_def parser_set_errmsg_def)
    then show ?thesis
      unfolding yyerror_def Let_def by (auto intro: guarded_bad guarded_from loads_eprint guarded_aret)
  qed
  then show "guarded (\<lambda>(q, c). secondary c \<and> pred_option G q) (case snd r of
      Inl msg \<Rightarrow> abind (yyerror msg yytext lineno d) (\<lambda>c. aret (None, c)) | Inr p \<Rightarrow> aret (Some p, d))"
  proof (cases "snd r")
    case (Inl msg)
    from \<open>\<And>msg. guarded secondary (yyerror msg yytext lineno d)\<close> show ?thesis
      unfolding Inl sum.case by (rule guarded_seq) (rule guarded_aret, simp)
  next
    case (Inr p)
    with d r show ?thesis by (simp add: guarded_aret del: aret_apply)
  qed
qed

lemma loads_open_incl: "keeps (\<lambda>_. only_loads) (open_incl_uri prog uri (URI_TEMP_FILENAME n))"
proof -
  have "starts_with (URI_TEMP_FILENAME n) ''/tmp/''" by (simp add: URI_TEMP_FILENAME_def starts_with_def)
  then show ?thesis
    unfolding open_incl_uri_def
    by (intro loadings.keeps_steps loadings.keeps_comp_load loadings.keeps_queries loadings.keeps_files) auto
qed

lemma guarded_option:
  assumes "guarded (\<lambda>(q, c). secondary c \<and> pred_option G q) m"
    and "\<And>c. secondary c \<Longrightarrow> guarded H (f c)"
    and "\<And>q c. secondary c \<Longrightarrow> G q \<Longrightarrow> guarded H (h q c)"
  shows "guarded H (abind m (\<lambda>(q, c). case q of None \<Rightarrow> f c | Some q \<Rightarrow> h q c))"
  by (rule guarded_seq [OF assms(1)]) (use assms(2,3) in \<open>auto split: option.split\<close>)

abbreviation parsing :: "'p set \<Rightarrow> 'a + 'p \<Rightarrow> nat \<Rightarrow> parser_context \<Rightarrow> bool" where
  "parsing Q r l c \<equiv> secondary c \<and> (case r of Inl saved \<Rightarrow> True | Inr q \<Rightarrow> q \<in> Q)"

lemma guarded_lexemes:
  "config_grammar A Q g \<Longrightarrow> p \<in> Q \<Longrightarrow> plain A ls \<Longrightarrow> secondary c \<Longrightarrow>
   guarded (\<lambda>(r, l, c). parsing Q r l c) (run_lexemes g net prog depth p lineno ls c)"
proof (induction g net prog depth p lineno ls c rule: run_lexemes.induct)
  case (1 g net prog depth p lineno c)
  then show ?case by (simp add: guarded_aret del: aret_apply)
next
  case (3 g net prog depth p lineno t yytext ls c)
  have "guarded (\<lambda>(q, c). secondary c \<and> pred_option (\<lambda>q. q \<in> Q) q) (feed net prog (g_step g p t) yytext lineno c)"
    using 3(3-5) config_grammarD(5,6) [OF 3(2)] by (intro guarded_feed) auto
  then show ?case
    unfolding run_lexemes.simps
    by (rule guarded_option) (use 3 in \<open>auto simp del: aret_apply intro: guarded_aret\<close>)
next
  case (4 g net prog depth p lineno yytext ls c)
  have "guarded (\<lambda>(q, c). secondary c \<and> pred_option (\<lambda>q. q \<in> Q) q)
      (feed net prog (g_step g p (g_unrecognized g)) yytext lineno c)"
    using 4(3-5) config_grammarD(2,5,6) [OF 4(2)] by (intro guarded_feed) auto
  then have "guarded (\<lambda>(r, l, c). parsing Q r l c)
      (abind (feed net prog (g_step g p (g_unrecognized g)) yytext lineno c) (\<lambda>(q, c).
       case q of None \<Rightarrow> aret (Inl [], lineno, c) | Some q \<Rightarrow> run_lexemes g net prog depth q lineno ls c))"
    by (rule guarded_option) (use 4 in \<open>auto simp del: aret_apply intro: guarded_aret\<close>)
  then show ?case unfolding run_lexemes.simps by (rule guarded_from [OF loads_eprint])
next
  case (5 g net prog depth p lineno uri ls c)
  have ls: "plain A ls" using 5 by simp
  show ?case
  proof (cases "MAX_INCL_DEPTH \<le> depth \<or> parser_active_system c \<noteq> PA_ACTIVE")
    case True
    then show ?thesis using 5 by auto
  next
    case False
    have "guarded (\<lambda>(r, l, c). parsing Q r l c) (case f of
          None \<Rightarrow> run_lexemes g net prog depth p lineno ls c
        | Some content \<Rightarrow>
            abind (run_lexemes g net prog (Suc depth) p 1 (g_lex g content) c) (\<lambda>(r, l, c).
              case r of
                Inl saved \<Rightarrow> aret (Inl (saved @ [(ls, lineno)]), l, c)
              | Inr q \<Rightarrow> run_lexemes g net prog depth q lineno ls c))" for f
    proof (cases f)
      case None
      then show ?thesis using 5 False by simp
    next
      case (Some content)
      then have "guarded (\<lambda>(r, l, c). parsing Q r l c) (run_lexemes g net prog (Suc depth) p 1 (g_lex g content) c)"
        using 5 False config_grammarD(1) [OF 5(6)] by auto
      then have "guarded (\<lambda>(r, l, c). parsing Q r l c)
          (abind (run_lexemes g net prog (Suc depth) p 1 (g_lex g content) c) (\<lambda>(r, l, c).
              case r of
                Inl saved \<Rightarrow> aret (Inl (saved @ [(ls, lineno)]), l, c)
              | Inr q \<Rightarrow> run_lexemes g net prog depth q lineno ls c))"
        by (rule guarded_seq) (use 5 False Some ls in \<open>auto simp del: aret_apply intro!: guarded_aret split: sum.split\<close>)
      with Some show ?thesis by simp
    qed
    note rest = this
    show ?thesis
      using False unfolding run_lexemes.simps de_Morgan_disj
      by (elim conjE, simp only: if_False) (rule guarded_from [OF loads_open_incl rest])
  qed
qed simp

lemma guarded_saved:
  assumes g: "config_grammar A Q g"
  shows "(case r of (q, l, c) \<Rightarrow> parsing Q q l c) \<Longrightarrow> \<forall>(ls, n) \<in> set stack. plain A ls \<Longrightarrow>
    guarded (\<lambda>(ok, sc, c). secondary c) (run_saved g net prog stack r)"
proof (induction stack arbitrary: r)
  case Nil
  obtain q l c where r: "r = (q, l, c)" by (cases r)
  show ?case
  proof (cases q)
    case (Inl saved)
    with r Nil show ?thesis by (simp add: guarded_aret del: aret_apply)
  next
    case (Inr p)
    then have "list_all config_reduction (fst (g_finish g p))" using Nil r config_grammarD(4) [OF g] by simp
    then have "guarded (\<lambda>(q, c). secondary c \<and> pred_option (\<lambda>_. True) q)
        (feed net prog (case g_finish g p of (rs, None) \<Rightarrow> (rs, Inr ())
         | (rs, Some msg) \<Rightarrow> (rs, Inl msg)) [] l c)"
      using Nil r by (intro guarded_feed) (auto split: prod.split option.split)
    then show ?thesis
      unfolding r Inr run_saved.simps by (rule guarded_seq) (auto simp del: aret_apply intro!: guarded_aret)
  qed
next
  case (Cons e stack)
  obtain q l c where r: "r = (q, l, c)" by (cases r)
  obtain ls n where e: "e = (ls, n)" by (cases e)
  show ?case
  proof (cases q)
    case (Inl saved)
    with r Cons.prems show ?thesis by (simp add: guarded_aret del: aret_apply)
  next
    case (Inr p)
    have "guarded (\<lambda>(r, l, c). parsing Q r l c) (run_lexemes g net prog (length stack) p n ls c)"
      using Cons.prems r e Inr by (intro guarded_lexemes [OF g]) simp_all
    then show ?thesis
      unfolding r e Inr run_saved.simps by (rule guarded_seq) (use Cons.prems(2) in \<open>auto intro: Cons.IH\<close>)
  qed
qed

definition plain_stack :: "('t \<Rightarrow> bool) \<Rightarrow> 't scan_state \<Rightarrow> bool" where
  "plain_stack A sc \<longleftrightarrow> (\<forall>(ls, n) \<in> set (fst sc). plain A ls)"

lemma guarded_yyparse:
  assumes "config_grammar A Q g" and "plain_stack A sc" and "secondary c"
  shows "guarded (\<lambda>(ok, sc, c). secondary c) (yyparse g net prog text sc c)"
proof -
  note g = config_grammarD [OF assms(1)]
  show ?thesis
    unfolding yyparse_def
    by (rule guarded_seq [OF guarded_lexemes [OF assms(1) g(3,1) assms(3)]])
      (use assms(2) in \<open>auto simp: plain_stack_def intro: guarded_saved [OF assms(1)]\<close>)
qed

text \<open>
  The two parses that are not those of the primary instance: the configuration file, read for one
  user interface, and the text that a user interface has sent.
\<close>

lemma parse_sysload_only_loads:
  assumes g: "config_grammar A Q g" "plain_stack A sc" and u: "only_ui args = Some u" "u \<noteq> []"
  shows "only_loads s (snd (parse_sysload g net prog sc args s))"
proof -
  have secondary: "secondary c" if "pc_args c = Some args" for c
    using that u by (simp add: secondary_def parser_uimode_def)
  have op: "guarded (\<lambda>(ok, c). secondary c) (parser_open_incl_uri prog uri (parser_init\<lparr>pc_args := Some args\<rparr>))"
    for uri
  proof -
    have "starts_with (URI_TEMP_FILENAME 999) ''/tmp/''" by (simp add: URI_TEMP_FILENAME_def starts_with_def)
    then show ?thesis
      unfolding parser_open_incl_uri_def Let_def
      by (intro guarded_from loadings.keeps_comp_load loadings.keeps_queries)
        (auto simp: parser_set_errmsg_def simp del: aret_apply
          intro!: guarded_from loadings.keeps_queries guarded_aret secondary split: sum.split)
  qed
  have "guarded (\<lambda>_. True) (parse_sysload g net prog sc args)"
  proof (cases "config_uri args")
    case None
    then show ?thesis by (simp add: parse_sysload_def guarded_bad)
  next
    case (Some uri)
    have gl: "guarded (\<lambda>(ok, sc, c). secondary c) (parse_global g net prog sc cfg_init c)" if "secondary c" for c
    proof -
      have "secondary (c\<lparr>toplevel := cfg_init\<rparr>)" using that by (simp add: secondary_def parser_uimode_def)
      then show ?thesis unfolding parse_global_def using g by (auto intro: guarded_bad guarded_yyparse split: option.split)
    qed
    have "guarded (\<lambda>_. True) (if \<not> ok
        then aret (Some (''Error parsing config URI '' @ in_quotes (str_arg (pc_uri c)) @ '': ''
               @ str_arg (pc_errmsg c)), sc', toplevel c)
        else case pc_default c of None \<Rightarrow> bad_act NullDeref
        | Some d \<Rightarrow> abind (lift_res (resolve_default d (toplevel c))) (\<lambda>r.
          case r of Inl m \<Rightarrow> aret (Some m, sc', toplevel c) | Inr config \<Rightarrow> aret (None, sc', config)))" for ok sc' c
      by (rule guarded_keeps) (auto simp del: aret_apply intro!: loadings.keeps_steps split: sum.split option.split)
    note rest = guarded_triple [OF gl this]
    show ?thesis
      unfolding parse_sysload_def Let_def Some option.case
      by (rule guarded_pair [OF op]) (auto simp del: aret_apply intro!: guarded_aret rest)
  qed
  then show ?thesis by (simp add: guarded_def keeps_def)
qed

lemma parse_boot_entry_only_loads:
  assumes "config_grammar A Q g" and "plain_stack A sc"
  shows "only_loads s (snd (parse_sysload_boot_entry g net prog sc str s))"
proof -
  have "secondary (parser_init\<lparr>toplevel := cfg_new\<rparr>)"
    by (simp add: secondary_def parser_uimode_def parser_init_def)
  from guarded_yyparse [OF assms this] have "guarded (\<lambda>_. True) (parse_sysload_boot_entry g net prog sc str)"
    unfolding parse_sysload_boot_entry_def
    by (rule guarded_seq) (intro guarded_keeps, auto simp del: aret_apply intro!: loadings.keeps_steps split: list.split)
  then show ?thesis by (simp add: guarded_def keeps_def)
qed

text \<open>The statements of a kernel argument set a device up for every instance and every text.\<close>

lemma kset_is_not_guarded:
  assumes "exits prog"
  shows "\<exists>t. exec_reductions net prog [RKsetDasd b] c s = (Done c, t)
    \<and> sys_trace t = sys_trace s @ [sh_argv (base_path (sys_env s) @ setup_command ''dasd'' b)]"
proof -
  obtain st t where t: "cfg_system prog (base_path (sys_env s) @ setup_command ''dasd'' b) s = (Done st, t)"
    "sys_trace t = sys_trace s @ [sh_argv (base_path (sys_env s) @ setup_command ''dasd'' b)]"
    using cfg_system_exits [OF assms] by blast
  then have "exec_reduction net prog (RKsetDasd b) c s = (Done c, t)"
    by (simp add: parser_setup_dasd_def run_setup_def cfg_get_defaultpath_base str_arg_def aret_apply)
  with t(2) show ?thesis by (simp add: aret_apply)
qed

end
