(* ===== verification/Spec2Isabelle.thy ===== *)
theory Spec2Isabelle
  imports SampleDevices SampleFcp SampleMain Debug ParserFrames
begin

section \<open>The properties of the program\<close>

text \<open>
  System Loader (\<^verbatim>\<open>sysload\<close>) is the boot loader of Linux on System z that runs from a RAM disk. Its main
  program reads a configuration, starts user interfaces as child processes, waits until one of
  them or a timeout selects a boot entry, and boots the entry: a kernel, the components of an
  INSFILE, or what a boot map on a DASD or SCSI disk describes. This development models the C
  program (\<^verbatim>\<open>src/core\<close> and \<^verbatim>\<open>src/comploader/cl_scp.c\<close>) with the grammar and the scanner rules of its
  configuration language; this theory collects the properties, each as one theorem with an
  instance at a concrete input.

  \<^bold>\<open>Conventions.\<close> A pointer to a string is a \<^typ>\<open>string option\<close>; a machine integer is an \<^typ>\<open>int\<close> whose
  range is tested where it is computed (\<^const>\<open>c_int\<close>), or a word where its bits matter. Undefined
  behaviour of C is a value: \<open>Inl\<close> of a reason in the type \<open>c_res\<close>, \<open>Bad\<close> for operations on the
  machine. An operation on the machine has type \<open>'a act\<close>: a function from the state \<^typ>\<open>sys\<close> (files,
  device nodes, environment, signal dispositions, programs started, writes into sysfs) to an
  outcome (\<open>Done\<close>, \<open>Stopped\<close> when control does not come back, \<open>Spin\<close> when it loops or blocks for
  ever, \<open>Bad\<close>) and the next state. Functions that return a message or NULL return \<open>Some\<close> or None,
  or a sum. \<^verbatim>\<open>malloc\<close> does not fail where the source ends the program in that case, and \<^verbatim>\<open>unlink\<close>, whose
  result the source ignores, removes an existing file.

  \<^bold>\<open>Theories and what they model.\<close>
  \<^item> Prelude, CLib: results, lists and the functions of \<^verbatim>\<open>ctype.h\<close>, \<^verbatim>\<open>string.h\<close>, \<^verbatim>\<open>printf\<close> and \<^verbatim>\<open>sscanf\<close>.
  \<^item> Config, Environment: the structures of \<^verbatim>\<open>config.c\<close> with init, copy, add and destroy; the export
    of a configuration to environment variables and its import by a user interface (round trip,
    over the locale \<open>var_store\<close>; arrays that grow are the locale \<open>growable\<close>).
  \<^item> ByteIO, Blockptr, Disk, BootTables, Bootmap: the read loops, packed block pointers, opening a
    disk, the tables of a boot map and the copy of a component as the chain of its segments
    (\<^verbatim>\<open>bootmap_common.c\<close>). The conversion of the component table writes behind its heap block on every
    supported disk, so \<^const>\<open>boot_bootmap_disk\<close> ends in undefined behaviour there; what the rest of the
    function does with a converted table is \<^const>\<open>boot_components\<close>. The loop over segments ends because a pointer budget falls; the read loops
    are partial functions whose None is a loop that never ends.
  \<^item> Machine, Uri, CompLoad, Kexec, Loader, Insfile, BootDevices, BootActions: the state, URIs, the
    component loader (\<^verbatim>\<open>comp_load.c\<close>), \<^verbatim>\<open>kexec\<close> and the boot actions (\<^verbatim>\<open>loader.c\<close>), INSFILEs
    (\<^verbatim>\<open>insfile.c\<close>; InsfileLines: the lines of an INSFILE and what they mean), DASD and FCP devices (\<^verbatim>\<open>bootmap_dasd.c\<close>, \<^verbatim>\<open>bootmap_fcp.c\<close>).
  \<^item> Netbase, Parser, Sections, ParserLaws, ParseSysload: modules and network (\<^verbatim>\<open>modbase.c\<close>,
    \<^verbatim>\<open>netbase.c\<close>, \<^verbatim>\<open>dhcp_request.c\<close>), the actions of the grammar, conditions and sections, include
    files, the default entry, the command lines (\<^verbatim>\<open>parser.c\<close>, \<^verbatim>\<open>parser_sysload.c\<close>, \<^verbatim>\<open>sysload.conf.y\<close>,
    \<^verbatim>\<open>sysload.conf.l\<close>). FCP URIs have a grammar of their own (\<^const>\<open>zfcp_form\<close>), the hardware addresses that
    the loop over the interfaces reaches are \<^const>\<open>has_address\<close>. A configuration is also a tree of statements, and executing the reductions of
    a tree is proved equal to a structural evaluation of it.
  \<^item> UiControl, UiSelection, Debug, Sysload: the user interfaces as clients (\<^verbatim>\<open>ui_control.c\<close>) and
    what a client has said when its output is parsed (\<^const>\<open>said\<close>), debug output
    (\<^verbatim>\<open>debug.c\<close>), the main program and \<^verbatim>\<open>halt.c\<close>.
  \<^item> Frames, ParserFrames: the interface of the machine to its clients as the locales \<open>steps\<close>,
    \<open>frame\<close>, \<open>loading\<close>, \<open>booting\<close> and \<open>device_booting\<close>, whose relation between the states also says whether control
    came back; what each boot action may start and write, that a boot which comes back has restored
    the signals, and that a parse which is not that of the primary instance starts loader modules only; for
    texts without \<^verbatim>\<open>kset\<close> and \<^verbatim>\<open>knet\<close> (\<^const>\<open>config_grammar\<close>), which have no such guard.
  \<^item> FcpCleanup: which SCSI device the search finds, and in which order a boot from it is undone.
    EndToEnd: the main program from the timeout to the new kernel, in a world in which the modules
    deliver what the URIs denote and kexec works (\<open>module_works\<close>, \<open>kexec_works\<close>).
  \<^item> Linemode, Ssh, Scp: the programs \<^verbatim>\<open>ui_linemode.c\<close>, \<^verbatim>\<open>ui_ssh.c\<close> and \<^verbatim>\<open>cl_scp.c\<close>; System: what holds
    across the programs.
  \<^item> Samples, SampleDevices, SampleFcp, SampleConfig, SampleUi, SampleMain: concrete disks, machines,
    configurations, clients and servers on which the properties are instantiated.

  \<^bold>\<open>What the lemmas show.\<close> Every group ends in the facts the properties rest on: the invariant
  \<open>cfg_wf\<close> kept by all operations on configurations, the round trips of environment, numbers, URIs
  and URLs, what a boot starts and which files it removes, that only what one user interface has
  written or the default entry is booted, that a locked entry needs its password, and, where the
  code does not do what it means to, what it does instead.

  \<^bold>\<open>Parameters.\<close> Programs the code starts (\<open>prog\<close>), the reactions of the kernel to writes into sysfs
  (\<open>kern\<close>), to \<^verbatim>\<open>fork\<close>, \<^verbatim>\<open>select\<close> and \<^verbatim>\<open>waitpid\<close> (\<open>ui_kernel\<close>), the network interfaces (\<open>netifs\<close>), the
  pattern matching of flex and the automaton of bison (\<open>grammar\<close>), the ssh library (\<open>ssh_server\<close>), and
  the memory behind a buffer that is read too far (\<open>heap\<close>).

  \<^bold>\<open>Bounds.\<close> Loops over what a parameter supplies recurse over a list of it (the turns of the select
  loop, the rounds of the main loop, the answers of a server); when it is used up the program
  waits for ever, which is the outcome \<open>Spin\<close>. The menu loop needs no bound: every round reads input
  or, at its end, shortens the buffer. All other loops end by a measure.

  \<^bold>\<open>Not modelled.\<close> The shell and Perl scripts (loader modules other than scp, setup modules,
  administration), the code generated by flex and bison, messages to \<^verbatim>\<open>syslog\<close> other than those of
  \<^verbatim>\<open>ui_control.c\<close> and \<^verbatim>\<open>cl_scp.c\<close>, the messages of \<^verbatim>\<open>nb_test_mac\<close> to the standard output, what \<^verbatim>\<open>tcsetattr\<close>
  discards of the input, start conditions of the scanner that outlive a text, percent signs in text that is used as a format, leaks of memory
  and descriptors, and the point of the menu loop at which a signal arrives.
\<close>

text \<open>
  C1: What \<^verbatim>\<open>boot_bootmap_disk\<close> does from a converted component table on (the conversion itself writes
  behind its memory, which is a property of its own): when the boot objects can be
  identified and hold a kernel, an initrd and a parameter file, it is exactly a call of
  \<^verbatim>\<open>kexec\<close>: the local kernel file holds 64 KiB of zeros followed by the kernel segments of the
  boot map, the local initrd file the first \<^verbatim>\<open>initrd_len\<close> bytes of the initrd segments, and the
  command line is the parameter file of the boot map, a space, and what the configuration adds.
  Without an initrd the call has none.
\<close>

theorem boot_components_are_delivered:
  assumes "identify_boot_objects disk ct = ret (None, bo)"
    and "holds disk bo krn ird parm"
    and "writable s SYSLOAD_FILENAME_KERNEL (KERNEL_HEADER_SIZE + length krn)"
    and "case ird of None \<Rightarrow> True | Some d \<Rightarrow> writable s SYSLOAD_FILENAME_INITRD (length d)"
    and "prepare_config_command_line prog boot (with_objects krn ird s) = (Done (Inr extra), t)"
  shows "boot_components prog boot disk ct component_header_ipl s =
    kexec prog SYSLOAD_FILENAME_KERNEL (if ird = None then [] else SYSLOAD_FILENAME_INITRD)
      ((case parm of None \<Rightarrow> [] | Some p \<Rightarrow> p) @ '' '' @ extra) t"
  by (rule boot_components_ok) (fact assms)+

theorem boot_components_are_delivered_witness:
  "boot_components sample_prog sample_plain sample_disk (sample_components (\<lambda>_. 0)) component_header_ipl sample_sys =
     kexec sample_prog SYSLOAD_FILENAME_KERNEL [] '' ro''
       (with_objects (block [202, 254]) None sample_sys)"
proof -
  have "writable sample_sys SYSLOAD_FILENAME_KERNEL (KERNEL_HEADER_SIZE + length (block [202, 254]))"
    by (simp add: writable_def sample_sys_def KERNEL_HEADER_SIZE_def length_block)
  moreover have "prepare_config_command_line sample_prog sample_plain
      (with_objects (block [202, 254]) None sample_sys)
     = (Done (Inr ''ro''), with_objects (block [202, 254]) None sample_sys)"
    by (simp add: prepare_config_command_line_def sample_plain_def sample_bentry_def)
  ultimately show ?thesis
    using boot_components_are_delivered [OF sample_identify sample_holds, of sample_sys sample_prog sample_plain "''ro''"
        "with_objects (block [202, 254]) None sample_sys" "\<lambda>_. 0"] by simp
qed

text \<open>
  C2: The loop over segment tables implements its specification: for a component whose
  chain of segment tables stores the code segments \<open>ps\<close> (null entry ends a table, the last entry
  of a full table links to the next one), \<^verbatim>\<open>copy_component_to_memory\<close> returns, and what it
  returns is the concatenation of the contents of \<open>ps\<close>.
\<close>

theorem component_is_chain_of_segments:
  assumes "stores disk p ps" and "ps \<noteq> []" and "disk_good disk"
    and "\<forall>r \<in> set ps. readable disk r"
    and "length (segment_bytes disk ps) < 2147483648"
  shows "copy_component_to_memory disk p = ret (segment_bytes disk ps)"
  by (rule copy_component_stores) (fact assms)+

theorem component_is_chain_of_segments_witness:
  "copy_component_to_memory sample_disk (mk_linear 3 512 0)
    = ret (segment_bytes sample_disk [mk_linear 5 512 0])"
proof -
  have "stores sample_disk (mk_linear 3 512 0) [mk_linear 5 512 0]"
    by (rule sample_stores) (simp_all add: sample_blocks_def)
  moreover have "length (ptr_content sample_disk (mk_linear 5 512 0)) = 512"
    using sample_content [of 5] by (simp add: sample_blocks_def length_block)
  ultimately show ?thesis
    using sample_readable [of 5] sample_good
    by (intro component_is_chain_of_segments) simp_all
qed

text \<open>
  C3: A valid block pointer whose blocks lie on the device is read completely: the result is
  exactly the addressed bytes, for both pointer layouts and however the kernel splits the
  transfer; the arithmetic on block numbers stays inside \<^verbatim>\<open>int\<close>.
\<close>

theorem blocks_are_read_completely:
  assumes "disk_ok disk" and "check_blockptr disk p = 0" and "ptr_ok disk p"
    and "fd_good (disk_fd disk)"
    and "(ptr_block disk p + ptr_count disk p) * nat (phy_block_size disk)
      \<le> length (fd_data (disk_fd disk))"
  shows "disk_read_phy_blocks disk p = ret (ptr_content disk p)"
  by (rule disk_read_delivers) (fact assms)+

theorem blocks_are_read_completely_witness:
  "disk_read_phy_blocks sample_disk (mk_linear 4 512 0)
    = ret (ptr_content sample_disk (mk_linear 4 512 0))"
  using sample_good sample_readable [of 4]
  by (intro blocks_are_read_completely) (simp_all add: disk_good_def readable_def)

text \<open>
  C4: When the program table is valid, the chosen program has an entry and the block it points to is a
  component table, \<^verbatim>\<open>boot_bootmap_disk\<close> writes behind the memory it has allocated for the converted
  table: 40 bytes for every entry into 24 bytes for every entry, on every supported disk,
  whatever the entries hold and before any of them is used.
\<close>

theorem boot_map_boot_overruns_the_heap:
  assumes "disk_good disk" and "readable disk (program_table_ptr disk)"
    and "get_blockptr_blockct disk (program_table_ptr disk) = 0"
    and "take MAGIC_LENGTH (ptr_content disk (program_table_ptr disk)) = MAGIC"
    and "n < nat (512 div get_blockptr_size disk) - 1"
    and "seg_entry disk (ptr_content disk (program_table_ptr disk)) (n + 1) = p"
    and "\<not> blockptr_is_null disk p" and "readable disk p" and "get_blockptr_blockct disk p = 0"
    and "take MAGIC_LENGTH (ptr_content disk p) = MAGIC"
  shows "boot_bootmap_disk heap prog boot disk (int n) s = (Bad OutOfBounds, s)"
  by (rule boot_bootmap_disk_overrun) (fact assms)+

theorem boot_map_boot_overruns_the_heap_witness:
  "boot_bootmap_disk (\<lambda>_. 0) sample_prog sample_plain sample_disk 0 sample_sys = (Bad OutOfBounds, sample_sys)"
proof -
  have p: "seg_entry sample_disk (ptr_content sample_disk (program_table_ptr sample_disk)) (0 + 1) = mk_linear 2 512 0"
    using sample_program_0 by (simp add: sample_programs_def sample_program_content)
  from boot_map_boot_overruns_the_heap [OF sample_good sample_program_content(1,3) _ _ p] show ?thesis
    using sample_readable [of 2] by (simp add: sample_program_content sample_component_content sample_null)
qed

text \<open>
  C5: The configuration passes through the environment unchanged: what the main program stores
  with \<^verbatim>\<open>cfg_set_env\<close> a user interface module reads back with \<^verbatim>\<open>cfg_get_env\<close> (default entry,
  timeout, password and all members of all boot entries), in any environment. Only the list of
  user interfaces is not passed on.
\<close>

theorem environment_roundtrip:
  assumes "cfg_wf c" and "cfg_ints c"
  shows "ebind (cfg_set_env c env) (cfg_get_env cfg_new) = Inr (c\<lparr>ui_list := [], ui_count := 0\<rparr>)"
  by (rule cfg_env_roundtrip) (fact assms)+

theorem environment_roundtrip_witness:
  "ebind (cfg_set_env sample_config []) (cfg_get_env cfg_new)
    = Inr (sample_config\<lparr>ui_list := [], ui_count := 0\<rparr>)"
  by (rule environment_roundtrip) (rule sample_config_wf)+

text \<open>
  C6: The main program exports its configuration into the environment and starts the linemode user
  interface with it. When that program ends successfully, what it printed is a boot entry that was
  selected in the menu: an entry of the main program's own configuration, not locked or with its
  password typed as a line of the input, or an entry that was entered by hand after such a
  selection, for any input of the user.
\<close>

theorem linemode_prints_an_authorised_entry:
  assumes "cfg_wf config" and "cfg_ints config" and "exported msg config env env'"
    and "linemode_main env' argv1 can_open ctermid kppid t = Inr (0, out, t')"
  shows "\<exists>b. out = cfg_bentry_print b
    \<and> (\<exists>i < bentry_count config. authorised config (tty_in t) (bentry_list config ! i)
        \<and> (b = bentry_list config ! i \<or> title b = Some ''manual_title''))"
  by (rule linemode_main_exported) (fact assms)+

theorem linemode_prints_an_authorised_entry_witness:
  "\<exists>b. cfg_bentry_print (sample_plain\<lparr>locked := 1\<rparr>) = cfg_bentry_print b
    \<and> (\<exists>i < bentry_count locked_config.
        authorised locked_config (''1'' @ nl # ''pw'' @ [nl]) (bentry_list locked_config ! i)
        \<and> (b = bentry_list locked_config ! i \<or> title b = Some ''manual_title''))"
proof -
  obtain t where "linemode_main locked_env None (\<lambda>_ _. True) [] (Inr 1)
      (sample_tty (''1'' @ nl # ''pw'' @ [nl])) = Inr (0, cfg_bentry_print (sample_plain\<lparr>locked := 1\<rparr>), t)"
    using locked_main by blast
  from linemode_prints_an_authorised_entry [OF locked_wf locked_exported this]
  show ?thesis by (simp add: sample_tty_def)
qed

text \<open>
  C7: When all user interfaces can be started and the timer expires before a client or another signal
  interferes, the main program exports its configuration, hands the default entry to the loader,
  and, when the loader returns with a message, starts the user interfaces again with this message,
  the same configuration and the timeout recorded as the last signal.
\<close>

theorem timeout_boots_default_entry:
  assumes "boots_after_timeout config" and "uk_malloc k"
    and "\<forall>i < ui_count config. in_parent k i"
    and "uk_turns k = turn # turns" and "turn_select turn = Interrupted SIGALRM"
  shows "\<exists>env. exported msg config (sys_env s) env
    \<and> main_loop g net prog heap kern (k # ks) msg config boot sig sc s
      = (let b = bentry_list config ! nat (boot_default config) in
         abind (loader heap kern prog b) (\<lambda>errmsg.
           main_loop g net prog heap kern ks (unable_to_start errmsg) config (cfg_bentry_destroy b)
             (Some SIGALRM) sc) (s\<lparr>sys_env := env\<rparr>))"
  by (rule main_loop_timeout) (fact assms)+

theorem timeout_boots_default_entry_witness:
  "\<exists>env. exported [] sample_ui_config [] env
    \<and> main_loop sample_grammar sample_net sample_prog (\<lambda>_. 0) sample_kern [sample_ui_kernel (Parent 5 6 101)] []
        sample_ui_config cfg_bentry_init None scan_init sample_sys
      = abind (loader (\<lambda>_. 0) sample_kern sample_prog sample_bentry) (\<lambda>errmsg. spin)
          (sample_sys\<lparr>sys_env := env\<rparr>)"
proof -
  let ?k = "sample_ui_kernel (Parent 5 6 101)"
  have "boots_after_timeout sample_ui_config"
    using sample_ui_config_wf by (simp add: boots_after_timeout_def sample_ui_config_def sample_config_def)
  moreover have "uk_malloc ?k" by (simp add: sample_ui_kernel_def)
  moreover have "uk_turns ?k = [\<lparr>turn_signals = [], turn_alive = (\<lambda>_. True), turn_select = Interrupted SIGALRM\<rparr>]"
    by (simp add: sample_ui_kernel_def)
  ultimately show ?thesis
    using timeout_boots_default_entry [of sample_ui_config ?k _ "[]" "[]" sample_sys sample_grammar sample_net
        sample_prog "\<lambda>_. 0" sample_kern "[]" cfg_bentry_init None scan_init, OF _ _ sample_ui_parents]
    by (simp add: sample_ui_config_def sample_config_def sample_sys_def)
qed

text \<open>
  C8: The program as a whole, from the timeout to the new kernel: when the timer expires before anybody
  chooses, the loader modules deliver what the URIs of the default entry denote, and kexec loads and
  switches, the main program never comes back, and the programs it has started are exactly a module
  for the kernel, one for the initrd and one for the parameter file where the entry has them, the
  load call of kexec with the local files and the command line of the parameter file and the entry,
  and the call that switches.
\<close>

theorem timeout_boots_the_machine:
  assumes "boots_after_timeout config" and "uk_malloc k"
    and "\<forall>i < ui_count config. in_parent k i"
    and "uk_turns k = turn # turns" and "turn_select turn = Interrupted SIGALRM"
    and "bentry_list config ! nat (boot_default config) = boot" and "action boot = KERNEL_BOOT"
    and "bootable content boot" and "module_works prog content" and "kexec_works prog"
    and "open_err (sys_fs s) SYSLOAD_FILENAME_PARMFILE = None"
    and "bad (sys_fs s) SYSLOAD_FILENAME_PARMFILE = None"
  shows "\<exists>u. main_loop g net prog heap kern (k # ks) msg config init sig sc s = (Stopped, u)
    \<and> sys_trace u = sys_trace s @ kernel_boot_calls content boot s"
  by (rule main_loop_boots) (fact assms)+

theorem timeout_boots_the_machine_witness:
  "\<exists>u. main_loop sample_grammar sample_net sample_prog (\<lambda>_. 0) sample_kern [sample_ui_kernel (Parent 5 6 101)] []
        sample_ui_config cfg_bentry_init None scan_init sample_sys = (Stopped, u)
    \<and> sys_trace u =
       [[''/usr/sysload/cl/cl_ftp'', SYSLOAD_FILENAME_KERNEL, sample_uri ''image''],
        [''/usr/sysload/cl/cl_ftp'', SYSLOAD_FILENAME_INITRD, sample_uri ''initrd''],
        [''/usr/sysload/cl/cl_ftp'', SYSLOAD_FILENAME_PARMFILE, sample_uri ''parmfile''],
        [SYSLOAD_KEXEC_CMD, ''-l'', ''--initrd='' @ SYSLOAD_FILENAME_INITRD, ''--command-line=x ro'',
         SYSLOAD_FILENAME_KERNEL],
        [SYSLOAD_KEXEC_CMD, ''-e'']]"
proof -
  let ?k = "sample_ui_kernel (Parent 5 6 101)"
  have c: "boots_after_timeout sample_ui_config" "bentry_list sample_ui_config ! nat (boot_default sample_ui_config) = sample_bentry"
    "action sample_bentry = KERNEL_BOOT"
    using sample_ui_config_wf
    by (simp_all add: boots_after_timeout_def sample_ui_config_def sample_config_def sample_bentry_def)
  have k: "uk_malloc ?k" "uk_turns ?k = [\<lparr>turn_signals = [], turn_alive = (\<lambda>_. True), turn_select = Interrupted SIGALRM\<rparr>]"
    by (simp_all add: sample_ui_kernel_def)
  have f: "sys_trace sample_sys = []" "open_err (sys_fs sample_sys) p = None" "bad (sys_fs sample_sys) p = None" for p
    by (simp_all add: sample_sys_def)
  show ?thesis
    using timeout_boots_the_machine [OF c(1) k(1) sample_ui_parents k(2) _ c(2,3) sample_bootable
        sample_module_works sample_kexec_works f(2,3)]
    by (simp add: sample_kernel_boot_calls f(1))
qed

text \<open>
  C9: A complete kernel boot: when the modules load kernel, initrd and parameter file, the
  kernel is started with the local kernel and initrd files and, as command line, the contents of
  the parameter file, a space and the configured command line; if that returns, its message is
  the result and the local files are removed.
\<close>

theorem kernel_boot_runs_kexec:
  assumes "kernel boot = Some krn" "krn \<noteq> []" "initrd boot = Some ird" "ird \<noteq> []"
      "parmfile boot = Some parm" "parm \<noteq> []" "cmdline boot = Some cmd"
    and "comp_load prog SYSLOAD_FILENAME_KERNEL (prefix_root (root boot) krn) s
        = (Done (0, ik, mk), sk)"
    and "comp_load prog SYSLOAD_FILENAME_INITRD (prefix_root (root boot) ird) sk
        = (Done (0, ii, mi), si)"
    and "comp_load prog SYSLOAD_FILENAME_PARMFILE (prefix_root (root boot) parm) si
        = (Done (0, ip, mp), sp)"
    and "file_at sp SYSLOAD_FILENAME_PARMFILE = Some c"
    and "open_err (sys_fs sp) SYSLOAD_FILENAME_PARMFILE = None"
    and "bad (sys_fs sp) SYSLOAD_FILENAME_PARMFILE = None"
    and "length c + length cmd \<le> SYSLOAD_MAX_KERNEL_CMDLINE"
  shows "action_kernel_boot prog boot s =
    abind (kexec prog SYSLOAD_FILENAME_KERNEL SYSLOAD_FILENAME_INITRD (cstr c @ '' '' @ cmd))
      insfile_cleanup sp"
  using kernel_boot_kexec [OF assms(1-10) compose_commandline_ok [OF assms(11-14)]] .

theorem kernel_boot_runs_kexec_witness:
  "fst (action_kernel_boot sample_prog sample_bentry sample_sys) = Stopped"
proof -
  let ?s1 = "sample_load SYSLOAD_FILENAME_KERNEL ''image'' sample_sys"
  let ?s2 = "sample_load SYSLOAD_FILENAME_INITRD ''initrd'' ?s1"
  let ?s3 = "sample_load SYSLOAD_FILENAME_PARMFILE ''parmfile'' ?s2"
  have r: "root sample_bentry = Some ''ftp://host/''" by (simp add: sample_bentry_def)
  have "fst (kexec sample_prog SYSLOAD_FILENAME_KERNEL SYSLOAD_FILENAME_INITRD ''x ro'' ?s3) = Stopped"
    by (rule sample_kexec) (simp_all add: local_names)
  then have "fst (abind (kexec sample_prog SYSLOAD_FILENAME_KERNEL SYSLOAD_FILENAME_INITRD ''x ro'')
      insfile_cleanup ?s3) = Stopped"
    by (simp add: abind_fst_Stopped)
  moreover have "action_kernel_boot sample_prog sample_bentry sample_sys =
      abind (kexec sample_prog SYSLOAD_FILENAME_KERNEL SYSLOAD_FILENAME_INITRD (cstr ''x'' @ '' '' @ ''ro''))
        insfile_cleanup ?s3"
    by (rule kernel_boot_runs_kexec [where sk = ?s1 and si = ?s2 and krn = "''image''"
          and ird = "''initrd''" and parm = "''parmfile''" and ik = "Some ''copied''"
          and mk = None and ii = "Some ''copied''" and mi = None and ip = "Some ''copied''"
          and mp = None])
      (simp_all add: r sample_relative sample_comp_load, simp_all add: sample_bentry_def SYSLOAD_MAX_KERNEL_CMDLINE_def)
  ultimately show ?thesis by simp
qed

text \<open>
  C10: Whenever \<^verbatim>\<open>loader\<close> returns from a kernel boot or an INSFILE boot, on whatever path, the local
  kernel, initrd and parameter files are gone (removing an existing file is taken to succeed). The
  local copy of the INSFILE and the numbered files of the other components are not covered: after
  an error while a component is loaded they stay.
\<close>

theorem loader_removes_local_files:
  assumes "action boot = KERNEL_BOOT \<or> action boot = INSFILE_BOOT"
    and "loader heap kern prog boot s = (Done m, t)"
  shows "no_local_files t"
  using assms kernel_boot_no_local_files insfile_boot_no_local_files by (auto simp: loader_def)

theorem loader_removes_local_files_witness:
  "no_local_files (remove_local (sample_load SYSLOAD_FILENAME_INITRD ''initrd'' sample_sys))"
proof -
  let ?b = "sample_bentry\<lparr>root := Some []\<rparr>"
  let ?s = "sample_load SYSLOAD_FILENAME_INITRD ''initrd'' sample_sys"
  have "\<not> absolute ''image''"
    using verify_uri_scheme_iff [of "''image''"] by (simp add: verify_uri_scheme_def strchr_def)
  moreover have "prefix_root (Some []) ''image'' = ''image''"
    by (simp add: prefix_root_def str_arg_def strchr_def)
  ultimately have "action_kernel_boot sample_prog ?b ?s
      = (Done (''Error loading kernel image - '' @ str_arg (Some ''Invalid URI scheme.'')), remove_local ?s)"
    by (intro kernel_boot_load_fails [where krn = "''image''" and rc = "- 1"])
      (simp_all add: sample_bentry_def comp_load_relative)
  then have "loader (\<lambda>_. 0) sample_kern sample_prog ?b ?s
      = (Done (''Error loading kernel image - '' @ str_arg (Some ''Invalid URI scheme.'')), remove_local ?s)"
    by (simp add: loader_def sample_bentry_def)
  then show ?thesis
    by (intro loader_removes_local_files [of ?b]) (simp_all add: sample_bentry_def)
qed

text \<open>
  C11: The commands that \<^verbatim>\<open>kexec\<close> runs are exactly these: first \<^verbatim>\<open>kexec -l\<close> with the given
  kernel, initrd and command line, then \<^verbatim>\<open>kexec -e\<close> if and only if the load returned
  status 0. Nothing is executed after a failed load.
\<close>

theorem kexec_executes_only_after_load:
  "sys_trace (snd (kexec prog k i c s)) = sys_trace s @ [kexec_load_argv k i c]
     @ (if fst (systemv prog (kexec_load_argv k i c) s) = Done 0 then [kexec_exec_argv] else [])"
  by (rule kexec_trace)

text \<open>
  C12: Loading an absolute URI runs the loader module of its scheme with the destination and the
  URI. Both output streams are collected completely, however their pieces interleave, and the
  status tells whether the module exited with 0. When one of the streams does not end although the
  module has exited (a grandchild keeps the pipe open), the loop never ends.
\<close>

theorem comp_load_collects_output:
  assumes "absolute uri"
    and "prog (module_argv s dest uri) (sys_fs s) = (Exited rs status, f)"
  shows "comp_load prog dest uri s =
    (if stream_ends (map fst rs) \<and> stream_ends (map snd rs)
     then Done (if exited_ok status then 0 else - 1, non_empty (stream_text (map fst rs)),
       non_empty (stream_text (map snd rs)))
     else Spin, s\<lparr>sys_fs := f, sys_trace := sys_trace s @ [module_argv s dest uri]\<rparr>)"
  by (rule comp_load_outcome) (fact assms)+

theorem comp_load_collects_output_witness:
  "fst (comp_load sample_prog ''/tmp/x'' (sample_uri ''image'') sample_sys)
     = Done (0, Some ''copied'', None)"
proof -
  have "module_argv sample_sys ''/tmp/x'' (sample_uri ''image'')
      = [''/usr/sysload/cl/cl_ftp'', ''/tmp/x'', sample_uri ''image'']"
    by (simp add: module_argv_def base_path_def module_path_def CFG_DEFAULTPATH_def
        COMP_LOAD_MODULE_PATH_def strchr_def sample_uri_def)
  then show ?thesis
    using comp_load_collects_output [OF sample_absolute, of sample_prog sample_sys "''/tmp/x''" "''image''"]
    by (simp add: sample_prog_def stream_ends_def stream_text_def stream_pieces_def
        List.map_filter_def exited_ok_def non_empty_def cstr_def)
qed

text \<open>
  C13: Whatever the entry says, whatever the programs do and however the boot ends, it has started
  only what its action allows: loader modules for an absolute URI, with a destination below
  \<^verbatim>\<open>/tmp\<close> and the path of the environment, and kexec with the local kernel and initrd for the three
  boots; the one command for reboot, halt and shell; nothing otherwise. Only a boot from a boot map
  writes attributes, all below \<^verbatim>\<open>/sys/bus\<close>, and the environment is left alone.
\<close>

theorem boot_starts_only_its_programs:
  "let t = snd (loader heap kern prog boot s) in
   sys_env t = sys_env s
   \<and> (\<exists>new. sys_trace t = sys_trace s @ new
        \<and> list_all (action_program (action boot) (sys_env s)) new)
   \<and> (\<exists>new. sys_stores t = sys_stores s @ new
        \<and> list_all (\<lambda>(path, data). action_attribute (action boot) path) new)"
  using loader_keeps [of boot heap kern prog] by (simp add: keeps_def extends_def list_all_iff)

text \<open>
  C14: Whenever a boot of any kind comes back, whatever the entry says and whether the programs it started
  ran, could not be forked or were lost, the dispositions of all signals are those before the boot:
  no call of \<^verbatim>\<open>systemv\<close> leaves \<^verbatim>\<open>SIGINT\<close> or \<^verbatim>\<open>SIGQUIT\<close> ignored in the main program.
\<close>

theorem boot_restores_signals:
  assumes "loader heap kern prog boot s = (Done m, t)"
  shows "sys_sig t = sys_sig s"
  using assms by (rule loader_restores_signals)

theorem boot_restores_signals_witness:
  "\<exists>t. loader (\<lambda>_. 0) sample_kern sample_prog (sample_plain\<lparr>action := HALT\<rparr>) sample_sys
      = (Done ''halt command failed with return code 0.'', t)
    \<and> sys_trace t = [[SYSLOAD_HALT_CMD]] \<and> sys_sig t = (\<lambda>_. Handler 1)"
proof -
  have p: "sample_prog [SYSLOAD_HALT_CMD] (sys_fs sample_sys) = (Exited [(Some [], Some [])] 0, sys_fs sample_sys)"
    by (simp add: sample_prog_def kexec_exec_argv_def)
  have "printf_d 0 = ''0''" by code_simp
  then have l: "loader (\<lambda>_. 0) sample_kern sample_prog (sample_plain\<lparr>action := HALT\<rparr>) sample_sys
      = (Done ''halt command failed with return code 0.'', sample_sys\<lparr>sys_trace := [[SYSLOAD_HALT_CMD]]\<rparr>)"
    using systemv_eq(1) [where prog = sample_prog and argv = "[SYSLOAD_HALT_CMD]" and s = sample_sys, OF p]
    by (simp add: loader_def action_halt_def abind_def) (simp add: sample_sys_def)
  from boot_restores_signals [OF l] have "sys_sig (sample_sys\<lparr>sys_trace := [[SYSLOAD_HALT_CMD]]\<rparr>) = (\<lambda>_. Handler 1)"
    by (simp add: sample_sys_def)
  with l show ?thesis
    by (intro exI [of _ "sample_sys\<lparr>sys_trace := [[SYSLOAD_HALT_CMD]]\<rparr>"]) simp
qed

text \<open>
  C15: A DASD boot map URI written with a bus identifier and a program number below 100 in
  decimal is parsed to that bus identifier, in lower case, and that number.
\<close>

theorem dasd_uri_program_number:
  assumes "matches busid_classes b" and "n < 100"
  shows "dasd_uri (''dasd://('' @ b @ '','' @ dec n @ '')'') = Inr (Some (map tolower b, int n))"
  by (rule dasd_uri_dec) (fact assms)+

theorem dasd_uri_program_number_witness:
  "dasd_uri (''dasd://('' @ ''0.0.12Ab'' @ '','' @ dec 17 @ '')'') = Inr (Some (''0.0.12ab'', 17))"
  by (subst dasd_uri_program_number) (simp_all add: busid_classes_list isxdigit_def
      isdigit_def tolower_def isupper_def char_of_eq_iff)

text \<open>
  C16: The parser of FCP boot map URIs accepts exactly the texts
  \<^verbatim>\<open>zfcp://(h.h.hhhh,0x\<close> (16 digits) \<^verbatim>\<open>,0x\<close> (16 digits) \<^verbatim>\<open>)\<close> with hexadecimal digits, or with a comma
  and one or two decimal digits in front of the closing parenthesis. The result is the bus identifier,
  the WWPN and the LUN in lower case and the program number: 0 when it is left out, and otherwise
  what \<^verbatim>\<open>sscanf\<close> with \<^verbatim>\<open>%i\<close> makes of the digits, a leading zero meaning octal digits. Every
  other text is rejected, and no text leads to an overflow.
\<close>

theorem zfcp_uri_accepts_its_grammar:
  "(zfcp_uri uri = Inr (Some r) \<longleftrightarrow> zfcp_form uri r) \<and> (\<exists>p. zfcp_uri uri = Inr p)"
  by (intro conjI zfcp_uri_iff zfcp_uri_defined)

theorem zfcp_uri_accepts_its_grammar_witness:
  "zfcp_form ''zfcp://(0.0.1234,0x500507630300c562,0x401040a200000000,63)''
      (sample_busid, sample_wwpn, sample_lun, 63)
    \<and> zfcp_uri ''zfcp://(0.0.1234,0x500507630300c562,0x401040a200000000,63'' = Inr None"
proof -
  let ?u = "''zfcp://(0.0.1234,0x500507630300c562,0x401040a200000000,63''"
  have "\<not> zfcp_form ?u r" for r
  proof
    assume "zfcp_form ?u r"
    then obtain u where "?u = u @ '')''" using zfcp_form_ends by blast
    then have "last ?u = CHR '')''" by (metis last_snoc)
    then show False by simp
  qed
  with zfcp_uri_accepts_its_grammar [of ?u] have "zfcp_uri ?u = Inr None" by (metis option.exhaust)
  moreover have "zfcp_form ''zfcp://(0.0.1234,0x500507630300c562,0x401040a200000000,63)''
      (sample_busid, sample_wwpn, sample_lun, 63)"
    using zfcp_uri_accepts_its_grammar sample_zfcp_uri by blast
  ultimately show ?thesis by blast
qed

text \<open>
  C17: A boot from a DASD that comes back (kexec failed, or the boot map is broken) leaves no
  trace of the device: its node is removed and it is set offline again, and the message is that of
  the boot.
\<close>

theorem dasd_boot_sets_device_offline:
  assumes "dasd_uri uri = Inr (Some (busid, n))"
    and "set_dasd_online kern busid s = (Done (Inr dev), sa)"
    and "open_disk_node dev sa = (Done (Inr disk), sb)"
    and "boot_bootmap_disk heap prog boot disk n sb = (Done m, t)"
  shows "\<exists>u. action_bootmap_boot_dasd heap kern prog boot uri s = (Done m, u)
    \<and> nodes (sys_fs u) (dasd_node busid) = None
    \<and> sys_stores u = sys_stores t @ [(dasd_online_attr busid, ''0'')]"
  by (rule dasd_boot_cleans_up) (fact assms)+

theorem dasd_boot_sets_device_offline_witness:
  "fst (action_bootmap_boot_dasd (\<lambda>_. 0) sample_kern sample_prog sample_plain
      (''dasd://('' @ sample_busid @ '','' @ dec 63 @ '')'') (sample_dasd_sys (Inr sample_device)))
    = Done ''Error - program number out of valid range.''"
proof -
  obtain t where t: "set_dasd_online sample_kern sample_busid (sample_dasd_sys (Inr sample_device))
      = (Done (Inr (dasd_node sample_busid)), t)"
    "nodes (sys_fs t) (dasd_node sample_busid) = Some (94, 1)"
    "devices (sys_fs t) = (\<lambda>_. Inr sample_device)"
    using sample_set_dasd_online by blast
  have o: "open_disk_node (dasd_node sample_busid) t = (Done (Inr sample_disk), t)"
    using t by (simp add: open_disk_node_def sample_disk_open)
  have "get_program_table_size sample_disk = Inr 63"
    by (simp add: get_program_table_size_def sample_ok c_div_def)
  then have b: "boot_bootmap_disk (\<lambda>_. 0) sample_prog sample_plain sample_disk 63 t
      = (Done ''Error - program number out of valid range.'', t)"
    by (rule boot_bootmap_disk_range) simp
  have "dasd_uri (''dasd://('' @ sample_busid @ '','' @ dec 63 @ '')'') = Inr (Some (sample_busid, 63))"
    using sample_dasd_uri [of 63] by simp
  from dasd_boot_sets_device_offline [OF this t(1) o b] show ?thesis by auto
qed

text \<open>
  C18: A boot from a SCSI disk that could be opened and that comes back undoes its configuration from the
  inside out (when \<^verbatim>\<open>disk_open\<close> fails the device stays online): it deletes the
  SCSI device that has the bus identifier, port and unit of the URI, if there is one, then removes
  the unit, the port and sets the channel offline; nothing else is written, the device node is
  removed, and the message is that of the boot.
\<close>

theorem fcp_boot_tears_down_in_order:
  assumes "zfcp_uri uri = Inr (Some (busid, wwpn, lun, n))"
    and "set_fcp_disk_online kern busid wwpn lun s = (Done (Inr dev), s1)"
    and "open_disk_node dev s1 = (Done (Inr disk), s2)"
    and "boot_bootmap_disk heap prog boot disk n s2 = (Done m, t)"
    and "scsi_names_ok kern t"
  shows "\<exists>u. action_bootmap_boot_zfcp heap kern prog boot uri s = (Done m, u)
    \<and> nodes (sys_fs u) (fcp_node busid wwpn lun) = None
    \<and> sys_stores u = sys_stores t @ fcp_teardown busid wwpn lun (scsi_found kern busid wwpn lun t)"
  by (rule zfcp_boot_cleans_up) (fact assms)+

theorem fcp_boot_tears_down_in_order_witness:
  "\<exists>u. action_bootmap_boot_zfcp (\<lambda>_. 0) sample_fcp_kern sample_prog sample_plain
      ''zfcp://(0.0.1234,0x500507630300c562,0x401040a200000000,63)'' sample_fcp_sys
    = (Done ''Error - program number out of valid range.'', u)
    \<and> sys_stores u = [(sample_fcp_path @ ''/online'', ''1''), (sample_scsi_path @ ''/delete'', ''1''),
       (sample_fcp_path @ ''/'' @ sample_wwpn @ ''/unit_remove'', sample_lun),
       (sample_fcp_path @ ''/port_remove'', sample_wwpn), (sample_fcp_path @ ''/online'', ''0'')]"
proof -
  obtain t where t: "set_fcp_disk_online sample_fcp_kern sample_busid sample_wwpn sample_lun sample_fcp_sys
      = (Done (Inr (fcp_node sample_busid sample_wwpn sample_lun)), t)"
    "nodes (sys_fs t) (fcp_node sample_busid sample_wwpn sample_lun) = Some (8, 0)"
    "devices (sys_fs t) = (\<lambda>_. Inr sample_device)" "fcp_state t"
    "sys_stores t = [(sample_fcp_path @ ''/online'', ''1'')]"
    using sample_fcp_online by blast
  have o: "open_disk_node (fcp_node sample_busid sample_wwpn sample_lun) t = (Done (Inr sample_disk), t)"
    using t by (simp add: open_disk_node_def sample_disk_open)
  have "get_program_table_size sample_disk = Inr 63"
    by (simp add: get_program_table_size_def sample_ok c_div_def)
  then have b: "boot_bootmap_disk (\<lambda>_. 0) sample_prog sample_plain sample_disk 63 t
      = (Done ''Error - program number out of valid range.'', t)"
    by (rule boot_bootmap_disk_range) simp
  have "SYS_PATH_SCSI @ ''/'' @ scsi_name [0, 0, 1, 0] @ ''/delete'' = sample_scsi_path @ ''/delete''"
    unfolding sample_scsi_name [symmetric] by simp
  then have "sys_stores t @ fcp_teardown sample_busid sample_wwpn sample_lun (Some [0, 0, 1, 0])
    = [(sample_fcp_path @ ''/online'', ''1''), (sample_scsi_path @ ''/delete'', ''1''),
       (sample_fcp_path @ ''/'' @ sample_wwpn @ ''/unit_remove'', sample_lun),
       (sample_fcp_path @ ''/port_remove'', sample_wwpn), (sample_fcp_path @ ''/online'', ''0'')]"
    by (simp add: fcp_teardown_def scsi_delete_def t(5) sample_fcp_path_def)
  with fcp_boot_tears_down_in_order [OF sample_zfcp_uri t(1) o b sample_names_ok] sample_scsi_found [OF t(4)]
  show ?thesis by auto
qed

text \<open>
  C19: The voting of \<^verbatim>\<open>identify_file\<close> decides by this table. A file above 512 KiB is the kernel
  if it is loaded at address 0, or if it is not compressed and not loaded at the address of the
  initrd, and the initrd otherwise. A file of at most 4096 bytes is the parameter file if it is
  printable; else its address decides between kernel, initrd, the four bytes of the initrd size,
  and again the parameter file. Between the two limits only the address decides.
\<close>

theorem ins_component_identification:
  assumes "file_at s name = Some c" and "open_err (sys_fs s) name = None"
    and "bad (sys_fs s) name = None"
  shows "identify_file name addr s = (Done
    (if 512 * 1024 < length c then
       if addr = 0 \<or> (\<not> gzip_signature c \<and> addr \<noteq> 0x00800000) then INS_KERNEL else INS_INITRD
     else if length c \<le> SYSLOAD_MAX_KERNEL_CMDLINE then
       if \<forall>x \<in> set c. isprint x then INS_PARMFILE
       else if addr = 0 then INS_KERNEL
       else if addr = 0x00800000 then INS_INITRD
       else if addr = 0x00010414 \<and> length c = 4 then INS_INITRDSIZE
       else INS_PARMFILE
     else if addr = 0 then INS_KERNEL
     else if addr = 0x00800000 then INS_INITRD
     else if addr = 0x00010480 then INS_PARMFILE
     else if addr = 0x00010414 then INS_INITRDSIZE
     else INS_OTHER), s)"
  using identify_file_ok [OF assms] ins_votes_table by simp

theorem ins_component_identification_witness:
  "fst (identify_file ''/tmp/f'' 0 (fs_set ''/tmp/f'' (Some ''root=1'') sample_sys)) = Done INS_PARMFILE"
  by (subst ins_component_identification [where c = "''root=1''"])
    (simp_all add: sample_sys_def SYSLOAD_MAX_KERNEL_CMDLINE_def isprint_def)

text \<open>
  C20: The text of a list of lines - comments, components with an address of 64 bits, blank lines - is
  taken apart again by the loop over \<^verbatim>\<open>fgets\<close> and \<^verbatim>\<open>sscanf\<close>: once the INSFILE has been
  loaded, the boot does exactly what \<open>load_lines\<close> says of the list, whatever the loader modules
  and the file system do on the way. A comment does nothing, a component is loaded, identified and
  placed, and a blank line repeats the component before it; then the file is removed and, if all
  three parts have been found, kexec is started.
\<close>

theorem insfile_follows_its_lines:
  assumes "insfile boot = Some ins" and "ins \<noteq> []"
    and "comp_load prog SYSLOAD_FILENAME_INSFILE (prefix_root (root boot) ins) s = (Done (0, i, m), t)"
    and "file_at t SYSLOAD_FILENAME_INSFILE = Some (concat (map render ls))"
    and "open_err (sys_fs t) SYSLOAD_FILENAME_INSFILE = None"
    and "bad (sys_fs t) SYSLOAD_FILENAME_INSFILE = None"
    and "\<forall>l \<in> set ls. ins_line_ok l"
  shows "action_insfile_boot prog boot s =
    insfile_spec prog (cmdline boot) (get_uri_path (prefix_root (root boot) ins)) ls m t"
  by (rule action_insfile_boot_lines) (fact assms)+

theorem insfile_follows_its_lines_witness:
  "\<exists>t. comp_load sample_ins_prog SYSLOAD_FILENAME_INSFILE (sample_uri ''list'') sample_sys
      = (Done (0, None, None), t)
    \<and> action_insfile_boot sample_ins_prog sample_ins_bentry sample_sys =
      insfile_spec sample_ins_prog (cmdline sample_ins_bentry) (get_uri_path (sample_uri ''list''))
        [Comment ''boot'', Component ''image'' 0, Component ''initrd'' 0x00800000, Blank] None t"
proof -
  obtain t where t: "comp_load sample_ins_prog SYSLOAD_FILENAME_INSFILE (sample_uri ''list'') sample_sys
      = (Done (0, None, None), t)"
    "file_at t SYSLOAD_FILENAME_INSFILE = Some (concat (map render sample_lines))"
    "open_err (sys_fs t) SYSLOAD_FILENAME_INSFILE = None" "bad (sys_fs t) SYSLOAD_FILENAME_INSFILE = None"
    using sample_ins_load by blast
  have u: "insfile sample_ins_bentry = Some (sample_uri ''list'')" "sample_uri ''list'' \<noteq> []"
    "prefix_root (root sample_ins_bentry) (sample_uri ''list'') = sample_uri ''list''"
    by (simp_all add: sample_ins_bentry_def sample_uri_def prefix_root_def strchr_def str_arg_def)
  have "action_insfile_boot sample_ins_prog sample_ins_bentry sample_sys =
      insfile_spec sample_ins_prog (cmdline sample_ins_bentry)
        (get_uri_path (prefix_root (root sample_ins_bentry) (sample_uri ''list''))) sample_lines None t"
    by (rule insfile_follows_its_lines [OF u(1,2) _ t(2-4) sample_lines_ok]) (simp add: u(3) t(1))
  with t(1) u(3) show ?thesis by (simp add: sample_lines_def)
qed

text \<open>
  C21: For a program table pointer that lies on the disk, \<^verbatim>\<open>get_program_table\<close> checks that it
  points to one block that starts with the magic number, and returns every pointer of the first
  512 bytes behind it.
\<close>

theorem program_table_is_decoded:
  assumes "disk_good disk" and "readable disk (program_table_ptr disk)"
  shows "get_program_table disk =
    (if get_blockptr_blockct disk (program_table_ptr disk) \<noteq> 0
     then fail ''Error - invalid program table pointer''
     else if take MAGIC_LENGTH (ptr_content disk (program_table_ptr disk)) \<noteq> MAGIC
     then fail ''Error - invalid magic number in program table''
     else ret (map (seg_entry disk (ptr_content disk (program_table_ptr disk)))
            [1..<nat (512 div get_blockptr_size disk)]))"
  by (rule get_program_table_readable) (fact assms)+

theorem program_table_is_decoded_witness:
  "get_program_table (sample_disk\<lparr>program_table_ptr := mk_linear 5 512 0\<rparr>)
    = fail ''Error - invalid magic number in program table''"
proof -
  let ?d = "sample_disk\<lparr>program_table_ptr := mk_linear 5 512 0\<rparr>"
  have "disk_good ?d" using sample_good by (simp add: disk_good_def disk_ok_def)
  moreover have r: "readable ?d (mk_linear 5 512 0)" and c: "ptr_content ?d (mk_linear 5 512 0) = block [202, 254]"
    and z: "get_blockptr_blockct ?d (mk_linear 5 512 0) = 0"
    using sample_readable [of 5] sample_content [of 5]
    by (simp_all add: readable_def ptr_content_def ptr_ok_def check_blockptr_def sample_ok ptr_block_def
        ptr_count_def get_blockptr_blockct_def sample_blocks_def blockptr_simps)
  moreover have "take MAGIC_LENGTH (block [202, 254]) \<noteq> MAGIC"
    by (simp add: block_def MAGIC_def MAGIC_LENGTH_def)
  ultimately show ?thesis by (simp add: program_table_is_decoded)
qed

text \<open>
  C22: The number of component table entries is computed with the size of a packed pointer, not
  with the 32 bytes of an entry. On every supported disk the table that is filled is larger than
  the memory allocated for it, and the last entry read lies behind the end of the block; the conversion loop ends in undefined behaviour.
\<close>

theorem component_table_exceeds_its_buffers:
  assumes "disk_ok disk"
  shows "\<exists>n a b. get_component_table_size disk = Inr (int n)
    \<and> component_table_allocated disk = Inr a \<and> component_table_needed disk = Inr b \<and> a < b
    \<and> phy_block_size disk < int ((n + 1) * component_entry_size)
    \<and> convert_components heap disk buffer a [0..<n] = Inl OutOfBounds"
proof -
  obtain n where n: "get_component_table_size disk = Inr (int n)" "31 \<le> n" "phy_block_size disk \<le> 16 * int n + 31"
    using get_component_table_size_bounds [OF assms] by blast
  moreover from n(1) have "component_table_allocated disk = Inr (sizeof_blockptr * int n)"
      "convert_components heap disk buffer (sizeof_blockptr * int n) [0..<n] = Inl OutOfBounds"
    by (metis component_table_overrun [OF assms] of_nat_eq_iff sum.inject(2))+
  ultimately show ?thesis
    by (intro exI [of _ n]) (simp add: component_table_needed_def
        component_entry_size_def sizeof_blockptr_def sizeof_component_def)
qed

theorem component_table_exceeds_its_buffers_witness:
  "\<exists>n a b. get_component_table_size sample_disk = Inr (int n)
    \<and> component_table_allocated sample_disk = Inr a \<and> component_table_needed sample_disk = Inr b \<and> a < b
    \<and> phy_block_size sample_disk < int ((n + 1) * component_entry_size)
    \<and> convert_components (\<lambda>_. 0) sample_disk component_block a [0..<n] = Inl OutOfBounds"
  by (rule component_table_exceeds_its_buffers) (rule sample_ok)

text \<open>
  C23: Whenever the loader module for scp ends with exit code 0, the destination file is empty and all
  other files are as they were, whatever the server has sent: received data is written in the
  branch for errors only, where the call is refused.
\<close>

theorem scp_transfers_nothing:
  assumes "scp_main pw_name srv argv f = (Done (0, log), f')"
  shows "files f' (argv ! 2) = Some [] \<and> (\<forall>q. q \<noteq> argv ! 2 \<longrightarrow> files f' q = files f q)"
  using assms by (rule scp_main_file)

theorem scp_transfers_nothing_witness:
  "\<exists>f log. scp_main None sample_server [''cl_scp'', ''scp://u@host/file'', ''/boot''] (sys_fs sample_sys)
    = (Done (0, log @ [''Transferred 3 bytes successfully.'']), f) \<and> files f ''/boot'' = Some []"
proof -
  obtain f where f: "scp_main None sample_server [''cl_scp'', ''scp://u@host/file'', ''/boot'']
      (sys_fs sample_sys) = (Done (0, [''public key matched.'', ''SFTP subsystem request successful.'',
        ''SFTP initialization successful.'', ''Destination opened successfully'',
        ''Source opened successfully'', ''Transferred 3 bytes successfully.'']), f)"
    using sample_scp by blast
  from scp_transfers_nothing [OF f] f show ?thesis
    by (intro exI [of _ f] exI [of _ "[''public key matched.'', ''SFTP subsystem request successful.'',
        ''SFTP initialization successful.'', ''Destination opened successfully'',
        ''Source opened successfully'']"]) simp
qed

text \<open>
  C24: The component loader starts its modules with the destination as first argument and the URI as
  second; the module for scp expects them the other way round. A component is therefore never
  loaded with it: the call fails without a message and changes no file, for every server.
\<close>

theorem scp_uri_is_never_loaded:
  assumes "absolute uri" and "\<not> starts_with dest ''scp://''"
    and "prog (module_argv s dest uri) (sys_fs s) = scp_program pw_name srv (module_argv s dest uri) (sys_fs s)"
  shows "comp_load prog dest uri s =
    (Done (- 1, None, None), s\<lparr>sys_trace := sys_trace s @ [module_argv s dest uri]\<rparr>)"
  by (rule scp_comp_load_fails) (fact assms)+

theorem scp_uri_is_never_loaded_witness:
  "comp_load (scp_program None sample_server) ''/tmp/kernel'' ''scp://u@host/file'' sample_sys =
    (Done (- 1, None, None), sample_sys\<lparr>sys_trace :=
       [[''/usr/sysload/cl/cl_scp'', ''/tmp/kernel'', ''scp://u@host/file'']]\<rparr>)"
proof -
  have a: "absolute ''scp://u@host/file''"
    unfolding absolute_def
    by (rule exI [of _ "''scp''"], rule exI [of _ "''//u@host/file''"])
      (simp add: isalpha_c_def scheme_char_def ctype_defs)
  have d: "\<not> starts_with ''/tmp/kernel'' ''scp://''" by (simp add: starts_with_def)
  have m: "module_argv sample_sys ''/tmp/kernel'' ''scp://u@host/file''
      = [''/usr/sysload/cl/cl_scp'', ''/tmp/kernel'', ''scp://u@host/file'']"
    by (simp add: module_argv_def module_path_def base_path_def CFG_DEFAULTPATH_def
        COMP_LOAD_MODULE_PATH_def strchr_def sample_sys_def)
  show ?thesis
    using scp_uri_is_never_loaded [of _ _ "scp_program None sample_server" sample_sys None sample_server,
        OF a d refl]
    by (simp add: m) (simp add: sample_sys_def)
qed

text \<open>
  C25: The loop of \<^verbatim>\<open>disk_read_phy_blocks\<close> does not test for the end of the device: for a valid
  pointer whose first block starts on the device and whose last block does not lie on it, it never
  returns.
\<close>

theorem read_past_end_never_returns:
  assumes "disk_ok disk" and "check_blockptr disk p = 0" and "ptr_ok disk p"
    and "fd_good (disk_fd disk)"
    and "ptr_block disk p * nat (phy_block_size disk) \<le> length (fd_data (disk_fd disk))"
    and "length (fd_data (disk_fd disk))
      < (ptr_block disk p + ptr_count disk p) * nat (phy_block_size disk)"
  shows "disk_read_phy_blocks disk p = None"
  by (rule disk_read_spins) (fact assms)+

theorem read_past_end_never_returns_witness:
  "disk_read_phy_blocks sample_disk (mk_linear 6 512 1) = None"
proof -
  have "length (fd_data (disk_fd sample_disk)) = 3584"
    using sample_length by (simp add: sample_disk_def)
  then show ?thesis
    using sample_good
    by (intro read_past_end_never_returns) (simp_all add: disk_good_def sample_ok check_blockptr_def
        ptr_ok_def get_blockptr_blockct_def ptr_block_def ptr_count_def blockptr_simps int32_def
        sample_disk_def)
qed

text \<open>
  C26: Parsing a configuration file without include lines is the specification of its tree: the
  statements run in order, those of a section only when its condition and those of all
  enclosing sections are true, and the default entry is then looked up. The parser counts the
  depth and the first inactive depth instead; the two agree in every outcome as long as the
  sections nest less than \<open>MAX_SYSTEM_DEPTH\<close> deep.
\<close>

theorem configuration_file_follows_its_sections:
  assumes "config_uri args = Some uri"
    and "comp_load prog (URI_TEMP_FILENAME 999) uri s = (Done (0, i, m), t)"
    and "open_file (URI_TEMP_FILENAME 999) t = (Done (Inr fd), u)"
    and "text_reductions g (stream_data fd) = Some (config_reductions ds)"
    and "nest_blocks nest_def ds < 999"
  shows "parse_sysload g net prog ([], n) args s
    = spec_parse net prog ds ([], n + newlines (g_lex g (stream_data fd)))
        (opened args uri (stream_data fd)) u"
  by (rule parse_sysload_tree) (fact assms)+

theorem configuration_file_follows_its_sections_witness:
  "parse_sysload sample_grammar sample_net sample_prog scan_init sample_args sample_guest
    = spec_parse sample_net sample_prog sample_tree ([], 2)
        (opened sample_args (sample_uri ''conf'') ''x'')
        (sample_load (URI_TEMP_FILENAME 999) ''conf'' sample_guest)"
proof -
  let ?t = "sample_load (URI_TEMP_FILENAME 999) ''conf'' sample_guest"
  obtain fd where fd: "open_file (URI_TEMP_FILENAME 999) ?t = (Done (Inr fd), ?t)" "stream_data fd = ''x''"
    using sample_loaded(2) by blast
  have "config_uri sample_args = Some (sample_uri ''conf'')" by (simp add: sample_args_def)
  from configuration_file_follows_its_sections
    [OF this sample_loaded(1) fd(1), of sample_grammar sample_tree sample_net 1]
  show ?thesis
    using sample_text sample_nest fd(2) by (simp add: scan_init_def sample_newlines del: One_nat_def)
qed

text \<open>
  C27: Whatever the text, the includes and the conditions, and whatever the grammar's automaton does:
  a configuration that \<^verbatim>\<open>parse_sysload\<close> accepts has consistent counters and no NULL strings, its
  integers are values of \<^verbatim>\<open>int\<close>, and the index of the default entry is that of an entry.
\<close>

theorem accepted_configuration_is_well_formed:
  assumes "parse_sysload g net prog sc args s = (Done (None, sc', cfg), t)"
  shows "cfg_wf cfg \<and> 0 \<le> boot_default cfg \<and> boot_default cfg < int (bentry_count cfg)
    \<and> int32 (timeout cfg) \<and> (\<forall>b \<in> set (bentry_list cfg). bentry_ints b)"
  using assms by (rule parse_sysload_valid)

theorem accepted_configuration_is_well_formed_witness:
  "cfg_wf sample_result \<and> boot_default sample_result < int (bentry_count sample_result)"
proof -
  obtain t where "parse_sysload sample_grammar sample_net sample_prog scan_init sample_args sample_guest
      = (Done (None, ([], 2), sample_result), t)" using sample_parse by blast
  from accepted_configuration_is_well_formed [OF this] show ?thesis by blast
qed

text \<open>
  C28: In an active context, a \<^verbatim>\<open>system\<close> section whose condition evaluates to \<open>''true''\<close> is equivalent to
  its contents, for any contents and any nesting below the limit.
\<close>

theorem section_with_true_condition_is_its_contents:
  assumes "fits c (Suc (nest_blocks nest_def bs))" and "is_active c"
    and "eval_systemlist net l s = (Done ''true'', t)"
  shows "exec_reductions net prog (config_reductions [InSystem l bs]) c s
    = exec_reductions net prog (config_reductions bs) c t"
  by (rule true_section) (fact assms)+

theorem section_with_true_condition_is_its_contents_witness:
  "exec_reductions sample_net sample_prog (config_reductions [InSystem (SystemId (UUID ''true''))
      [Plain sample_boot]]) parser_init sample_sys
    = exec_reductions sample_net sample_prog (config_reductions [Plain sample_boot]) parser_init sample_sys"
  by (rule section_with_true_condition_is_its_contents)
    (simp_all add: fits_def parser_init_def MAX_SYSTEM_DEPTH_def sample_boot_def is_active_def
      parser_active_system_def)

text \<open>
  C29: A \<^verbatim>\<open>system\<close> section whose condition is not true has no effect, whatever it contains: the parser
  gets through it, no program is started and no file is written (messages on \<^verbatim>\<open>stderr\<close> aside), the
  counters are back where they were, and the configuration, the default label and the arguments
  are unchanged. Only the timeout may differ: a \<^verbatim>\<open>timeout\<close> statement in an inactive section sets
  it to 0.
\<close>

theorem section_with_false_condition_changes_nothing:
  assumes "fits c (Suc (nest_blocks nest_def bs))" and "ui_ok c"
    and "eval_systemlist net l s = (Done v, t)" and "v \<noteq> ''true''"
  shows "\<exists>d u. exec_reductions net prog (config_reductions [InSystem l bs]) c s = (Done d, u)
    \<and> same_config c d \<and> system_depth d = system_depth c
    \<and> system_first_inactive d = system_first_inactive c \<and> only_stderr t u"
  by (rule false_section) (fact assms)+

theorem section_with_false_condition_changes_nothing_witness:
  "\<exists>d u. exec_reductions sample_net sample_prog (config_reductions [InSystem
      (SystemNot (SystemId (UUID ''true''))) [Plain sample_boot, Plain (DefExec ''reboot'')]])
      (opened sample_args [] []) sample_sys = (Done d, u)
    \<and> same_config (opened sample_args [] []) d \<and> only_stderr sample_sys u"
proof -
  let ?c = "opened sample_args [] []"
  let ?bs = "[Plain sample_boot, Plain (DefExec ''reboot'')]"
  have "fits ?c (Suc (nest_blocks nest_def ?bs))" "ui_ok ?c"
    by (simp_all add: fits_def opened_def parser_init_def MAX_SYSTEM_DEPTH_def sample_boot_def
        ui_ok_def sample_args_def)
  from section_with_false_condition_changes_nothing [OF this,
      of sample_net "SystemNot (SystemId (UUID ''true''))" sample_sys "''false''" sample_sys sample_prog]
  show ?thesis by simp blast
qed

text \<open>
  C30: When \<^verbatim>\<open>/proc/sysinfo\<close> can be read, a \<^verbatim>\<open>system\<close> condition evaluates without changing anything, to
  \<open>''true''\<close> exactly when it holds: a list is a disjunction, \<^verbatim>\<open>not\<close> a negation, a guest or LPAR
  name is compared case insensitively with the values of \<^verbatim>\<open>/proc/sysinfo\<close>. A hardware
  address is compared with those of the interfaces in front of the first one whose index has a
  first byte of 0: all of them on a little-endian machine with few interfaces, none on a big-endian
  machine. A \<^verbatim>\<open>uuid\<close> condition holds only for the word \<^verbatim>\<open>true\<close>, although it is documented to
  compare the identifier with that of the system.
\<close>

theorem system_condition_is_disjunction:
  assumes "sysinfo_readable s"
  shows "\<exists>v. eval_systemlist net l s = (Done v, s) \<and> (v = ''true'' \<longleftrightarrow> system_holds net s l)"
  using assms by (rule eval_systemlist_readable)

theorem system_condition_is_disjunction_witness:
  "\<exists>v. eval_systemlist sample_net (SystemOr (SystemId (UUID ''1'')) (VMGUEST ''linux1'')) sample_guest
    = (Done v, sample_guest) \<and> v = ''true''"
  using system_condition_is_disjunction [OF sample_sysinfo,
      of sample_net "SystemOr (SystemId (UUID ''1'')) (VMGUEST ''linux1'')"] sample_condition
  by simp

text \<open>
  C31: The loop over the DHCP requests ends even when no server ever answers: the client is called six
  times, with timeouts of 10, 20, 40, 80, 160 and 320 seconds, and the configuration is left as it was.
\<close>

theorem dhcp_requests_end:
  assumes "no_lease prog (nb_interface n)"
  shows "\<exists>u. dhcp_loop prog n 10 0 s = (Done n, u) \<and> sys_trace u = sys_trace s
     @ map (\<lambda>t. sh_argv (dhcp_command (nb_interface n) t)) [10, 20, 40, 80, 160, 320]"
  using assms by (rule dhcp_gives_up)

theorem dhcp_requests_end_witness:
  "\<exists>u. dhcp_loop (\<lambda>argv f. (Exited [] 256, f)) (nb_conf_init\<lparr>nb_interface := Some ''eth0''\<rparr>) 10 0 sample_sys
      = (Done (nb_conf_init\<lparr>nb_interface := Some ''eth0''\<rparr>), u)
    \<and> sys_trace u = map (\<lambda>t. sh_argv (dhcp_command (Some ''eth0'') t)) [10, 20, 40, 80, 160, 320]"
proof -
  have "no_lease (\<lambda>argv f. (Exited [] 256, f)) (nb_interface (nb_conf_init\<lparr>nb_interface := Some ''eth0''\<rparr>))"
    by (simp add: no_lease_def)
  from dhcp_requests_end [OF this, of sample_sys] show ?thesis by (simp add: sample_sys_def)
qed

text \<open>
  C32: Enabling a network with a static address starts exactly these programs, whatever their status:
  \<^verbatim>\<open>ifconfig\<close> for the loopback interface, \<^verbatim>\<open>ifconfig\<close> for the interface with its address and mask,
  255.255.255.0 when none is given, and \<^verbatim>\<open>route\<close> when there is a gateway.
\<close>

theorem static_network_commands:
  assumes "exits prog" and "nb_mode n = NB_STATIC"
    and "nb_interface n = Some i" and "i \<noteq> []" and "nb_address n = Some a" and "a \<noteq> []"
    and "nb_mask n = Some m" and "nb_gateway n = Some g" and "nb_nameserver n = Some ns"
    and "nb_domain n = Some d"
  shows "\<exists>n' t. nb_conf_enable prog n s = (Done n', t) \<and> sys_trace t = sys_trace s
    @ [sh_argv ''ifconfig lo 127.0.0.1'',
       sh_argv (ifconfig_up i a (if m = [] then ''255.255.255.0'' else m))]
    @ (if g = [] then [] else [sh_argv (''route add default gw '' @ g)])"
  by (rule nb_conf_enable_static) (fact assms)+

theorem static_network_commands_witness:
  "\<exists>n' t. nb_conf_enable (\<lambda>argv f. (Exited [] 0, f)) (nb_conf_init\<lparr>nb_interface := Some ''eth0'',
      nb_address := Some ''10.0.0.1''\<rparr>) sample_sys = (Done n', t)
    \<and> sys_trace t = [sh_argv ''ifconfig lo 127.0.0.1'', sh_argv (ifconfig_up ''eth0'' ''10.0.0.1'' ''255.255.255.0'')]"
proof -
  let ?n = "nb_conf_init\<lparr>nb_interface := Some ''eth0'', nb_address := Some ''10.0.0.1''\<rparr>"
  have "exits (\<lambda>argv f. (Exited [] 0, f))" by (simp add: exits_def)
  moreover have "nb_mode ?n = NB_STATIC" "nb_interface ?n = Some ''eth0''" "nb_address ?n = Some ''10.0.0.1''"
    "nb_mask ?n = Some []" "nb_gateway ?n = Some []" "nb_nameserver ?n = Some []" "nb_domain ?n = Some []"
    by (simp_all add: nb_conf_init_def cfg_strinit_def)
  moreover have "sys_trace sample_sys = []" by (simp add: sample_sys_def)
  ultimately show ?thesis
    using static_network_commands [where prog = "\<lambda>argv f. (Exited [] 0, f)" and n = ?n and s = sample_sys
        and i = "''eth0''" and a = "''10.0.0.1''" and m = "[]" and g = "[]" and ns = "[]" and d = "[]"]
    by simp
qed

text \<open>
  C33: The loop over the interfaces tests the first byte of an interface index for the end of the list.
  On a big-endian machine, such as the one the program is written for, that byte is 0 for every
  index below \<open>2 ^ 24\<close>: the hardware address of an interface is never found.
\<close>

theorem mac_condition_fails_on_big_endian:
  assumes "big_endian net" and "if_list net = Some ifs" and "\<forall>(i, name) \<in> set ifs. i < 16777216"
  shows "\<not> nb_test_mac net macaddr"
  using test_mac_loop_big_endian [OF assms(1,3)] assms(2) by (simp add: nb_test_mac_def)

theorem mac_condition_fails_on_big_endian_witness:
  "hwaddr sample_net ''eth0'' = Some [0, 17, 34, 51, 68, 85]
    \<and> \<not> nb_test_mac sample_net ''00:11:22:33:44:55''"
  using mac_condition_fails_on_big_endian [of sample_net "[(1, ''eth0'')]"]
  by (simp add: sample_net_def)

text \<open>
  C34: When the call succeeds, the entry it delivers is the default entry of the configuration, copied
  after a signal other than \<^verbatim>\<open>SIGUSR1\<close>, or the result of parsing without an error a text at one of the
  reads: all that this client has written up to and including this read, each piece cut at a 0 byte
  and at the size of the buffer, in the order of the reads and nothing else. The outputs of two
  clients are never mixed, no piece is lost, repeated or moved, whatever the clients send, whichever
  signals arrive and in whichever order.
\<close>

theorem user_interface_returns_what_a_client_said:
  assumes "userinterface g net prog k msg config boot sig sc s = (Done (True, st), t)"
    and "es = client_events (started_clients k config) (uk_turns k)"
  shows "list_ex interrupts (uk_turns k) \<and> ui_timeout config = Inr (Some (ui_boot st))
    \<or> (\<exists>m sc' s' sc'' t'. m < length es
        \<and> parse_sysload_boot_entry g net prog sc' (said (fst (es ! m)) (take (Suc m) es)) s'
          = (Done (None, sc'', ui_boot st), t'))"
  using userinterface_selection_said [OF assms(1)] by (simp add: spoken_def assms(2))

theorem user_interface_returns_what_a_client_said_witness:
  "\<exists>st t. userinterface sample_grammar sample_net sample_prog (sample_ui_kernel (Parent 5 6 101)) []
      sample_ui_config cfg_bentry_init None scan_init sample_sys = (Done (True, st), t)
    \<and> ui_timeout sample_ui_config = Inr (Some (ui_boot st))"
proof -
  let ?k = "sample_ui_kernel (Parent 5 6 101)"
  obtain st t where u: "userinterface sample_grammar sample_net sample_prog ?k [] sample_ui_config cfg_bentry_init
      None scan_init sample_sys = (Done (True, st), t)" using sample_userinterface by blast
  have "client_events (started_clients ?k sample_ui_config) (uk_turns ?k) = []"
    by (simp add: client_events_def turn_events_def sample_ui_kernel_def)
  from u user_interface_returns_what_a_client_said [OF u this [symmetric]] show ?thesis by auto
qed

text \<open>
  C35: When every client could be forked, all signals go to clients: no other process is signalled,
  whatever happened in between. And a client that is not known to have ended when the call
  returns has been sent \<^verbatim>\<open>SIGTERM\<close> and \<^verbatim>\<open>SIGKILL\<close>.
\<close>

theorem user_interface_signals_only_its_clients:
  assumes "userinterface g net prog k msg config boot sig sc s = (Done (r, st), t)"
    and "\<forall>i < ui_count config. in_parent k i" and "cfg_wf config"
  shows "fst ` set (ui_kills st) \<subseteq> (\<lambda>i. ui_pid (forked (uk_start k i))) ` {..< ui_count config}
    \<and> (\<forall>c \<in> set (ui_clients st). ui_stat c = UI_RUNNING \<longrightarrow>
      {(ui_pid c, SIGTERM), (ui_pid c, SIGKILL)} \<subseteq> set (ui_kills st))"
  using userinterface_kills [OF assms] by blast

theorem user_interface_signals_only_its_clients_witness:
  "\<exists>st t. userinterface sample_grammar sample_net sample_prog (sample_ui_kernel (Parent 5 6 101)) []
      sample_ui_config cfg_bentry_init None scan_init sample_sys = (Done (True, st), t)
    \<and> fst ` set (ui_kills st) \<subseteq> {100, 101}"
proof -
  let ?k = "sample_ui_kernel (Parent 5 6 101)"
  obtain st t where u: "userinterface sample_grammar sample_net sample_prog ?k [] sample_ui_config
      cfg_bentry_init None scan_init sample_sys = (Done (True, st), t)"
    using sample_userinterface by blast
  have "(\<lambda>i. ui_pid (forked (uk_start ?k i))) ` {..< ui_count sample_ui_config} \<subseteq> {100, 101}"
    by (auto simp: sample_ui_kernel_def split: if_splits)
  with user_interface_signals_only_its_clients [OF u sample_ui_parents sample_ui_config_wf]
  have "fst ` set (ui_kills st) \<subseteq> {100, 101}" by (meson subset_trans)
  with u show ?thesis by (intro exI conjI)
qed

text \<open>
  C36: When a client cannot be started, the clients before it are sent \<^verbatim>\<open>SIGTERM\<close>. After a failed \<^verbatim>\<open>fork\<close>
  the status of the client says that it is running and its process identifier is -1, so the
  next signal goes to process -1, which stands for all processes. After a failed \<^verbatim>\<open>execl\<close> it is
  the child that sends the signals, to its own siblings.
\<close>

theorem failed_fork_signals_every_process:
  assumes "\<forall>i < j. in_parent k i" and "j < ui_count config"
    and "(\<exists>a b e. uk_start k j = ForkFails a b e) \<or> (\<exists>a b e. uk_start k j = Child a b (Some e))"
    and "uk_malloc k" and "cfg_wf config"
  shows "\<exists>st t ks. userinterface g net prog k msg config boot sig sc s = (Done (False, st), t)
    \<and> ui_kills st = map (\<lambda>i. (ui_pid (forked (uk_start k i)), SIGTERM)) [0..<j]
        @ (if \<exists>a b e. uk_start k j = ForkFails a b e then [(- 1, SIGTERM)] else []) @ ks"
  by (rule userinterface_start_fails) (fact assms)+

theorem failed_fork_signals_every_process_witness:
  "\<exists>st t ks. userinterface sample_grammar sample_net sample_prog (sample_ui_kernel (ForkFails 5 6 ''EAGAIN''))
      [] sample_ui_config cfg_bentry_init None scan_init sample_sys = (Done (False, st), t)
    \<and> ui_kills st = [(100, SIGTERM), (- 1, SIGTERM)] @ ks"
proof -
  let ?k = "sample_ui_kernel (ForkFails 5 6 ''EAGAIN'')"
  have "\<forall>i < 1. in_parent ?k i" "1 < ui_count sample_ui_config"
    "(\<exists>a b e. uk_start ?k 1 = ForkFails a b e) \<or> (\<exists>a b e. uk_start ?k 1 = Child a b (Some e))"
    "uk_malloc ?k"
    by (simp_all add: sample_ui_kernel_def in_parent_def sample_ui_config_def)
  from failed_fork_signals_every_process [OF this sample_ui_config_wf,
      of sample_grammar sample_net sample_prog "[]" cfg_bentry_init None scan_init sample_sys]
  show ?thesis by (simp add: sample_ui_kernel_def)
qed

text \<open>
  C37: A loop that returns has taken a number of turns, which is the length of the shortest sequence of turns
  on which it returns: given fewer it waits for the next one. It has armed the alarm exactly once in
  each of these turns: with the whole timeout in every turn up to and including the first one that
  \<^verbatim>\<open>SIGUSR1\<close> interrupts, and with 0, that is not at all, in all later ones. Output of a client that
  does not end the loop therefore restarts the timeout.
\<close>

theorem every_turn_arms_the_alarm:
  assumes "ui_loop g net prog turns e st s = (Done (ok, st'), t)" and "0 \<le> e"
  shows "\<exists>n \<le> length turns. (\<forall>m < n. fst (ui_loop g net prog (take m turns) e st s) = Spin)
    \<and> ui_loop g net prog (take n turns) e st s = (Done (ok, st'), t)
    \<and> ui_alarms st' = ui_alarms st
        @ map (\<lambda>i. if \<exists>j < i. turn_select (turns ! j) = Interrupted SIGUSR1 then 0 else e) [0..<n]"
  using ui_loop_alarms [OF assms] unfolding alarms_def stops_def .

theorem every_turn_arms_the_alarm_witness:
  "let ts = map (\<lambda>r. \<lparr>turn_signals = [], turn_alive = (\<lambda>_. True), turn_select = r\<rparr>)
      [Ready [], Interrupted SIGUSR1, SelectFailed []] in
   \<exists>st' n. ui_loop sample_grammar sample_net sample_prog ts 10
      (ui_initial sample_ui_config cfg_bentry_init None (scan_init :: reduction list scan_state)) sample_sys
      = (Done (False, st'), sample_sys)
    \<and> ui_alarms st' = [10, 10, 0]
    \<and> ui_alarms st' = map (\<lambda>i. if \<exists>j < i. turn_select (ts ! j) = Interrupted SIGUSR1 then 0 else 10) [0..<n]"
proof -
  let ?ts = "map (\<lambda>r. \<lparr>turn_signals = [], turn_alive = (\<lambda>_. True), turn_select = r\<rparr>)
        [Ready [], Interrupted SIGUSR1, SelectFailed []]"
  let ?st = "ui_initial sample_ui_config cfg_bentry_init None (scan_init :: reduction list scan_state)"
  have "\<exists>st'. ui_loop sample_grammar sample_net sample_prog ?ts 10 ?st sample_sys = (Done (False, st'), sample_sys)
    \<and> ui_alarms st' = [10, 10, 0]"
    by (simp add: Let_def receive_def ui_select_def log_ui_def)
  then obtain st' where u: "ui_loop sample_grammar sample_net sample_prog ?ts 10 ?st sample_sys
      = (Done (False, st'), sample_sys)" and a: "ui_alarms st' = [10, 10, 0]" by blast
  have z: "0 \<le> (10 :: int)" and e: "ui_alarms ?st = []" by simp_all
  from every_turn_arms_the_alarm [OF u z] u a show ?thesis unfolding e append_Nil Let_def by blast
qed



text \<open>
  C39: The input line of the menu is a command letter and the number of an entry, in either order and
  with any number of blanks in front of and between them; a letter alone leaves the number 0, a
  number alone leaves the command 0.
\<close>

theorem linemode_selection_syntax:
  assumes "command_char c" and "int32 (int n)"
  shows "compute_selection (spaces p @ c # spaces q @ dec n) = Inr (c, int n)
    \<and> compute_selection (spaces p @ dec n @ spaces q @ [c]) = Inr (c, int n)
    \<and> compute_selection (spaces p @ [c]) = Inr (c, 0)
    \<and> compute_selection (spaces p @ dec n @ spaces q) = Inr (CHR 0x00, int n)"
  using compute_selection_command [OF assms(1)] compute_selection_command_number [OF assms]
    compute_selection_number_command [OF assms] compute_selection_number [OF assms(2)]
  by blast

theorem linemode_selection_syntax_witness:
  "compute_selection ''d3'' = Inr (CHR ''d'', 3) \<and> compute_selection '' 3 d'' = Inr (CHR ''d'', 3)"
proof -
  have d: "command_char CHR ''d''" and i: "int32 (int 3)" and n: "dec 3 = ''3''"
    by (simp add: command_char_def isdigit_def isspace_def, simp add: int32_def, code_simp)
  show ?thesis
    using linemode_selection_syntax [OF d i, of 0 0] linemode_selection_syntax [OF d i, of 1 1]
    by (simp add: n)
qed

text \<open>
  C40: The command \<open>m\<close> on an entry that boots an INSFILE or a boot map asks for the values of a kernel,
  whatever the type of the entry, and then takes the length of a name that was never read: the
  program ends in undefined behaviour for every input of the user.
\<close>

theorem insfile_entries_cannot_be_modified:
  assumes "action b = INSFILE_BOOT \<or> action b = BOOTMAP_BOOT"
  shows "\<exists>u. run_command CHR ''m'' b t = Inl (LmUb u) \<and> run_command CHR ''M'' b t = Inl (LmUb u)"
proof -
  obtain u where "modify_entry b t = Inl (LmUb u)" using modify_entry_ub [OF assms] by blast
  with assms show ?thesis by (auto simp: run_command_def)
qed

theorem insfile_entries_cannot_be_modified_witness:
  "\<exists>u. run_command CHR ''m'' (sample_plain\<lparr>action := INSFILE_BOOT\<rparr>) (sample_tty [nl, nl, nl, nl, nl])
    = Inl (LmUb u)"
proof -
  have "action (sample_plain\<lparr>action := INSFILE_BOOT\<rparr>) = INSFILE_BOOT
      \<or> action (sample_plain\<lparr>action := INSFILE_BOOT\<rparr>) = BOOTMAP_BOOT" by simp
  from insfile_entries_cannot_be_modified [OF this] show ?thesis by blast
qed

end
